(* ===== verification/Prelude.thy ===== *)
theory Prelude
  imports Main "HOL-Library.State_Monad" "HOL-Library.Monad_Syntax" "HOL-Library.Word"
    "HOL-Library.Char_ord" "HOL-Library.List_Lexorder" "HOL-Library.Product_Lexorder"
begin

section \<open>Prelude: time, bytes, strings and a weakest-precondition calculus\<close>

text \<open>
  What every component of the model shares: the units of time, the hexadecimal spelling of
  bytes (Go's \<^verbatim>\<open>hex.EncodeToString\<close>), Go's prefix and suffix functions on strings, selection of
  the first row of an ordered query, and the weakest precondition of a program in the state
  monad of the library.  The collection \<open>wp\<close> holds the equations that compute a weakest
  precondition by simplification.
\<close>

unbundle bit_operations_syntax

named_theorems wp "equations that compute the weakest precondition of a stateful program"

subsection \<open>Time\<close>

text \<open>Instants and durations are integers in nanoseconds, as in Go's \<^verbatim>\<open>time\<close> package.\<close>

type_synonym time = int
type_synonym duration = int

abbreviation microsecond :: duration where "microsecond \<equiv> 1000"
abbreviation second :: duration where "second \<equiv> 1000000000"
abbreviation minute :: duration where "minute \<equiv> 60000000000"
abbreviation hour :: duration where "hour \<equiv> 3600000000000"

text \<open>A PostgreSQL \<^verbatim>\<open>timestamptz\<close> keeps whole microseconds: a Go instant is rounded down when it
  is sent as a parameter.\<close>

definition timestamptz :: "time \<Rightarrow> time" where
  "timestamptz t = t div microsecond * microsecond"

lemma timestamptz_le: "timestamptz t \<le> t"
  unfolding timestamptz_def by presburger

lemma timestamptz_gt: "t - microsecond < timestamptz t"
  unfolding timestamptz_def by presburger

lemma timestamptz_mono: "s \<le> t \<Longrightarrow> timestamptz s \<le> timestamptz t"
  by (simp add: timestamptz_def zdiv_mono1)

lemma timestamptz_idem [simp]: "timestamptz (timestamptz t) = timestamptz t"
  by (simp add: timestamptz_def)

lemma timestamptz_add: "timestamptz (timestamptz s + t) = timestamptz s + timestamptz t"
  by (simp add: timestamptz_def algebra_simps)

subsection \<open>Bytes and their hexadecimal spelling\<close>

type_synonym byte = "8 word"

definition hex_digit :: "nat \<Rightarrow> char" where
  "hex_digit n = ''0123456789abcdef'' ! n"

definition hex_byte :: "byte \<Rightarrow> string" where
  "hex_byte b = [hex_digit (unat b div 16), hex_digit (unat b mod 16)]"

definition hex_EncodeToString :: "byte list \<Rightarrow> string" where
  "hex_EncodeToString bs = concat (map hex_byte bs)"

lemma hex_Nil [simp]: "hex_EncodeToString [] = []"
  and hex_Cons [simp]: "hex_EncodeToString (b # bs) = hex_byte b @ hex_EncodeToString bs"
  by (simp_all add: hex_EncodeToString_def)

lemma length_hex_byte [simp]: "length (hex_byte b) = 2"
  by (simp add: hex_byte_def)

lemma length_hex [simp]: "length (hex_EncodeToString bs) = 2 * length bs"
  by (induction bs) auto

lemma hex_append: "hex_EncodeToString (xs @ ys) = hex_EncodeToString xs @ hex_EncodeToString ys"
  by (simp add: hex_EncodeToString_def)

lemma unat_byte_lt: "unat (b :: byte) < 256"
  using unsigned_less [of b] by simp

lemma nibble_cases:
  assumes "(n::nat) < 16"
  shows "n \<in> {0, 1, 2, 3, 4, 5, 6, 7, 8, 9, 10, 11, 12, 13, 14, 15}"
  using assms by (simp only: insert_iff empty_iff) arith

lemma hex_digit_inj: "m < 16 \<Longrightarrow> n < 16 \<Longrightarrow> hex_digit m = hex_digit n \<Longrightarrow> m = n"
  by (drule nibble_cases, drule nibble_cases) (auto simp: hex_digit_def)

lemma hex_byte_inj: "hex_byte a = hex_byte b \<Longrightarrow> a = b"
proof -
  assume eq: "hex_byte a = hex_byte b"
  have "unat a div 16 = unat b div 16"
    using eq unat_byte_lt [of a] unat_byte_lt [of b]
    by (intro hex_digit_inj) (auto simp: hex_byte_def)
  moreover have "unat a mod 16 = unat b mod 16"
    using eq by (intro hex_digit_inj) (auto simp: hex_byte_def)
  ultimately have "unat a = unat b"
    by (metis div_mult_mod_eq)
  then show ?thesis by (simp add: word_unat_eq_iff)
qed

lemma hex_inj: "hex_EncodeToString xs = hex_EncodeToString ys \<longleftrightarrow> xs = ys"
proof
  assume "hex_EncodeToString xs = hex_EncodeToString ys"
  moreover from this have "length xs = length ys"
    by (metis length_hex mult_left_cancel zero_neq_numeral)
  ultimately show "xs = ys"
    by (induction xs arbitrary: ys) (case_tac ys; auto dest: hex_byte_inj)+
qed simp

subsection \<open>Go's string functions\<close>

definition HasPrefix :: "string \<Rightarrow> string \<Rightarrow> bool" where
  "HasPrefix s p = (take (length p) s = p)"

definition TrimPrefix :: "string \<Rightarrow> string \<Rightarrow> string" where
  "TrimPrefix s p = (if HasPrefix s p then drop (length p) s else s)"

definition HasSuffix :: "string \<Rightarrow> string \<Rightarrow> bool" where
  "HasSuffix s p = (length p \<le> length s \<and> drop (length s - length p) s = p)"

definition TrimSuffix :: "string \<Rightarrow> string \<Rightarrow> string" where
  "TrimSuffix s p = (if HasSuffix s p then take (length s - length p) s else s)"

lemma HasPrefix_append [simp]: "HasPrefix (p @ s) p"
  and TrimPrefix_append [simp]: "TrimPrefix (p @ s) p = s"
  by (simp_all add: HasPrefix_def TrimPrefix_def)

lemma HasSuffix_append [simp]: "HasSuffix (s @ p) p"
  and TrimSuffix_append [simp]: "TrimSuffix (s @ p) p = s"
  by (simp_all add: HasSuffix_def TrimSuffix_def)

lemma HasPrefix_iff: "HasPrefix s p \<longleftrightarrow> (\<exists>r. s = p @ r)"
  by (auto simp: HasPrefix_def) (metis append_take_drop_id)

lemma HasSuffix_iff: "HasSuffix s p \<longleftrightarrow> (\<exists>r. s = r @ p)"
  by (auto simp: HasSuffix_def) (metis append_take_drop_id)

subsection \<open>The first row of an ordered query\<close>

text \<open>\<^verbatim>\<open>SELECT ... WHERE p ORDER BY k LIMIT 1\<close> over the rows of a table.\<close>

definition first_by :: "('a \<Rightarrow> 'k::linorder) \<Rightarrow> ('a \<Rightarrow> bool) \<Rightarrow> 'a list \<Rightarrow> 'a option" where
  "first_by k p xs = (case sort_key k (filter p xs) of [] \<Rightarrow> None | x # _ \<Rightarrow> Some x)"

lemma first_by_None: "first_by k p xs = None \<longleftrightarrow> (\<forall>x\<in>set xs. \<not> p x)"
proof -
  have "sort_key k (filter p xs) = [] \<longleftrightarrow> filter p xs = []"
    by (metis length_0_conv length_sort)
  then show ?thesis
    by (auto simp: first_by_def filter_empty_conv split: list.splits)
qed

lemma first_by_Some:
  assumes "first_by k p xs = Some x"
  shows "x \<in> set xs" and "p x" and "\<And>y. y \<in> set xs \<Longrightarrow> p y \<Longrightarrow> k x \<le> k y"
proof -
  obtain ys where s: "sort_key k (filter p xs) = x # ys"
    using assms by (auto simp: first_by_def split: list.splits)
  have set: "set (x # ys) = {y \<in> set xs. p y}"
    using arg_cong [OF s, of set] by simp
  then show "x \<in> set xs" and "p x" by auto
  fix y assume "y \<in> set xs" and "p y"
  then have "y \<in> set (x # ys)" using set by auto
  moreover have "sorted (map k (x # ys))"
    using s sorted_sort_key [of k "filter p xs"] by simp
  ultimately show "k x \<le> k y" by auto
qed

subsection \<open>Weakest preconditions\<close>

definition wp :: "('w, 'a) state \<Rightarrow> ('a \<Rightarrow> 'w \<Rightarrow> bool) \<Rightarrow> 'w \<Rightarrow> bool" where
  "wp m Q w = (case run_state m w of (r, w') \<Rightarrow> Q r w')"

lemma wp_return [wp]: "wp (State_Monad.return x) Q w = Q x w"
  by (simp add: wp_def)

lemma wp_bind [wp]: "wp (State_Monad.bind m f) Q w = wp m (\<lambda>r. wp (f r) Q) w"
  by (simp add: wp_def split: prod.splits)

lemma wp_State [wp]: "wp (State f) Q w = (case f w of (r, w') \<Rightarrow> Q r w')"
  by (simp add: wp_def)

lemma wp_if [wp]: "wp (if b then m else n) Q w = (if b then wp m Q w else wp n Q w)"
  by simp

lemma wp_case_sum [wp]:
  "wp (case s of Inl e \<Rightarrow> f e | Inr x \<Rightarrow> g x) Q w =
     (case s of Inl e \<Rightarrow> wp (f e) Q w | Inr x \<Rightarrow> wp (g x) Q w)"
  by (cases s) auto

lemma wp_case_option [wp]:
  "wp (case s of None \<Rightarrow> f | Some x \<Rightarrow> g x) Q w =
     (case s of None \<Rightarrow> wp f Q w | Some x \<Rightarrow> wp (g x) Q w)"
  by (cases s) auto

lemma wp_case_prod [wp]:
  "wp (case p of (x, y) \<Rightarrow> f x y) Q w = (case p of (x, y) \<Rightarrow> wp (f x y) Q w)"
  by (cases p) auto

lemma wp_Let [wp]: "wp (Let x f) Q w = wp (f x) Q w"
  by (simp add: Let_def)

lemma wp_mono: "wp m R w \<Longrightarrow> (\<And>r w'. R r w' \<Longrightarrow> Q r w') \<Longrightarrow> wp m Q w"
  by (auto simp: wp_def split: prod.splits)

lemma wp_conj: "wp m R w \<Longrightarrow> wp m S w \<Longrightarrow> wp m (\<lambda>r w'. R r w' \<and> S r w') w"
  by (auto simp: wp_def split: prod.splits)

lemma wp_run: "wp m Q w \<Longrightarrow> run_state m w = (r, w') \<Longrightarrow> Q r w'"
  by (simp add: wp_def)

lemma wp_iff_run: "wp m Q w \<longleftrightarrow> (\<forall>r w'. run_state m w = (r, w') \<longrightarrow> Q r w')"
  by (auto simp: wp_def split: prod.splits)

subsection \<open>Guarantees\<close>

text \<open>What holds between an earlier and a later state however many steps lie between them.\<close>

locale guarantee =
  fixes R :: "'s \<Rightarrow> 's \<Rightarrow> bool"
  assumes refl: "R s s"
    and trans: "R s t \<Longrightarrow> R t r \<Longrightarrow> R s r"
begin

lemma steps:
  assumes "step\<^sup>*\<^sup>* s t" and "I s" and "\<And>s t. step s t \<Longrightarrow> I s \<Longrightarrow> I t \<and> R s t"
  shows "I t \<and> R s t"
  using assms(1,2) by (induction rule: rtranclp_induct) (blast intro: refl trans dest: assms(3))+

end

end
