(* ===== verification/Errors.thy ===== *)
theory Errors
  imports Prelude
begin

section \<open>Errors, their classification and the retry policy\<close>

text \<open>
  Models the error values of \<^verbatim>\<open>internal/app\<close>, the functions that read them
  (\<^verbatim>\<open>storageObjectMissing\<close>, \<^verbatim>\<open>classifyStorageError\<close>, \<^verbatim>\<open>classifyDatabaseError\<close>,
  \<^verbatim>\<open>retryableTransactionError\<close>, \<^verbatim>\<open>classifyCleanupDelete\<close>, \<^verbatim>\<open>publicFailureCode\<close>) and the two
  backoff schedules (\<^verbatim>\<open>finalizerRetryDelay\<close>, \<^verbatim>\<open>cleanupRetryDelay\<close>).  Both schedules meet one
  contract, the locale \<open>capped_backoff\<close>.
\<close>

subsection \<open>Error values\<close>

text \<open>
  What \<^verbatim>\<open>errors.Is\<close> and \<^verbatim>\<open>errors.As\<close> can find in an error's chain: the sentinels it wraps, whether
  it is a \<^verbatim>\<open>net.Error\<close>, the first \<^verbatim>\<open>ErrorCode()\<close>, \<^verbatim>\<open>HTTPStatusCode()\<close> and \<^verbatim>\<open>pgconn.PgError\<close> code.
\<close>

datatype sentinel =
    ContextDeadlineExceeded
  | ContextCanceled
  | ErrNoRows
  | ErrIdempotencyKeyReused
  | ErrUploadNotFound
  | ErrServiceUnavailable
  | ErrUploadSigningInvalid
  | ErrContentSigningInvalid
  | ErrCompletionOutcomeUnknown
  | ErrCandidateRegistrationOutcomeUnknown
  | ErrObjectLengthMismatch
  | ErrStagingRead
  | ErrText string

record go_error =
  err_chain :: "sentinel list"
  err_net :: bool
  err_api :: "string option"
  err_http :: "int option"
  err_pg :: "string option"

definition errors_New :: "sentinel \<Rightarrow> go_error" where
  "errors_New s = \<lparr>err_chain = [s], err_net = False, err_api = None, err_http = None, err_pg = None\<rparr>"

definition errors_Is :: "go_error \<Rightarrow> sentinel \<Rightarrow> bool" where
  "errors_Is e s = List.member (err_chain e) s"

definition pg_error :: "string \<Rightarrow> go_error" where
  "pg_error code =
     \<lparr>err_chain = [], err_net = False, err_api = None, err_http = None, err_pg = Some code\<rparr>"

abbreviation "errNoRows \<equiv> errors_New ErrNoRows"
abbreviation "errIdempotencyKeyReused \<equiv> errors_New ErrIdempotencyKeyReused"
abbreviation "errUploadNotFound \<equiv> errors_New ErrUploadNotFound"
abbreviation "errServiceUnavailable \<equiv> errors_New ErrServiceUnavailable"
abbreviation "errUploadSigningInvalid \<equiv> errors_New ErrUploadSigningInvalid"
abbreviation "errContentSigningInvalid \<equiv> errors_New ErrContentSigningInvalid"
abbreviation "errCompletionOutcomeUnknown \<equiv> errors_New ErrCompletionOutcomeUnknown"
abbreviation "errCandidateRegistrationOutcomeUnknown \<equiv>
  errors_New ErrCandidateRegistrationOutcomeUnknown"
abbreviation "errObjectLengthMismatch \<equiv> errors_New ErrObjectLengthMismatch"

lemma errors_Is_New [simp]: "errors_Is (errors_New s) t \<longleftrightarrow> t = s"
  by (auto simp: errors_Is_def errors_New_def)

lemma errors_Is_pg [simp]: "\<not> errors_Is (pg_error c) s"
  by (simp add: errors_Is_def pg_error_def)

lemma errors_New_eq [simp]: "errors_New s = errors_New t \<longleftrightarrow> s = t"
  by (simp add: errors_New_def)

subsection \<open>Classification\<close>

definition retryableTransactionError :: "go_error \<Rightarrow> bool" where
  "retryableTransactionError err =
     (case err_pg err of None \<Rightarrow> False | Some code \<Rightarrow> code = ''40001'' \<or> code = ''40P01'')"

definition uploadSigningError :: "go_error \<Rightarrow> go_error" where
  "uploadSigningError err =
     (if errors_Is err ErrUploadSigningInvalid then errUploadSigningInvalid
      else errServiceUnavailable)"

definition storageObjectMissing :: "go_error \<Rightarrow> bool" where
  "storageObjectMissing err =
     (case err_api err of
        Some code \<Rightarrow> code = ''NoSuchKey'' \<or> code = ''NotFound''
      | None \<Rightarrow> (case err_http err of Some status \<Rightarrow> status = 404 | None \<Rightarrow> False))"

text \<open>The \<^verbatim>\<open>switch\<close> on the API error code; \<open>None\<close> is falling through it.\<close>

definition api_error_class :: "string \<Rightarrow> string option" where
  "api_error_class code =
     (if code \<in> {''AccessDenied'', ''InvalidAccessKeyId'', ''SignatureDoesNotMatch'', ''ExpiredToken''}
      then Some ''auth''
      else if code \<in> {''NoSuchBucket'', ''InvalidBucketName'', ''AuthorizationHeaderMalformed''}
      then Some ''configuration''
      else if code \<in> {''InternalError'', ''RequestTimeout'', ''ServiceUnavailable'', ''SlowDown'', ''Throttling''}
      then Some ''transient''
      else None)"

definition http_error_class :: "int \<Rightarrow> string option" where
  "http_error_class status =
     (if status = 401 \<or> status = 403 then Some ''auth''
      else if status = 408 \<or> status = 425 \<or> status = 429 \<or> status \<ge> 500 then Some ''transient''
      else None)"

definition classifyStorageError :: "go_error \<Rightarrow> bool \<Rightarrow> string" where
  "classifyStorageError err write =
     (if errors_Is err ContextDeadlineExceeded \<or> errors_Is err ContextCanceled
      then (if write then ''ambiguous'' else ''transient'')
      else if errors_Is err ErrObjectLengthMismatch then ''transient''
      else if err_net err then (if write then ''ambiguous'' else ''transient'')
      else case Option.bind (err_api err) api_error_class of
        Some c \<Rightarrow> c
      | None \<Rightarrow>
          (case Option.bind (err_http err) http_error_class of
             Some c \<Rightarrow> c
           | None \<Rightarrow> if write then ''ambiguous'' else ''other_deterministic''))"

definition pg_error_class :: "string \<Rightarrow> string" where
  "pg_error_class code =
     (if code = ''40003'' then ''ambiguous''
      else if code \<in> {''40001'', ''40P01'', ''55P03'', ''57014'', ''57P01'', ''53300''} then ''transient''
      else if code \<in> {''28000'', ''28P01''} then ''auth''
      else if code \<in> {''3D000'', ''42P01'', ''42703''} then ''configuration''
      else ''other_deterministic'')"

definition classifyDatabaseError :: "go_error \<Rightarrow> bool \<Rightarrow> string" where
  "classifyDatabaseError err mutation =
     (if errors_Is err ErrCandidateRegistrationOutcomeUnknown then ''ambiguous''
      else case err_pg err of
        Some code \<Rightarrow> pg_error_class code
      | None \<Rightarrow>
          (if errors_Is err ContextDeadlineExceeded \<or> errors_Is err ContextCanceled
           then (if mutation then ''ambiguous'' else ''transient'')
           else if err_net err then (if mutation then ''ambiguous'' else ''transient'')
           else if mutation then ''ambiguous'' else ''other_deterministic''))"

text \<open>The result is (stored result, log outcome, error class); \<open>ctx_err\<close> is \<^verbatim>\<open>ctx.Err() != nil\<close>.\<close>

definition classifyCleanupDelete :: "bool \<Rightarrow> go_error option \<Rightarrow> string \<times> string \<times> string" where
  "classifyCleanupDelete ctx_err err =
     (case err of
        None \<Rightarrow> (''delete_succeeded'', ''deleted'', '''')
      | Some e \<Rightarrow>
          (if storageObjectMissing e then (''confirmed_absent'', ''absent'', '''')
           else let errorClass = classifyStorageError e True;
                    logOutcome = (if errors_Is e ContextCanceled \<and> ctx_err then ''canceled''
                                  else errorClass @ ''_error'')
                in (errorClass @ ''_error'', logOutcome, errorClass)))"

definition publicFailureCode :: "string \<Rightarrow> string \<Rightarrow> string" where
  "publicFailureCode cls reason =
     (if cls = ''invalid_input'' then
        (if reason \<in> {''object_too_large'', ''dimensions_limit_exceeded'', ''pixel_limit_exceeded''}
         then ''image_too_large''
         else if reason \<in> {''declared_size_mismatch'', ''invalid_image_encoding'',
                           ''declared_content_type_mismatch'', ''malformed_image''}
         then ''invalid_image''
         else '''')
      else if cls = ''internal_invariant'' then
        (if reason = ''decoder_invariant_mismatch'' \<or> reason = ''candidate_integrity_mismatch''
         then ''upload_processing_failed'' else '''')
      else '''')"

subsection \<open>The five error classes\<close>

abbreviation error_classes :: "string list" where
  "error_classes \<equiv> [''transient'', ''ambiguous'', ''auth'', ''configuration'', ''other_deterministic'']"

lemma api_error_class_range: "api_error_class code = Some c \<Longrightarrow> c \<in> set error_classes"
  and http_error_class_range: "http_error_class status = Some c \<Longrightarrow> c \<in> set error_classes"
  by (auto simp: api_error_class_def http_error_class_def split: if_splits)

lemma classifyStorageError_class: "classifyStorageError err write \<in> set error_classes"
proof (cases "Option.bind (err_api err) api_error_class")
  case (Some c)
  then have "c \<in> set error_classes"
    by (auto simp: Option.bind_eq_Some_conv dest: api_error_class_range)
  with Some show ?thesis by (simp add: classifyStorageError_def)
next
  case api: None
  show ?thesis
  proof (cases "Option.bind (err_http err) http_error_class")
    case (Some c)
    then have "c \<in> set error_classes"
      by (auto simp: Option.bind_eq_Some_conv dest: http_error_class_range)
    with api Some show ?thesis by (simp add: classifyStorageError_def)
  qed (simp add: api classifyStorageError_def)
qed

lemma pg_error_class_range: "pg_error_class code \<in> set error_classes"
  by (simp add: pg_error_class_def)

lemma classifyDatabaseError_class: "classifyDatabaseError err mutation \<in> set error_classes"
  using pg_error_class_range
  by (simp add: classifyDatabaseError_def split: option.splits)

abbreviation cleanup_outcomes :: "string list" where
  "cleanup_outcomes \<equiv> [''delete_succeeded'', ''confirmed_absent'', ''transient_error'',
     ''ambiguous_error'', ''auth_error'', ''configuration_error'', ''other_deterministic_error'']"

lemma classifyCleanupDelete_cases:
  assumes "classifyCleanupDelete c err = (result, logOutcome, errorClass)"
  obtains (success) "errorClass = ''''" "result \<in> {''delete_succeeded'', ''confirmed_absent''}"
  | (failure) "errorClass \<in> set error_classes" "result = errorClass @ ''_error''"
proof (cases "errorClass = ''''")
  case True
  have "classifyStorageError e True \<noteq> ''''" for e
    using classifyStorageError_class [of e True] by auto
  with True assms have "result \<in> {''delete_succeeded'', ''confirmed_absent''}"
    by (auto simp: classifyCleanupDelete_def Let_def split: option.splits if_splits)
  with True show thesis by (rule success)
next
  case False
  with assms classifyStorageError_class have "errorClass \<in> set error_classes"
    by (auto simp: classifyCleanupDelete_def Let_def split: option.splits if_splits)
  moreover from False assms have "result = errorClass @ ''_error''"
    by (auto simp: classifyCleanupDelete_def Let_def split: option.splits if_splits)
  ultimately show thesis by (rule failure)
qed

subsection \<open>Backoff schedules\<close>

definition finalizerRetryDelay :: "int \<Rightarrow> string \<Rightarrow> duration" where
  "finalizerRetryDelay streak errorClass =
     (if errorClass = ''auth'' \<or> errorClass = ''configuration'' \<or> errorClass = ''other_deterministic''
      then minute
      else let streak = (if streak < 1 then 1 else streak);
               delay = second * 2 ^ nat (min (streak - 1) 6)
           in if delay > minute then minute else delay)"

definition cleanupRetryDelay :: "int \<Rightarrow> string \<Rightarrow> duration" where
  "cleanupRetryDelay streak errorClass =
     (if errorClass = ''auth'' \<or> errorClass = ''configuration'' \<or> errorClass = ''other_deterministic''
      then hour
      else let streak = (if streak < 1 then 1 else streak);
               delay = minute * 2 ^ nat (min (streak - 1) 6)
           in if delay > hour then hour else delay)"

text \<open>
  The contract of a schedule: a deterministic failure waits the whole cap, any other failure waits
  one unit at first, twice as long after each further failure, and never longer than the cap.
\<close>

locale capped_backoff =
  fixes delay :: "int \<Rightarrow> string \<Rightarrow> duration"
    and unit :: duration
    and cap :: duration
  assumes unit_pos: "0 < unit"
    and unit_whole: "unit mod microsecond = 0"
    and cap_whole: "cap mod microsecond = 0"
    and unit_cap: "unit \<le> cap"
    and deterministic: "c \<in> {''auth'', ''configuration'', ''other_deterministic''} \<Longrightarrow> delay n c = cap"
    and first: "c \<notin> {''auth'', ''configuration'', ''other_deterministic''} \<Longrightarrow> n \<le> 1 \<Longrightarrow> delay n c = unit"
    and double: "c \<notin> {''auth'', ''configuration'', ''other_deterministic''} \<Longrightarrow> 1 \<le> n
      \<Longrightarrow> delay (n + 1) c = min cap (2 * delay n c)"
begin

lemma delay_eq:
  assumes "c \<notin> {''auth'', ''configuration'', ''other_deterministic''}"
  shows "delay (int k + 1) c = min cap (unit * 2 ^ k)"
proof (induction k)
  case 0
  then show ?case using assms first [of c 1] unit_cap by simp
next
  case (Suc k)
  have "delay (int (Suc k) + 1) c = min cap (2 * delay (int k + 1) c)"
    using double [OF assms, of "int k + 1"] by (simp add: add.commute)
  also have "\<dots> = min cap (2 * min cap (unit * 2 ^ k))"
    by (simp add: Suc.IH)
  also have "\<dots> = min cap (unit * 2 ^ Suc k)"
    using unit_pos unit_cap by (auto simp: min_def algebra_simps)
  finally show ?case .
qed

lemma delay_bounds: "unit \<le> delay n c \<and> delay n c \<le> cap"
proof (cases "c \<in> {''auth'', ''configuration'', ''other_deterministic''}")
  case True
  then show ?thesis using deterministic [OF True] unit_cap by simp
next
  case c: False
  show ?thesis
  proof (cases "n \<le> 1")
    case True
    then show ?thesis using first [OF c True] unit_cap by simp
  next
    case False
    then have "delay n c = min cap (unit * 2 ^ nat (n - 1))"
      using delay_eq [OF c, of "nat (n - 1)"] by simp
    moreover have "unit * 1 \<le> unit * 2 ^ nat (n - 1)"
      using unit_pos by (intro mult_left_mono) auto
    ultimately show ?thesis using unit_cap by simp
  qed
qed

lemma delay_pos: "0 < delay n c"
  using delay_bounds [of n c] unit_pos by simp

lemma delay_mono: "m \<le> n \<Longrightarrow> delay m c \<le> delay n c"
proof (cases "c \<in> {''auth'', ''configuration'', ''other_deterministic''}")
  case c: False
  assume "m \<le> n"
  then show ?thesis
  proof (cases "m \<le> 1")
    case True
    then show ?thesis using first [OF c True] delay_bounds [of n c] by simp
  next
    case False
    have "(2::int) ^ nat (m - 1) \<le> 2 ^ nat (n - 1)"
      using \<open>m \<le> n\<close> by (intro power_increasing) auto
    then have "unit * 2 ^ nat (m - 1) \<le> unit * 2 ^ nat (n - 1)"
      using unit_pos by (intro mult_left_mono) auto
    then show ?thesis
      using False \<open>m \<le> n\<close> delay_eq [OF c, of "nat (m - 1)"] delay_eq [OF c, of "nat (n - 1)"] by simp
  qed
qed (auto simp: deterministic)

text \<open>Every delay is a whole number of microseconds, so PostgreSQL stores the exact next attempt.\<close>

lemma delay_whole: "delay n c mod microsecond = 0"
proof (cases "c \<in> {''auth'', ''configuration'', ''other_deterministic''}")
  case True
  then show ?thesis using deterministic [OF True] cap_whole by simp
next
  case c: False
  show ?thesis
  proof (cases "n \<le> 1")
    case True
    then show ?thesis using first [OF c True] unit_whole by simp
  next
    case False
    then have "delay n c = min cap (unit * 2 ^ nat (n - 1))"
      using delay_eq [OF c, of "nat (n - 1)"] by simp
    moreover have "unit * 2 ^ nat (n - 1) mod microsecond = 0"
      using unit_whole by (metis mod_mult_left_eq mult_zero_left mod_0)
    ultimately show ?thesis using cap_whole by (simp add: min_def)
  qed
qed

end

lemma power_min_six: "k \<ge> 6 \<Longrightarrow> min (int k) 6 = 6"
  by simp

lemma shift_cases:
  assumes "1 \<le> (n::int)"
  shows "n = 1 \<or> n = 2 \<or> n = 3 \<or> n = 4 \<or> n = 5 \<or> n = 6 \<or> 7 \<le> n"
  using assms by arith

interpretation finalizer_backoff: capped_backoff finalizerRetryDelay second minute
proof unfold_locales
  fix c :: string and n :: int
  assume c: "c \<notin> {''auth'', ''configuration'', ''other_deterministic''}" and "1 \<le> n"
  from shift_cases [OF this(2)] c
  show "finalizerRetryDelay (n + 1) c = min minute (2 * finalizerRetryDelay n c)"
    by (elim disjE) (simp_all add: finalizerRetryDelay_def)
qed (auto simp: finalizerRetryDelay_def)

interpretation cleanup_backoff: capped_backoff cleanupRetryDelay minute hour
proof unfold_locales
  fix c :: string and n :: int
  assume c: "c \<notin> {''auth'', ''configuration'', ''other_deterministic''}" and "1 \<le> n"
  from shift_cases [OF this(2)] c
  show "cleanupRetryDelay (n + 1) c = min hour (2 * cleanupRetryDelay n c)"
    by (elim disjE) (simp_all add: cleanupRetryDelay_def)
qed (auto simp: cleanupRetryDelay_def)

end
