(* ===== verification/Schema.thy ===== *)
theory Schema
  imports Errors
begin

section \<open>The database schema\<close>

text \<open>
  Models \<^verbatim>\<open>migrations/0001_initial.sql\<close>: the three tables as lists of records, every
  \<^verbatim>\<open>CHECK\<close> constraint as a boolean function on a row, and the table-level operations the SQL of
  \<^verbatim>\<open>internal/app\<close> uses (\<^verbatim>\<open>INSERT\<close> with its primary key, unique and foreign key checks,
  \<^verbatim>\<open>UPDATE ... WHERE\<close>).  A nullable column is an option.  The order of a table's list carries no
  meaning; every query that depends on an order sorts.
\<close>

subsection \<open>Rows\<close>

text \<open>The text of the column \<^verbatim>\<open>uploads.state\<close>; \<open>OtherState\<close> is any text but the five.\<close>

datatype upload_state = Pending | Finalizing | Ready | Rejected | Expired | OtherState string

fun state_text :: "upload_state \<Rightarrow> string" where
  "state_text Pending = ''pending''"
| "state_text Finalizing = ''finalizing''"
| "state_text Ready = ''ready''"
| "state_text Rejected = ''rejected''"
| "state_text Expired = ''expired''"
| "state_text (OtherState s) = s"

definition terminal :: "upload_state \<Rightarrow> bool" where
  "terminal s = (s = Ready \<or> s = Rejected \<or> s = Expired)"

datatype json_value = JInt int | JStr string

type_synonym evidence = "(string \<times> json_value) list"

record upload_row =
  u_upload_id :: string
  u_idempotency_key :: string
  u_staging_key :: string
  u_declared_size :: int
  u_declared_content_type :: string
  u_state :: upload_state
  u_created_at :: time
  u_upload_deadline :: time
  u_max_write_expires_at :: time
  u_completion_requested_at :: "time option"
  u_reconcile_after :: "time option"
  u_failure_streak :: int
  u_last_failure_class :: "string option"
  u_last_failure_at :: "time option"
  u_claim_token :: "string option"
  u_claim_expires_at :: "time option"
  u_terminal_at :: "time option"
  u_final_key :: "string option"
  u_rejection_class :: "string option"
  u_rejection_reason :: "string option"
  u_rejection_policy_version :: "int option"
  u_rejection_phase :: "string option"
  u_rejection_evidence :: "evidence option"
  u_expiry_reason :: "string option"

record candidate_row =
  c_upload_id :: string
  c_sha256 :: "byte list"
  c_object_key :: string
  c_encoded_size :: int
  c_policy_version :: int
  c_image_format :: string
  c_width :: int
  c_height :: int
  c_registered_at :: time

record tombstone_row =
  t_object_key :: string
  t_upload_id :: string
  t_candidate_sha256 :: "byte list option"
  t_created_at :: time
  t_delete_not_before :: time
  t_next_attempt_at :: time
  t_reservation_token :: "string option"
  t_reservation_expires_at :: "time option"
  t_failure_streak :: int
  t_last_attempt_at :: "time option"
  t_last_result :: "string option"

record db =
  uploads :: "upload_row list"
  candidates :: "candidate_row list"
  tombstones :: "tombstone_row list"

definition empty_db :: db where
  "empty_db = \<lparr>uploads = [], candidates = [], tombstones = []\<rparr>"

subsection \<open>Object keys\<close>

definition staging_key_of :: "string \<Rightarrow> string" where
  "staging_key_of uploadID = ''staging/'' @ uploadID"

definition candidate_key_of :: "string \<Rightarrow> byte list \<Rightarrow> string" where
  "candidate_key_of uploadID sha = ''media/'' @ uploadID @ ''/'' @ hex_EncodeToString sha"

lemma staging_not_candidate [simp]: "staging_key_of u \<noteq> candidate_key_of v s"
  and candidate_not_staging [simp]: "candidate_key_of v s \<noteq> staging_key_of u"
  by (simp_all add: staging_key_of_def candidate_key_of_def)

lemma staging_key_inj [simp]: "staging_key_of u = staging_key_of v \<longleftrightarrow> u = v"
  by (simp add: staging_key_of_def)

text \<open>Digests have one length, so the key of a candidate determines the upload and the digest.\<close>

lemma candidate_key_inj:
  assumes "length s = length t"
  shows "candidate_key_of u s = candidate_key_of v t \<longleftrightarrow> u = v \<and> s = t"
proof -
  have len: "length (hex_EncodeToString s) = length (hex_EncodeToString t)"
    using assms by simp
  have "candidate_key_of u s = candidate_key_of v t \<longleftrightarrow>
      (u @ ''/'') @ hex_EncodeToString s = (v @ ''/'') @ hex_EncodeToString t"
    by (simp add: candidate_key_of_def)
  also have "\<dots> \<longleftrightarrow> u = v \<and> s = t"
    using len by (auto simp: append_eq_append_conv hex_inj simp del: append_assoc)
  finally show ?thesis .
qed

subsection \<open>CHECK constraints\<close>

definition max_declared_size :: int where "max_declared_size = 10485760"

definition max_int4 :: int where "max_int4 = 2147483647"

text \<open>\<open>uploads_rejection_phase_check\<close> and \<open>uploads_rejection_reason_check\<close>.\<close>

definition rejection_phase_ok :: "upload_row \<Rightarrow> bool" where
  "rejection_phase_ok u =
     (case u_rejection_phase u of None \<Rightarrow> True
      | Some p \<Rightarrow> p \<in> {''staging_read'', ''decode_config'', ''decode'', ''candidate_verify''})"

definition rejection_reason_ok :: "upload_row \<Rightarrow> bool" where
  "rejection_reason_ok u =
     (case u_rejection_class u of None \<Rightarrow> True
      | Some cls \<Rightarrow>
          (case u_rejection_reason u of None \<Rightarrow> False
           | Some r \<Rightarrow>
               (cls = ''invalid_input'' \<and>
                r \<in> {''object_too_large'', ''dimensions_limit_exceeded'', ''pixel_limit_exceeded'',
                     ''declared_size_mismatch'', ''invalid_image_encoding'',
                     ''declared_content_type_mismatch'', ''malformed_image''})
             \<or> (cls = ''internal_invariant'' \<and>
                r \<in> {''decoder_invariant_mismatch'', ''candidate_integrity_mismatch''})))"

text \<open>\<open>uploads_reconcile_failure_check\<close>.\<close>

definition reconcile_failure_ok :: "upload_row \<Rightarrow> bool" where
  "reconcile_failure_ok u =
     ((u_failure_streak u = 0 \<and> u_last_failure_class u = None \<and> u_last_failure_at u = None) \<or>
      (u_failure_streak u > 0 \<and>
       (case u_last_failure_class u of None \<Rightarrow> False
        | Some c \<Rightarrow> c \<in> {''transient'', ''ambiguous'', ''auth'', ''configuration'', ''other_deterministic''}) \<and>
       u_last_failure_at u \<noteq> None))"

definition no_rejection :: "upload_row \<Rightarrow> bool" where
  "no_rejection u =
     (u_rejection_class u = None \<and> u_rejection_reason u = None \<and>
      u_rejection_policy_version u = None \<and> u_rejection_phase u = None \<and>
      u_rejection_evidence u = None)"

text \<open>\<open>uploads_state_shape_check\<close>: which columns a row of each state may carry.\<close>

definition state_shape_ok :: "upload_row \<Rightarrow> bool" where
  "state_shape_ok u =
     (case u_state u of
        Pending \<Rightarrow>
          u_completion_requested_at u = None \<and> u_reconcile_after u = None \<and>
          u_failure_streak u = 0 \<and> u_claim_token u = None \<and> u_terminal_at u = None \<and>
          u_final_key u = None \<and> no_rejection u \<and> u_expiry_reason u = None
      | Finalizing \<Rightarrow>
          u_completion_requested_at u \<noteq> None \<and> u_reconcile_after u \<noteq> None \<and>
          u_terminal_at u = None \<and> u_final_key u = None \<and> no_rejection u \<and> u_expiry_reason u = None
      | Ready \<Rightarrow>
          u_completion_requested_at u \<noteq> None \<and> u_reconcile_after u = None \<and>
          u_claim_token u = None \<and> u_terminal_at u \<noteq> None \<and> u_final_key u \<noteq> None \<and>
          no_rejection u \<and> u_expiry_reason u = None
      | Rejected \<Rightarrow>
          u_completion_requested_at u \<noteq> None \<and> u_reconcile_after u = None \<and>
          u_claim_token u = None \<and> u_terminal_at u \<noteq> None \<and> u_final_key u = None \<and>
          u_rejection_class u \<noteq> None \<and> u_rejection_reason u \<noteq> None \<and>
          u_rejection_policy_version u = Some 1 \<and> u_rejection_phase u \<noteq> None \<and>
          (case u_rejection_evidence u of None \<Rightarrow> False | Some ev \<Rightarrow> ev \<noteq> []) \<and>
          u_expiry_reason u = None
      | Expired \<Rightarrow>
          u_reconcile_after u = None \<and> u_claim_token u = None \<and> u_terminal_at u \<noteq> None \<and>
          u_final_key u = None \<and> no_rejection u \<and>
          ((u_expiry_reason u = Some ''upload_deadline_elapsed'' \<and> u_completion_requested_at u = None) \<or>
           (u_expiry_reason u = Some ''staging_missing_after_write_window'' \<and>
            u_completion_requested_at u \<noteq> None \<and>
            (case u_terminal_at u of None \<Rightarrow> False
             | Some t \<Rightarrow> max (u_upload_deadline u) (u_max_write_expires_at u) \<le> t)))
      | OtherState _ \<Rightarrow> False)"

text \<open>Every other check of the table \<open>uploads\<close>; the last line is the range of \<^verbatim>\<open>integer\<close>.\<close>

definition upload_ok :: "upload_row \<Rightarrow> bool" where
  "upload_ok u =
     (u_staging_key u = staging_key_of (u_upload_id u) \<and>
      1 \<le> u_declared_size u \<and> u_declared_size u \<le> max_declared_size \<and>
      u_declared_content_type u \<in> {''image/jpeg'', ''image/png''} \<and>
      u_upload_deadline u = u_created_at u + 24 * hour \<and>
      u_created_at u < u_max_write_expires_at u \<and>
      u_max_write_expires_at u \<le> u_upload_deadline u + 15 * minute \<and>
      (case u_completion_requested_at u of None \<Rightarrow> True | Some t \<Rightarrow> t < u_upload_deadline u) \<and>
      reconcile_failure_ok u \<and>
      (u_claim_token u = None) = (u_claim_expires_at u = None) \<and>
      (u_claim_token u = None \<or> u_state u = Finalizing) \<and>
      (u_final_key u \<noteq> None) = (u_state u = Ready) \<and>
      rejection_phase_ok u \<and> rejection_reason_ok u \<and> state_shape_ok u \<and>
      u_failure_streak u \<le> max_int4)"

definition candidate_ok :: "candidate_row \<Rightarrow> bool" where
  "candidate_ok c =
     (length (c_sha256 c) = 32 \<and>
      c_object_key c = candidate_key_of (c_upload_id c) (c_sha256 c) \<and>
      1 \<le> c_encoded_size c \<and> c_encoded_size c \<le> max_declared_size \<and>
      c_policy_version c = 1 \<and> c_image_format c \<in> {''jpeg'', ''png''} \<and>
      1 \<le> c_width c \<and> c_width c \<le> 8192 \<and> 1 \<le> c_height c \<and> c_height c \<le> 8192 \<and>
      c_width c * c_height c \<le> 8388608)"

definition tombstone_ok :: "tombstone_row \<Rightarrow> bool" where
  "tombstone_ok t =
     ((case t_candidate_sha256 t of
         None \<Rightarrow> t_object_key t = staging_key_of (t_upload_id t)
       | Some sha \<Rightarrow> length sha = 32 \<and> t_object_key t = candidate_key_of (t_upload_id t) sha) \<and>
      t_delete_not_before t \<le> t_next_attempt_at t \<and>
      (t_reservation_token t = None) = (t_reservation_expires_at t = None) \<and>
      (t_last_attempt_at t = None) = (t_last_result t = None) \<and>
      (case t_last_result t of
         None \<Rightarrow> t_failure_streak t = 0
       | Some r \<Rightarrow>
           (r \<in> {''delete_succeeded'', ''confirmed_absent''} \<and> t_failure_streak t = 0) \<or>
           (r \<in> {''transient_error'', ''ambiguous_error'', ''auth_error'', ''configuration_error'',
                 ''other_deterministic_error''} \<and> t_failure_streak t > 0)) \<and>
      t_failure_streak t \<le> max_int4)"

subsection \<open>Inserts and updates\<close>

abbreviation "check_violation \<equiv> pg_error ''23514''"
abbreviation "unique_violation \<equiv> pg_error ''23505''"
abbreviation "foreign_key_violation \<equiv> pg_error ''23503''"

text \<open>\<^verbatim>\<open>INSERT INTO uploads ... ON CONFLICT (idempotency_key) DO NOTHING\<close>: the number of rows.\<close>

definition insert_upload :: "upload_row \<Rightarrow> db \<Rightarrow> go_error + nat \<times> db" where
  "insert_upload u d =
     (if \<not> upload_ok u then Inl check_violation
      else if u_idempotency_key u \<in> set (map u_idempotency_key (uploads d)) then Inr (0, d)
      else if u_upload_id u \<in> set (map u_upload_id (uploads d)) then Inl unique_violation
      else Inr (1, d\<lparr>uploads := uploads d @ [u]\<rparr>))"

text \<open>\<^verbatim>\<open>INSERT INTO upload_candidates ... ON CONFLICT (upload_id, sha256) DO NOTHING\<close>.\<close>

definition insert_candidate :: "candidate_row \<Rightarrow> db \<Rightarrow> go_error + nat \<times> db" where
  "insert_candidate c d =
     (if \<not> candidate_ok c then Inl check_violation
      else if (c_upload_id c, c_sha256 c) \<in> set (map (\<lambda>r. (c_upload_id r, c_sha256 r)) (candidates d))
      then Inr (0, d)
      else if (c_upload_id c, c_object_key c) \<in> set (map (\<lambda>r. (c_upload_id r, c_object_key r)) (candidates d))
      then Inl unique_violation
      else if c_upload_id c \<notin> set (map u_upload_id (uploads d)) then Inl foreign_key_violation
      else Inr (1, d\<lparr>candidates := candidates d @ [c]\<rparr>))"

text \<open>\<^verbatim>\<open>INSERT INTO cleanup_tombstones ... ON CONFLICT (object_key) DO NOTHING\<close>.\<close>

definition insert_tombstone :: "tombstone_row \<Rightarrow> db \<Rightarrow> go_error + nat \<times> db" where
  "insert_tombstone t d =
     (if \<not> tombstone_ok t then Inl check_violation
      else if t_object_key t \<in> set (map t_object_key (tombstones d)) then Inr (0, d)
      else if t_upload_id t \<notin> set (map u_upload_id (uploads d)) then Inl foreign_key_violation
      else if (case t_candidate_sha256 t of None \<Rightarrow> False
               | Some sha \<Rightarrow> (t_upload_id t, sha) \<notin> set (map (\<lambda>r. (c_upload_id r, c_sha256 r)) (candidates d)))
      then Inl foreign_key_violation
      else Inr (1, d\<lparr>tombstones := tombstones d @ [t]\<rparr>))"

text \<open>
  \<^verbatim>\<open>UPDATE uploads SET f WHERE p\<close>: the number of rows changed.  A changed row that breaks a check,
  or a final key with no candidate behind it, fails the statement.
\<close>

definition update_uploads ::
  "(upload_row \<Rightarrow> bool) \<Rightarrow> (upload_row \<Rightarrow> upload_row) \<Rightarrow> db \<Rightarrow> go_error + nat \<times> db" where
  "update_uploads p f d =
     (let hit = filter p (uploads d)
      in if \<not> list_all (\<lambda>u. upload_ok (f u)) hit then Inl check_violation
         else if \<not> list_all (\<lambda>u. case u_final_key (f u) of None \<Rightarrow> True
               | Some k \<Rightarrow> list_ex (\<lambda>c. c_upload_id c = u_upload_id u \<and> c_object_key c = k) (candidates d)) hit
         then Inl foreign_key_violation
         else Inr (length hit, d\<lparr>uploads := map (\<lambda>u. if p u then f u else u) (uploads d)\<rparr>))"

definition update_tombstones ::
  "(tombstone_row \<Rightarrow> bool) \<Rightarrow> (tombstone_row \<Rightarrow> tombstone_row) \<Rightarrow> db \<Rightarrow> go_error + nat \<times> db" where
  "update_tombstones p f d =
     (let hit = filter p (tombstones d)
      in if \<not> list_all (\<lambda>t. tombstone_ok (f t)) hit then Inl check_violation
         else Inr (length hit, d\<lparr>tombstones := map (\<lambda>t. if p t then f t else t) (tombstones d)\<rparr>))"

subsection \<open>Facts about the statements\<close>

lemma insert_upload_Inr:
  assumes "insert_upload u d = Inr (n, d')"
  shows "n = 0 \<and> d' = d \<and> u_idempotency_key u \<in> u_idempotency_key ` set (uploads d) \<or>
    n = 1 \<and> d' = d\<lparr>uploads := uploads d @ [u]\<rparr> \<and> upload_ok u \<and>
      u_idempotency_key u \<notin> u_idempotency_key ` set (uploads d) \<and>
      u_upload_id u \<notin> u_upload_id ` set (uploads d)"
  using assms by (auto simp: insert_upload_def split: if_splits)

lemma insert_candidate_Inr:
  assumes "insert_candidate c d = Inr (n, d')"
  shows "candidate_ok c \<and>
    (n = 0 \<and> d' = d \<and> (\<exists>r\<in>set (candidates d). c_upload_id r = c_upload_id c \<and> c_sha256 r = c_sha256 c) \<or>
     n = 1 \<and> d' = d\<lparr>candidates := candidates d @ [c]\<rparr> \<and> c_upload_id c \<in> u_upload_id ` set (uploads d) \<and>
     (\<forall>r\<in>set (candidates d). (c_upload_id r, c_sha256 r) \<noteq> (c_upload_id c, c_sha256 c)))"
  using assms by (auto simp: insert_candidate_def image_iff split: if_splits)

lemma insert_tombstone_Inr:
  assumes "insert_tombstone t d = Inr (n, d')"
  shows "tombstone_ok t \<and>
    (n = 0 \<and> d' = d \<and> t_object_key t \<in> t_object_key ` set (tombstones d) \<or>
     n = 1 \<and> d' = d\<lparr>tombstones := tombstones d @ [t]\<rparr> \<and>
     t_object_key t \<notin> t_object_key ` set (tombstones d) \<and>
     t_upload_id t \<in> u_upload_id ` set (uploads d) \<and>
     (\<forall>sha. t_candidate_sha256 t = Some sha \<longrightarrow>
        (\<exists>c\<in>set (candidates d). c_upload_id c = t_upload_id t \<and> c_sha256 c = sha)))"
  using assms by (auto simp: insert_tombstone_def image_iff split: if_splits option.splits)

lemma update_uploads_Inr:
  assumes "update_uploads p f d = Inr (n, d')"
  shows "n = length (filter p (uploads d))"
    and "d' = d\<lparr>uploads := map (\<lambda>u. if p u then f u else u) (uploads d)\<rparr>"
    and "\<And>u. u \<in> set (uploads d) \<Longrightarrow> p u \<Longrightarrow> upload_ok (f u)"
    and "\<And>u k. u \<in> set (uploads d) \<Longrightarrow> p u \<Longrightarrow> u_final_key (f u) = Some k
      \<Longrightarrow> \<exists>c\<in>set (candidates d). c_upload_id c = u_upload_id u \<and> c_object_key c = k"
  using assms
  by (auto simp: update_uploads_def Let_def list_all_iff list_ex_iff split: if_splits option.splits)

lemma update_tombstones_Inr:
  assumes "update_tombstones p f d = Inr (n, d')"
  shows "n = length (filter p (tombstones d))"
    and "d' = d\<lparr>tombstones := map (\<lambda>t. if p t then f t else t) (tombstones d)\<rparr>"
    and "\<And>t. t \<in> set (tombstones d) \<Longrightarrow> p t \<Longrightarrow> tombstone_ok (f t)"
  using assms by (auto simp: update_tombstones_def Let_def list_all_iff split: if_splits)

end
