(* ===== verification/Golang.thy ===== *)
theory Golang
  imports Prelude
begin

section \<open>Functions of Go's standard library\<close>

text \<open>
  The parts of \<^verbatim>\<open>strings\<close>, \<^verbatim>\<open>strconv\<close>, \<^verbatim>\<open>net/url\<close> and \<^verbatim>\<open>time\<close> that the source calls on the
  request path, for strings of ASCII characters: case folding, substring search, trimming, decimal
  numbers, the fields of a parsed URL, and \<^verbatim>\<open>time.Parse\<close> with the layout \<^verbatim>\<open>20060102T150405Z\<close>.
\<close>

subsection \<open>Strings\<close>

definition lower_char :: "char \<Rightarrow> char" where
  "lower_char c = (if CHR ''A'' \<le> c \<and> c \<le> CHR ''Z'' then char_of (of_char c + (32::nat)) else c)"

definition strings_ToLower :: "string \<Rightarrow> string" where
  "strings_ToLower s = map lower_char s"

definition strings_EqualFold :: "string \<Rightarrow> string \<Rightarrow> bool" where
  "strings_EqualFold s t = (strings_ToLower s = strings_ToLower t)"

fun strings_Contains :: "string \<Rightarrow> string \<Rightarrow> bool" where
  "strings_Contains s sub = (HasPrefix s sub \<or> (case s of [] \<Rightarrow> False | _ # s' \<Rightarrow> strings_Contains s' sub))"

lemma HasPrefix_single: "HasPrefix s [c] \<longleftrightarrow> (\<exists>r. s = c # r)"
  by (auto simp: HasPrefix_iff)

lemma Contains_single: "strings_Contains s [c] \<longleftrightarrow> c \<in> set s"
proof (induction s)
  case (Cons x s)
  then show ?case by (subst strings_Contains.simps) (auto simp: HasPrefix_single)
qed (simp add: HasPrefix_def)

declare strings_Contains.simps [simp del]

subsection \<open>Decimal numbers\<close>

definition digit_value :: "char \<Rightarrow> int option" where
  "digit_value c = (if CHR ''0'' \<le> c \<and> c \<le> CHR ''9'' then Some (of_char c - 48) else None)"

fun digits_value :: "string \<Rightarrow> int \<Rightarrow> int option" where
  "digits_value [] acc = Some acc"
| "digits_value (c # s) acc =
     (case digit_value c of None \<Rightarrow> None | Some d \<Rightarrow> digits_value s (10 * acc + d))"

text \<open>\<^verbatim>\<open>strconv.ParseUint(s, 10, bits)\<close> and \<^verbatim>\<open>strconv.ParseInt(s, 10, 64)\<close> on an unsigned numeral.\<close>

definition ParseUint :: "nat \<Rightarrow> string \<Rightarrow> int option" where
  "ParseUint bits s =
     (if s = [] then None
      else case digits_value s 0 of None \<Rightarrow> None
      | Some n \<Rightarrow> if n < 2 ^ bits then Some n else None)"

definition ParseInt64 :: "string \<Rightarrow> int option" where
  "ParseInt64 s =
     (case s of
        [] \<Rightarrow> None
      | c # digits \<Rightarrow>
          if c = CHR ''-'' then
            (case ParseUint 64 digits of None \<Rightarrow> None
             | Some n \<Rightarrow> if n \<le> 2 ^ 63 then Some (- n) else None)
          else
            (case ParseUint 64 (if c = CHR ''+'' then digits else s) of None \<Rightarrow> None
             | Some n \<Rightarrow> if n < 2 ^ 63 then Some n else None))"

subsection \<open>Instants\<close>

definition leap_year :: "int \<Rightarrow> bool" where
  "leap_year y = (y mod 4 = 0 \<and> (y mod 100 \<noteq> 0 \<or> y mod 400 = 0))"

definition days_in_month :: "int \<Rightarrow> int \<Rightarrow> int" where
  "days_in_month y m =
     (if m = 2 then (if leap_year y then 29 else 28)
      else if m \<in> {4, 6, 9, 11} then 30 else 31)"

text \<open>Days from 1 January of the year 0 (proleptic Gregorian) to the first of the year \<open>y\<close>.\<close>

definition days_before_year :: "int \<Rightarrow> int" where
  "days_before_year y =
     (if y = 0 then 0 else 366 + 365 * (y - 1) + (y - 1) div 4 - (y - 1) div 100 + (y - 1) div 400)"

definition unix_time :: "int \<Rightarrow> int \<Rightarrow> int \<Rightarrow> int \<Rightarrow> int \<Rightarrow> int \<Rightarrow> time" where
  "unix_time y mo d h mi s =
     (let days = days_before_year y - days_before_year 1970 +
            sum_list (map (days_in_month y) [1..mo - 1]) + d - 1
      in (days * 86400 + h * 3600 + mi * 60 + s) * second)"

text \<open>
  \<^verbatim>\<open>time.Parse("20060102T150405Z", s)\<close>: fixed-width fields, each in its range.  As Go does, a
  fraction of a second after the seconds is accepted and kept to nanoseconds.
\<close>

definition fraction_value :: "string \<Rightarrow> int option" where
  "fraction_value r =
     (if r = ''Z'' then Some 0
      else case r of
        [] \<Rightarrow> None
      | c # ds \<Rightarrow>
          (let digits = takeWhile (\<lambda>x. digit_value x \<noteq> None) ds; kept = take 9 digits
           in if (c = CHR ''.'' \<or> c = CHR '','') \<and> digits \<noteq> [] \<and> drop (length digits) ds = ''Z''
              then map_option (\<lambda>n. n * 10 ^ (9 - length kept)) (digits_value kept 0)
              else None))"

definition parse_amz_date :: "string \<Rightarrow> time option" where
  "parse_amz_date s =
     (if 15 < length s \<and> s ! 8 = CHR ''T'' then
        (case (digits_value (take 4 s) 0, digits_value (take 2 (drop 4 s)) 0,
               digits_value (take 2 (drop 6 s)) 0, digits_value (take 2 (drop 9 s)) 0,
               digits_value (take 2 (drop 11 s)) 0, digits_value (take 2 (drop 13 s)) 0,
               fraction_value (drop 15 s)) of
           (Some y, Some mo, Some d, Some h, Some mi, Some sec, Some ns) \<Rightarrow>
             (if 1 \<le> mo \<and> mo \<le> 12 \<and> 1 \<le> d \<and> d \<le> days_in_month y mo \<and> h < 24 \<and> mi < 60 \<and> sec < 60
              then Some (unix_time y mo d h mi sec + ns) else None)
         | _ \<Rightarrow> None)
      else None)"

subsection \<open>URLs\<close>

text \<open>What the source reads of a URL that \<^verbatim>\<open>url.Parse\<close> accepted; the query as decoded name and value pairs
  in the order of the names' first appearance, one entry for each name.\<close>

record parsed_url =
  pu_Scheme :: string
  pu_User :: bool
  pu_Host :: string
  pu_Path :: string
  pu_RawPath :: string
  pu_ForceQuery :: bool
  pu_RawQuery :: string
  pu_Fragment :: string
  pu_Query :: "(string \<times> string list) list"

definition query_values :: "parsed_url \<Rightarrow> string \<Rightarrow> string list" where
  "query_values u name = (case map_of (pu_Query u) name of None \<Rightarrow> [] | Some vs \<Rightarrow> vs)"

definition IsAbs :: "parsed_url \<Rightarrow> bool" where
  "IsAbs u = (pu_Scheme u \<noteq> '''')"

text \<open>\<^verbatim>\<open>http.Header.Values\<close>.\<close>

definition header_values :: "(string \<times> string list) list \<Rightarrow> string \<Rightarrow> string list" where
  "header_values h name = (case map_of h name of None \<Rightarrow> [] | Some vs \<Rightarrow> vs)"

end
