(* ===== verification/Runtime.thy ===== *)
theory Runtime
  imports Schema Golang
begin

section \<open>The environment, the world and database transactions\<close>

text \<open>
  What \<^verbatim>\<open>internal/app\<close> does to the world, as programs of the state monad.  Everything outside the
  source is an answer of an environment: the PostgreSQL server's clock and faults, what other
  sessions committed meanwhile, S3's responses, the presigner, the entropy source, the wall clock
  and the image decoders.  The answers are functions of the index of the call, so a
  theorem about every environment covers every sequence of answers.

  A transaction works on a copy of the database.  Other sessions may commit before it begins; from
  then on its statements see that state and its own changes, and its commit publishes them at once.
  That is an assumption about PostgreSQL, whose row locks are not modelled: every transaction of the source
  locks its parent row (or inserts it) in its first statement and writes only rows of that upload.  A commit has three outcomes: it is acknowledged, it fails
  without effect, or it takes effect while the client sees an error.
\<close>

subsection \<open>The environment\<close>

datatype commit_outcome = CommitOk | CommitLost go_error | CommitHidden go_error

text \<open>\<^verbatim>\<open>GetObject\<close>: an error, no body, or the length header, the bytes of the body, the error that ends
  it (if any) and the error of closing it (if any).\<close>

datatype get_response =
    GetErr go_error
  | GetNoBody
  | GetObject "int option" "byte list" "go_error option" "go_error option"

record uploadRequest =
  rq_Method :: string
  rq_URL :: string
  rq_Headers :: "(string \<times> string) list"
  rq_ExpiresAt :: time

record signed_request =
  sg_Method :: string
  sg_URL :: string
  sg_SignedHeader :: "(string \<times> string list) list"

record environment =
  env_clock :: "nat \<Rightarrow> time"
  env_wall :: "nat \<Rightarrow> time"
  env_peers :: "nat \<Rightarrow> db \<Rightarrow> db"
  env_locked :: "nat \<Rightarrow> string \<Rightarrow> bool"
  env_begin :: "nat \<Rightarrow> go_error option"
  env_stmt :: "nat \<Rightarrow> go_error option"
  env_commit :: "nat \<Rightarrow> commit_outcome"
  env_rollback :: "nat \<Rightarrow> go_error option"
  env_rand :: "nat \<Rightarrow> go_error + (nat \<Rightarrow> byte)"
  env_cancelled :: "nat \<Rightarrow> bool"
  env_get :: "nat \<Rightarrow> string \<Rightarrow> get_response"
  env_put :: "nat \<Rightarrow> string \<Rightarrow> byte list \<Rightarrow> string \<Rightarrow> go_error option"
  env_delete :: "nat \<Rightarrow> string \<Rightarrow> go_error option"
  env_presign_put :: "nat \<Rightarrow> string \<Rightarrow> string \<Rightarrow> go_error + signed_request option"
  env_presign_get :: "nat \<Rightarrow> string \<Rightarrow> go_error + signed_request option"
  env_ping :: "nat \<Rightarrow> go_error option"
  env_head :: "nat \<Rightarrow> go_error option"
  env_url_Parse :: "string \<Rightarrow> parsed_url option"
  env_DecodeConfig :: "byte list \<Rightarrow> go_error + string \<times> int \<times> int"
  env_Decode :: "byte list \<Rightarrow> go_error + string \<times> int \<times> int"

subsection \<open>The world\<close>

record objectSnapshot =
  os_Bytes :: "byte list option"
  os_ContentLength :: int

datatype s3_event =
    S3Get string "go_error + objectSnapshot"
  | S3Put string "byte list" string "go_error option"
  | S3Delete string "go_error option"

datatype attribute = AStr string | AInt int | ABool bool | ATime time

type_synonym log_event = "string \<times> (string \<times> attribute) list"

record world =
  w_db :: db
  tick :: nat
  tx_open :: bool
  s3_in_tx :: bool
  s3_events :: "s3_event list"
  logged :: "log_event list"
  counters :: "string \<times> string \<rightharpoonup> int"
  panicked :: bool

definition modify :: "(world \<Rightarrow> world) \<Rightarrow> (world, unit) state" where
  "modify f = State (\<lambda>w. ((), f w))"

definition next_tick :: "(world, nat) state" where
  "next_tick = State (\<lambda>w. (tick w, w\<lparr>tick := Suc (tick w)\<rparr>))"

definition current_db :: "(world, db) state" where
  "current_db = State (\<lambda>w. (w_db w, w))"

definition log_info :: "string \<Rightarrow> (string \<times> attribute) list \<Rightarrow> (world, unit) state" where
  "log_info name attrs = modify (\<lambda>w. w\<lparr>logged := logged w @ [(name, attrs)]\<rparr>)"

text \<open>\<^verbatim>\<open>serviceMetrics.Get(m).(*expvar.Map).Get(k).(*expvar.Int)\<close>: an unregistered name is a nil
  interface, whose type assertion panics.\<close>

definition metric_update :: "string \<Rightarrow> string \<Rightarrow> (int \<Rightarrow> int) \<Rightarrow> (world, unit) state" where
  "metric_update m k f = modify (\<lambda>w.
     case counters w (m, k) of
       None \<Rightarrow> w\<lparr>panicked := True\<rparr>
     | Some n \<Rightarrow> w\<lparr>counters := (counters w)((m, k) \<mapsto> f n)\<rparr>)"

definition metric_add :: "string \<Rightarrow> string \<Rightarrow> (world, unit) state" where
  "metric_add m k = metric_update m k (\<lambda>n. n + 1)"

definition ctx_Err :: "environment \<Rightarrow> (world, bool) state" where
  "ctx_Err E = do { k \<leftarrow> next_tick; State_Monad.return (env_cancelled E k) }"

definition time_Now :: "environment \<Rightarrow> (world, time) state" where
  "time_Now E = do { k \<leftarrow> next_tick; State_Monad.return (env_wall E k) }"

subsection \<open>Statements and transactions\<close>

definition run_peers :: "environment \<Rightarrow> nat \<Rightarrow> (world, unit) state" where
  "run_peers E k = modify (\<lambda>w. w\<lparr>w_db := env_peers E k (w_db w)\<rparr>)"

definition set_tx_open :: "bool \<Rightarrow> (world, unit) state" where
  "set_tx_open b = modify (\<lambda>w. w\<lparr>tx_open := b\<rparr>)"

text \<open>A statement on a transaction's copy: it may fail for a reason outside the statement (a lost
  connection, a lock or statement timeout); otherwise it runs at one reading of the server's clock.\<close>

definition exec_sql ::
  "environment \<Rightarrow> (time \<Rightarrow> db \<Rightarrow> go_error + 'a \<times> db) \<Rightarrow> db \<Rightarrow> (world, go_error + 'a \<times> db) state" where
  "exec_sql E f t = do {
     k \<leftarrow> next_tick;
     State_Monad.return (case env_stmt E k of
       Some err \<Rightarrow> Inl err
     | None \<Rightarrow> f (timestamptz (env_clock E k)) t) }"

definition query_sql ::
  "environment \<Rightarrow> (nat \<Rightarrow> time \<Rightarrow> db \<Rightarrow> go_error + 'a) \<Rightarrow> db \<Rightarrow> (world, go_error + 'a) state" where
  "query_sql E f t = do {
     k \<leftarrow> next_tick;
     State_Monad.return (case env_stmt E k of
       Some err \<Rightarrow> Inl err
     | None \<Rightarrow> f k (timestamptz (env_clock E k)) t) }"

text \<open>A reading of the server's clock, and \<^verbatim>\<open>SELECT clock_timestamp()\<close> inside a transaction.\<close>

definition server_clock :: "environment \<Rightarrow> nat \<Rightarrow> time" where
  "server_clock E k = timestamptz (env_clock E k)"

definition select_clock :: "environment \<Rightarrow> db \<Rightarrow> (world, go_error + time) state" where
  "select_clock E = query_sql E (\<lambda>_ now _. Inr now)"

text \<open>\<^verbatim>\<open>pool.QueryRow\<close> outside a transaction.\<close>

definition pool_query ::
  "environment \<Rightarrow> (time \<Rightarrow> db \<Rightarrow> go_error + 'a) \<Rightarrow> (world, go_error + 'a) state" where
  "pool_query E f = do {
     k \<leftarrow> next_tick;
     run_peers E k;
     d \<leftarrow> current_db;
     State_Monad.return (case env_stmt E k of
       Some err \<Rightarrow> Inl err
     | None \<Rightarrow> f (timestamptz (env_clock E k)) d) }"

text \<open>The same for a statement that calls the volatile \<^verbatim>\<open>clock_timestamp()\<close> several times and for every row: \<open>f\<close> gets
  a clock and says how often it has read it.\<close>

definition pool_query_clocked ::
  "environment \<Rightarrow> ((nat \<Rightarrow> time) \<Rightarrow> db \<Rightarrow> nat \<times> (go_error + 'a)) \<Rightarrow> (world, go_error + 'a) state" where
  "pool_query_clocked E f = do {
     k \<leftarrow> next_tick;
     run_peers E k;
     d \<leftarrow> current_db;
     let (readings, row) = f (\<lambda>i. server_clock E (k + i)) d;
     modify (\<lambda>w. w\<lparr>tick := tick w + readings\<rparr>);
     State_Monad.return (case env_stmt E k of Some err \<Rightarrow> Inl err | None \<Rightarrow> row) }"

text \<open>\<^verbatim>\<open>BeginTx\<close> and the two \<^verbatim>\<open>SET LOCAL\<close> statements; a failed \<^verbatim>\<open>SET\<close> rolls back.\<close>

definition set_local :: "environment \<Rightarrow> (world, go_error option) state" where
  "set_local E = do {
     k \<leftarrow> next_tick;
     case env_stmt E k of
       Some err \<Rightarrow> do { set_tx_open False; State_Monad.return (Some err) }
     | None \<Rightarrow> State_Monad.return None }"

definition beginUploadTransaction :: "environment \<Rightarrow> (world, go_error + db) state" where
  "beginUploadTransaction E = do {
     k \<leftarrow> next_tick;
     run_peers E k;
     case env_begin E k of
       Some err \<Rightarrow> State_Monad.return (Inl err)
     | None \<Rightarrow> do {
         set_tx_open True;
         lockTimeout \<leftarrow> set_local E;
         case lockTimeout of
           Some err \<Rightarrow> State_Monad.return (Inl err)
         | None \<Rightarrow> do {
             statementTimeout \<leftarrow> set_local E;
             case statementTimeout of
               Some err \<Rightarrow> State_Monad.return (Inl err)
             | None \<Rightarrow> do { d \<leftarrow> current_db; State_Monad.return (Inr d) } } } }"

definition commit_tx :: "environment \<Rightarrow> db \<Rightarrow> (world, go_error option) state" where
  "commit_tx E t = do {
     k \<leftarrow> next_tick;
     set_tx_open False;
     case env_commit E k of
       CommitOk \<Rightarrow> do { modify (\<lambda>w. w\<lparr>w_db := t\<rparr>); State_Monad.return None }
     | CommitLost err \<Rightarrow> State_Monad.return (Some err)
     | CommitHidden err \<Rightarrow> do { modify (\<lambda>w. w\<lparr>w_db := t\<rparr>); State_Monad.return (Some err) } }"

text \<open>A rollback whose error the code reads.\<close>

definition rollback_tx :: "environment \<Rightarrow> (world, go_error option) state" where
  "rollback_tx E = do {
     k \<leftarrow> next_tick;
     set_tx_open False;
     State_Monad.return (env_rollback E k) }"

text \<open>\<^verbatim>\<open>defer func() { _ = tx.Rollback(...); cancel() }()\<close> around a function's body.\<close>

definition deferring_rollback :: "(world, 'a) state \<Rightarrow> (world, 'a) state" where
  "deferring_rollback body = do { r \<leftarrow> body; set_tx_open False; State_Monad.return r }"

subsection \<open>Retrying a whole transaction\<close>

text \<open>
  \<^verbatim>\<open>retryUploadTransaction\<close>: the closure \<open>apply\<close> sees the variables it captures (\<open>v\<close>), returns
  their new values and either an error or whether to commit and the transaction's copy.  The result
  is (captured variables, committed, outcome unknown, error).
\<close>

definition databaseTxAttempts :: nat where "databaseTxAttempts = 2"

fun retry_attempts ::
  "environment \<Rightarrow> ('v \<Rightarrow> db \<Rightarrow> (world, 'v \<times> (go_error + bool \<times> db)) state) \<Rightarrow> nat \<Rightarrow> 'v
     \<Rightarrow> (world, 'v \<times> bool \<times> bool \<times> go_error option) state" where
  "retry_attempts E apply_tx 0 v =
     State_Monad.return (v, False, False,
       Some (errors_New (ErrText ''database transaction retry exhausted'')))"
| "retry_attempts E apply_tx (Suc n) v = do {
     began \<leftarrow> beginUploadTransaction E;
     case began of
       Inl err \<Rightarrow>
         (if retryableTransactionError err \<and> 0 < n then retry_attempts E apply_tx n v
          else State_Monad.return (v, False, False, Some err))
     | Inr t0 \<Rightarrow> do {
         (v', applied) \<leftarrow> apply_tx v t0;
         case applied of
           Inl err \<Rightarrow> do {
             set_tx_open False;
             (if retryableTransactionError err \<and> 0 < n then retry_attempts E apply_tx n v'
              else State_Monad.return (v', False, False, Some err)) }
         | Inr (commit, t) \<Rightarrow>
             (if \<not> commit then do {
                set_tx_open False;
                State_Monad.return (v', False, False, None) }
              else do {
                committed \<leftarrow> commit_tx E t;
                case committed of
                  None \<Rightarrow> State_Monad.return (v', True, False, None)
                | Some err \<Rightarrow>
                    (if retryableTransactionError err \<and> 0 < n then retry_attempts E apply_tx n v'
                     else State_Monad.return (v', False, \<not> retryableTransactionError err, Some err)) }) } }"

definition retryUploadTransaction ::
  "environment \<Rightarrow> ('v \<Rightarrow> db \<Rightarrow> (world, 'v \<times> (go_error + bool \<times> db)) state) \<Rightarrow> 'v
     \<Rightarrow> (world, 'v \<times> bool \<times> bool \<times> go_error option) state" where
  "retryUploadTransaction E apply_tx v = retry_attempts E apply_tx databaseTxAttempts v"

text \<open>
  What one attempt may come to, and the policy in those terms: the attempt failed without a commit, its
  body asked for none, the commit was acknowledged, or it was answered with an error.  An attempt is
  repeated only after a serialization failure or a deadlock, which the server answers when it has rolled
  back; any other error of a commit leaves the outcome unknown.
\<close>

datatype attempt_end = Failed go_error | Declined | Committed db | Unconfirmed go_error db

definition attempt ::
  "environment \<Rightarrow> ('v \<Rightarrow> db \<Rightarrow> (world, 'v \<times> (go_error + bool \<times> db)) state) \<Rightarrow> 'v
     \<Rightarrow> (world, 'v \<times> attempt_end) state" where
  "attempt E apply_tx v = do {
     began \<leftarrow> beginUploadTransaction E;
     case began of
       Inl err \<Rightarrow> State_Monad.return (v, Failed err)
     | Inr t0 \<Rightarrow> do {
         (v', applied) \<leftarrow> apply_tx v t0;
         case applied of
           Inl err \<Rightarrow> do { set_tx_open False; State_Monad.return (v', Failed err) }
         | Inr (commit, t) \<Rightarrow>
             (if \<not> commit then do { set_tx_open False; State_Monad.return (v', Declined) }
              else do {
                committed \<leftarrow> commit_tx E t;
                State_Monad.return (v', case committed of None \<Rightarrow> Committed t | Some err \<Rightarrow> Unconfirmed err t) }) } }"

fun rolled_back :: "attempt_end \<Rightarrow> bool" where
  "rolled_back (Failed err) = retryableTransactionError err"
| "rolled_back (Unconfirmed err t) = retryableTransactionError err"
| "rolled_back _ = False"

fun attempt_error :: "attempt_end \<Rightarrow> go_error option" where
  "attempt_error (Failed err) = Some err"
| "attempt_error (Unconfirmed err t) = Some err"
| "attempt_error _ = None"

definition verdict :: "attempt_end \<Rightarrow> bool \<times> bool \<times> go_error option" where
  "verdict e =
     (\<exists>t. e = Committed t, \<exists>err t. e = Unconfirmed err t \<and> \<not> retryableTransactionError err, attempt_error e)"

subsection \<open>Fresh identifiers\<close>

definition set_version_bits :: "byte list \<Rightarrow> byte list" where
  "set_version_bits raw =
     (let raw = raw[6 := (raw ! 6 AND 0x0f) OR 0x40]
      in raw[8 := (raw ! 8 AND 0x3f) OR 0x80])"

definition uuid_text :: "byte list \<Rightarrow> string" where
  "uuid_text raw =
     (let encoded = hex_EncodeToString (set_version_bits raw)
      in take 8 encoded @ ''-'' @
         take 4 (drop 8 encoded) @ ''-'' @
         take 4 (drop 12 encoded) @ ''-'' @
         take 4 (drop 16 encoded) @ ''-'' @
         drop 20 encoded)"

definition newUploadUUID :: "environment \<Rightarrow> (world, go_error + string) state" where
  "newUploadUUID E = do {
     k \<leftarrow> next_tick;
     State_Monad.return (case env_rand E k of
       Inl err \<Rightarrow> Inl err
     | Inr f \<Rightarrow> Inr (uuid_text (map f [0..<16]))) }"

end
