(* ===== verification/Statements.thy ===== *)
theory Statements
  imports Runtime
begin

section \<open>The SQL statements of the service\<close>

text \<open>
  Every statement that \<^verbatim>\<open>postgres.go\<close>, \<^verbatim>\<open>reconcile.go\<close>, \<^verbatim>\<open>expiry.go\<close> and \<^verbatim>\<open>cleanup.go\<close> send, as
  a function on the tables: the arguments are the statement's parameters, a comparison with a null
  column is false, and an \<^verbatim>\<open>UPDATE\<close> returns the number of rows it changed.  An instant the Go
  code computed is rounded to a \<^verbatim>\<open>timestamptz\<close> where it becomes a parameter.
\<close>

subsection \<open>Reading uploads\<close>

definition find_upload_by_key :: "string \<Rightarrow> db \<Rightarrow> upload_row option" where
  "find_upload_by_key key d = find (\<lambda>u. u_idempotency_key u = key) (uploads d)"

definition find_upload_by_id :: "string \<Rightarrow> db \<Rightarrow> upload_row option" where
  "find_upload_by_id uid d = find (\<lambda>u. u_upload_id u = uid) (uploads d)"

text \<open>The row of the upload while a worker's claim holds (state and token, whatever the expiry).\<close>

definition find_claimed :: "string \<Rightarrow> string \<Rightarrow> db \<Rightarrow> upload_row option" where
  "find_claimed uid token d =
     find (\<lambda>u. u_upload_id u = uid \<and> u_state u = Finalizing \<and> u_claim_token u = Some token) (uploads d)"

definition after_now :: "time option \<Rightarrow> time \<Rightarrow> bool" where
  "after_now t now = (case t of None \<Rightarrow> False | Some x \<Rightarrow> now < x)"

definition by_now :: "time option \<Rightarrow> time \<Rightarrow> bool" where
  "by_now t now = (case t of None \<Rightarrow> False | Some x \<Rightarrow> x \<le> now)"

text \<open>The next due row of the finalizer; \<open>locked\<close> rows are skipped (\<^verbatim>\<open>SKIP LOCKED\<close>).\<close>

definition next_finalizing :: "(string \<Rightarrow> bool) \<Rightarrow> time \<Rightarrow> db \<Rightarrow> upload_row option" where
  "next_finalizing locked now d =
     first_by (\<lambda>u. (the (u_reconcile_after u), u_upload_id u))
       (\<lambda>u. u_state u = Finalizing \<and> by_now (u_reconcile_after u) now \<and>
            (u_claim_token u = None \<or> by_now (u_claim_expires_at u) now) \<and>
            \<not> locked (u_upload_id u))
       (uploads d)"

definition next_expired_pending :: "(string \<Rightarrow> bool) \<Rightarrow> time \<Rightarrow> db \<Rightarrow> upload_row option" where
  "next_expired_pending locked now d =
     first_by (\<lambda>u. (u_upload_deadline u, u_upload_id u))
       (\<lambda>u. u_state u = Pending \<and> u_upload_deadline u \<le> now \<and> \<not> locked (u_upload_id u))
       (uploads d)"

subsection \<open>Writing uploads\<close>

definition new_upload_row ::
  "string \<Rightarrow> string \<Rightarrow> string \<Rightarrow> int \<Rightarrow> string \<Rightarrow> time \<Rightarrow> time \<Rightarrow> upload_row" where
  "new_upload_row uid key stagingKey declaredSize ctype expiresAt now =
     \<lparr>u_upload_id = uid, u_idempotency_key = key, u_staging_key = stagingKey,
      u_declared_size = declaredSize, u_declared_content_type = ctype, u_state = Pending,
      u_created_at = now, u_upload_deadline = now + 24 * hour,
      u_max_write_expires_at = timestamptz expiresAt,
      u_completion_requested_at = None, u_reconcile_after = None, u_failure_streak = 0,
      u_last_failure_class = None, u_last_failure_at = None,
      u_claim_token = None, u_claim_expires_at = None, u_terminal_at = None, u_final_key = None,
      u_rejection_class = None, u_rejection_reason = None, u_rejection_policy_version = None,
      u_rejection_phase = None, u_rejection_evidence = None, u_expiry_reason = None\<rparr>"

definition sql_raise_horizon :: "string \<Rightarrow> time \<Rightarrow> db \<Rightarrow> go_error + nat \<times> db" where
  "sql_raise_horizon uid expiresAt =
     update_uploads (\<lambda>u. u_upload_id u = uid)
       (\<lambda>u. u\<lparr>u_max_write_expires_at := max (u_max_write_expires_at u) (timestamptz expiresAt)\<rparr>)"

definition sql_complete_pending :: "string \<Rightarrow> time \<Rightarrow> db \<Rightarrow> go_error + nat \<times> db" where
  "sql_complete_pending uid now =
     update_uploads (\<lambda>u. u_upload_id u = uid \<and> u_state u = Pending \<and> now < u_upload_deadline u)
       (\<lambda>u. u\<lparr>u_state := Finalizing, u_completion_requested_at := Some now,
              u_reconcile_after := Some now\<rparr>)"

definition sql_poke_finalizing :: "string \<Rightarrow> time \<Rightarrow> db \<Rightarrow> go_error + nat \<times> db" where
  "sql_poke_finalizing uid now =
     update_uploads (\<lambda>u. u_upload_id u = uid \<and> u_state u = Finalizing)
       (\<lambda>u. u\<lparr>u_reconcile_after := Some (case u_reconcile_after u of None \<Rightarrow> now | Some r \<Rightarrow> min r now)\<rparr>)"

definition sql_expire_pending :: "string \<Rightarrow> time \<Rightarrow> db \<Rightarrow> go_error + nat \<times> db" where
  "sql_expire_pending uid now =
     update_uploads (\<lambda>u. u_upload_id u = uid \<and> u_state u = Pending \<and> u_upload_deadline u \<le> now)
       (\<lambda>u. u\<lparr>u_state := Expired, u_terminal_at := Some now,
              u_expiry_reason := Some ''upload_deadline_elapsed''\<rparr>)"

definition sql_claim :: "string \<Rightarrow> string \<Rightarrow> time \<Rightarrow> db \<Rightarrow> go_error + nat \<times> db" where
  "sql_claim uid token expiresAt =
     update_uploads (\<lambda>u. u_upload_id u = uid \<and> u_state u = Finalizing)
       (\<lambda>u. u\<lparr>u_claim_token := Some token, u_claim_expires_at := Some (timestamptz expiresAt)\<rparr>)"

definition sql_renew :: "string \<Rightarrow> string \<Rightarrow> time \<Rightarrow> db \<Rightarrow> go_error + nat \<times> db" where
  "sql_renew uid token expiresAt =
     update_uploads (\<lambda>u. u_upload_id u = uid \<and> u_state u = Finalizing \<and> u_claim_token u = Some token)
       (\<lambda>u. u\<lparr>u_claim_expires_at := Some (timestamptz expiresAt)\<rparr>)"

text \<open>The columns every terminal transition out of \<^verbatim>\<open>finalizing\<close> resets.\<close>

definition settle :: "upload_state \<Rightarrow> time \<Rightarrow> upload_row \<Rightarrow> upload_row" where
  "settle s now u =
     u\<lparr>u_state := s, u_reconcile_after := None, u_claim_token := None, u_claim_expires_at := None,
       u_terminal_at := Some now\<rparr>"

definition sql_ready :: "string \<Rightarrow> string \<Rightarrow> time \<Rightarrow> string \<Rightarrow> db \<Rightarrow> go_error + nat \<times> db" where
  "sql_ready uid token now key =
     update_uploads (\<lambda>u. u_upload_id u = uid \<and> u_state u = Finalizing \<and> u_claim_token u = Some token \<and>
                         after_now (u_claim_expires_at u) now)
       (\<lambda>u. (settle Ready now u)\<lparr>u_final_key := Some key\<rparr>)"

definition sql_rejected ::
  "string \<Rightarrow> string \<Rightarrow> time \<Rightarrow> string \<Rightarrow> string \<Rightarrow> string \<Rightarrow> evidence \<Rightarrow> db \<Rightarrow> go_error + nat \<times> db" where
  "sql_rejected uid token now cls reason phase ev =
     update_uploads (\<lambda>u. u_upload_id u = uid \<and> u_state u = Finalizing \<and> u_claim_token u = Some token \<and>
                         after_now (u_claim_expires_at u) now)
       (\<lambda>u. (settle Rejected now u)\<lparr>u_rejection_class := Some cls, u_rejection_reason := Some reason,
              u_rejection_policy_version := Some 1, u_rejection_phase := Some phase,
              u_rejection_evidence := Some ev\<rparr>)"

definition sql_expire_missing ::
  "string \<Rightarrow> string \<Rightarrow> time \<Rightarrow> time \<Rightarrow> db \<Rightarrow> go_error + nat \<times> db" where
  "sql_expire_missing uid token now horizon =
     update_uploads (\<lambda>u. u_upload_id u = uid \<and> u_state u = Finalizing \<and> u_claim_token u = Some token \<and>
                         after_now (u_claim_expires_at u) now \<and> u_max_write_expires_at u = timestamptz horizon)
       (\<lambda>u. (settle Expired now u)\<lparr>u_expiry_reason := Some ''staging_missing_after_write_window''\<rparr>)"

definition sql_retry ::
  "string \<Rightarrow> string \<Rightarrow> time \<Rightarrow> int \<Rightarrow> string \<Rightarrow> time \<Rightarrow> db \<Rightarrow> go_error + nat \<times> db" where
  "sql_retry uid token nextAttempt streak errorClass now =
     update_uploads (\<lambda>u. u_upload_id u = uid \<and> u_state u = Finalizing \<and> u_claim_token u = Some token)
       (\<lambda>u. u\<lparr>u_reconcile_after := Some (timestamptz nextAttempt), u_failure_streak := streak,
              u_last_failure_class := Some errorClass, u_last_failure_at := Some now,
              u_claim_token := None, u_claim_expires_at := None\<rparr>)"

subsection \<open>Candidates\<close>

definition candidates_of :: "string \<Rightarrow> db \<Rightarrow> candidate_row list" where
  "candidates_of uid d = sort_key c_object_key (filter (\<lambda>c. c_upload_id c = uid) (candidates d))"

definition find_candidate :: "string \<Rightarrow> byte list \<Rightarrow> db \<Rightarrow> candidate_row option" where
  "find_candidate uid sha d = find (\<lambda>c. c_upload_id c = uid \<and> c_sha256 c = sha) (candidates d)"

text \<open>The candidate behind a final key (the \<^verbatim>\<open>LEFT JOIN\<close> of \<^verbatim>\<open>getUploadByID\<close>).\<close>

definition final_candidate :: "upload_row \<Rightarrow> db \<Rightarrow> candidate_row option" where
  "final_candidate u d =
     find (\<lambda>c. c_upload_id c = u_upload_id u \<and> u_final_key u = Some (c_object_key c)) (candidates d)"

subsection \<open>Tombstones\<close>

definition find_tombstone :: "string \<Rightarrow> db \<Rightarrow> tombstone_row option" where
  "find_tombstone key d = find (\<lambda>t. t_object_key t = key) (tombstones d)"

definition new_tombstone_row ::
  "string \<Rightarrow> string \<Rightarrow> byte list option \<Rightarrow> time \<Rightarrow> time \<Rightarrow> tombstone_row" where
  "new_tombstone_row key uid sha notBefore now =
     \<lparr>t_object_key = key, t_upload_id = uid, t_candidate_sha256 = sha, t_created_at = now,
      t_delete_not_before = notBefore, t_next_attempt_at = notBefore,
      t_reservation_token = None, t_reservation_expires_at = None, t_failure_streak = 0,
      t_last_attempt_at = None, t_last_result = None\<rparr>"

text \<open>\<^verbatim>\<open>EXISTS (SELECT 1 FROM uploads WHERE upload_id = ... AND final_key = object_key)\<close>.\<close>

definition is_final_key :: "db \<Rightarrow> tombstone_row \<Rightarrow> bool" where
  "is_final_key d t =
     list_ex (\<lambda>u. u_upload_id u = t_upload_id t \<and> u_final_key u = Some (t_object_key t)) (uploads d)"

definition tombstone_due :: "db \<Rightarrow> time \<Rightarrow> tombstone_row \<Rightarrow> bool" where
  "tombstone_due d now t =
     (t_delete_not_before t \<le> now \<and> t_next_attempt_at t \<le> now \<and>
      (t_reservation_token t = None \<or> by_now (t_reservation_expires_at t) now) \<and>
      \<not> is_final_key d t)"

definition next_due_tombstone :: "(string \<Rightarrow> bool) \<Rightarrow> time \<Rightarrow> db \<Rightarrow> tombstone_row option" where
  "next_due_tombstone locked now d =
     first_by (\<lambda>t. (t_next_attempt_at t, t_object_key t))
       (\<lambda>t. tombstone_due d now t \<and> \<not> locked (t_object_key t)) (tombstones d)"

definition sql_reserve :: "string \<Rightarrow> string \<Rightarrow> time \<Rightarrow> time \<Rightarrow> db \<Rightarrow> go_error + nat \<times> db" where
  "sql_reserve key token expiresAt now d =
     update_tombstones (\<lambda>t. t_object_key t = key \<and> tombstone_due d now t)
       (\<lambda>t. t\<lparr>t_reservation_token := Some token,
              t_reservation_expires_at := Some (timestamptz expiresAt)\<rparr>) d"

definition sql_cleanup_result ::
  "string \<Rightarrow> string \<Rightarrow> time \<Rightarrow> int \<Rightarrow> time \<Rightarrow> string \<Rightarrow> db \<Rightarrow> go_error + nat \<times> db" where
  "sql_cleanup_result key token nextAttempt streak lastAttempt result =
     update_tombstones (\<lambda>t. t_object_key t = key \<and> t_reservation_token t = Some token)
       (\<lambda>t. t\<lparr>t_next_attempt_at := timestamptz nextAttempt, t_reservation_token := None,
              t_reservation_expires_at := None, t_failure_streak := streak,
              t_last_attempt_at := Some lastAttempt, t_last_result := Some result\<rparr>)"

subsection \<open>Facts about the readers\<close>

lemma find_SomeD: "find P xs = Some x \<Longrightarrow> x \<in> set xs \<and> P x"
  by (auto simp: find_Some_iff)

lemma find_upload_by_key_SomeD:
  "find_upload_by_key key d = Some u \<Longrightarrow> u \<in> set (uploads d) \<and> u_idempotency_key u = key"
  unfolding find_upload_by_key_def by (drule find_SomeD) simp

lemma find_upload_by_id_SomeD:
  "find_upload_by_id uid d = Some u \<Longrightarrow> u \<in> set (uploads d) \<and> u_upload_id u = uid"
  unfolding find_upload_by_id_def by (drule find_SomeD) simp

lemma find_claimed_SomeD:
  "find_claimed uid token d = Some u \<Longrightarrow>
     u \<in> set (uploads d) \<and> u_upload_id u = uid \<and> u_state u = Finalizing \<and> u_claim_token u = Some token"
  unfolding find_claimed_def by (drule find_SomeD) simp

lemma set_candidates_of [simp]:
  "set (candidates_of uid d) = {c \<in> set (candidates d). c_upload_id c = uid}"
  by (auto simp: candidates_of_def)

lemma next_finalizing_SomeD:
  "next_finalizing locked now d = Some u \<Longrightarrow>
     u \<in> set (uploads d) \<and> u_state u = Finalizing \<and> by_now (u_reconcile_after u) now \<and>
     (u_claim_token u = None \<or> by_now (u_claim_expires_at u) now) \<and> \<not> locked (u_upload_id u)"
  unfolding next_finalizing_def by (auto dest: first_by_Some(1,2))

lemma next_due_tombstone_SomeD:
  "next_due_tombstone locked now d = Some t \<Longrightarrow>
     t \<in> set (tombstones d) \<and> tombstone_due d now t \<and> \<not> locked (t_object_key t)"
  unfolding next_due_tombstone_def by (auto dest: first_by_Some(1,2))

lemma find_tombstone_SomeD:
  "find_tombstone key d = Some t \<Longrightarrow> t \<in> set (tombstones d) \<and> t_object_key t = key"
  unfolding find_tombstone_def by (drule find_SomeD) simp

end
