(* ===== verification/Tombstones.thy ===== *)
theory Tombstones
  imports Statements
begin

section \<open>Cleanup duties: choosing and recording tombstones\<close>

text \<open>
  Models \<^verbatim>\<open>trackedCandidate\<close>, \<^verbatim>\<open>scanTrackedCandidate\<close>, \<^verbatim>\<open>sameCandidate\<close>,
  \<^verbatim>\<open>lockedFinalizeUpload\<close>, \<^verbatim>\<open>terminalTombstones\<close> and \<^verbatim>\<open>ensureTombstones\<close> of \<^verbatim>\<open>reconcile.go\<close>.
  The relation \<open>ensured\<close> is the contract of \<open>ensureTombstones\<close>: what it has done to the tables when
  it returns without an error.
\<close>

record trackedCandidate =
  tc_SHA256 :: "byte list"
  tc_ObjectKey :: string
  tc_EncodedSize :: int
  tc_ValidationPolicyVersion :: int
  tc_Format :: string
  tc_Width :: int
  tc_Height :: int

record tombstoneTarget =
  tt_ObjectKey :: string
  tt_CandidateSHA256 :: "byte list option"
  tt_DeleteNotBefore :: time

record lockedFinalizeUpload =
  lf_DatabaseNow :: time
  lf_UploadDeadline :: time
  lf_MaxWriteExpiresAt :: time
  lf_StagingKey :: string
  lf_FailureStreak :: int

definition candidate_of_row :: "candidate_row \<Rightarrow> trackedCandidate" where
  "candidate_of_row r =
     \<lparr>tc_SHA256 = c_sha256 r, tc_ObjectKey = c_object_key r, tc_EncodedSize = c_encoded_size r,
      tc_ValidationPolicyVersion = c_policy_version r, tc_Format = c_image_format r,
      tc_Width = c_width r, tc_Height = c_height r\<rparr>"

definition scanTrackedCandidate :: "candidate_row \<Rightarrow> go_error + trackedCandidate" where
  "scanTrackedCandidate r =
     (if length (c_sha256 r) \<noteq> 32 then Inl (errors_New (ErrText ''invalid candidate digest''))
      else Inr (candidate_of_row r))"

fun scanTrackedCandidates :: "candidate_row list \<Rightarrow> go_error + trackedCandidate list" where
  "scanTrackedCandidates [] = Inr []"
| "scanTrackedCandidates (r # rs) =
     (case scanTrackedCandidate r of
        Inl err \<Rightarrow> Inl err
      | Inr c \<Rightarrow> (case scanTrackedCandidates rs of Inl err \<Rightarrow> Inl err | Inr cs \<Rightarrow> Inr (c # cs)))"

definition sameCandidate :: "trackedCandidate \<Rightarrow> trackedCandidate \<Rightarrow> bool" where
  "sameCandidate l r =
     (tc_SHA256 l = tc_SHA256 r \<and>
      tc_ObjectKey l = tc_ObjectKey r \<and>
      tc_EncodedSize l = tc_EncodedSize r \<and>
      tc_ValidationPolicyVersion l = tc_ValidationPolicyVersion r \<and>
      tc_Format l = tc_Format r \<and>
      tc_Width l = tc_Width r \<and>
      tc_Height l = tc_Height r)"

lemma sameCandidate_iff [simp]: "sameCandidate l r \<longleftrightarrow> l = r"
  by (cases l; cases r) (auto simp: sameCandidate_def)

lemma scanTrackedCandidates_Inr:
  "scanTrackedCandidates rs = Inr cs \<Longrightarrow> cs = map candidate_of_row rs"
  by (induction rs arbitrary: cs)
     (auto simp: scanTrackedCandidate_def split: sum.splits if_splits)

lemma scanTrackedCandidates_ok:
  "(\<And>r. r \<in> set rs \<Longrightarrow> length (c_sha256 r) = 32) \<Longrightarrow>
     scanTrackedCandidates rs = Inr (map candidate_of_row rs)"
  by (induction rs) (auto simp: scanTrackedCandidate_def)

subsection \<open>Choosing the targets\<close>

definition staging_target :: "string \<Rightarrow> time \<Rightarrow> tombstoneTarget" where
  "staging_target key notBefore =
     \<lparr>tt_ObjectKey = key, tt_CandidateSHA256 = None, tt_DeleteNotBefore = notBefore\<rparr>"

definition candidate_target :: "time \<Rightarrow> trackedCandidate \<Rightarrow> tombstoneTarget" where
  "candidate_target now c =
     \<lparr>tt_ObjectKey = tc_ObjectKey c, tt_CandidateSHA256 = Some (tc_SHA256 c), tt_DeleteNotBefore = now\<rparr>"

definition terminalTombstones ::
  "lockedFinalizeUpload \<Rightarrow> trackedCandidate list \<Rightarrow> string \<Rightarrow> tombstoneTarget list" where
  "terminalTombstones parent cands selectedKey =
     sort_key tt_ObjectKey
       (staging_target (lf_StagingKey parent) (lf_MaxWriteExpiresAt parent) #
        map (candidate_target (lf_DatabaseNow parent))
          (filter (\<lambda>c. tc_ObjectKey c \<noteq> selectedKey) cands))"

lemma set_terminalTombstones:
  "set (terminalTombstones parent cands k) =
     insert (staging_target (lf_StagingKey parent) (lf_MaxWriteExpiresAt parent))
       (candidate_target (lf_DatabaseNow parent) ` {c \<in> set cands. tc_ObjectKey c \<noteq> k})"
  unfolding terminalTombstones_def set_sort by auto

subsection \<open>Recording the targets\<close>

text \<open>\<^verbatim>\<open>bytes.Equal\<close> does not tell a nil slice from an empty one.\<close>

definition bytes_of :: "byte list option \<Rightarrow> byte list" where
  "bytes_of b = (case b of None \<Rightarrow> [] | Some bs \<Rightarrow> bs)"

definition tombstone_conflicts :: "string \<Rightarrow> tombstoneTarget \<Rightarrow> tombstone_row \<Rightarrow> bool" where
  "tombstone_conflicts uid tgt stored =
     (t_upload_id stored \<noteq> uid \<or>
      bytes_of (t_candidate_sha256 stored) \<noteq> bytes_of (tt_CandidateSHA256 tgt) \<or>
      t_delete_not_before stored < tt_DeleteNotBefore tgt)"

definition sql_insert_tombstone :: "string \<Rightarrow> tombstoneTarget \<Rightarrow> time \<Rightarrow> db \<Rightarrow> go_error + nat \<times> db" where
  "sql_insert_tombstone uid tgt now =
     insert_tombstone (new_tombstone_row (tt_ObjectKey tgt) uid (tt_CandidateSHA256 tgt)
       (timestamptz (tt_DeleteNotBefore tgt)) now)"

definition select_tombstone :: "string \<Rightarrow> nat \<Rightarrow> time \<Rightarrow> db \<Rightarrow> go_error + tombstone_row" where
  "select_tombstone key k now d =
     (case find_tombstone key d of None \<Rightarrow> Inl errNoRows | Some t \<Rightarrow> Inr t)"

fun ensureTombstones ::
  "environment \<Rightarrow> string \<Rightarrow> tombstoneTarget list \<Rightarrow> db \<Rightarrow> (world, go_error + db) state" where
  "ensureTombstones E uid [] t = State_Monad.return (Inr t)"
| "ensureTombstones E uid (tgt # targets) t = do {
     inserted \<leftarrow> exec_sql E (sql_insert_tombstone uid tgt) t;
     case inserted of
       Inl err \<Rightarrow> State_Monad.return (Inl err)
     | Inr (_, t1) \<Rightarrow> do {
         stored \<leftarrow> query_sql E (select_tombstone (tt_ObjectKey tgt)) t1;
         case stored of
           Inl err \<Rightarrow> State_Monad.return (Inl err)
         | Inr row \<Rightarrow>
             (if tombstone_conflicts uid tgt row
              then State_Monad.return (Inl (errors_New (ErrText ''conflicting cleanup tombstone'')))
              else ensureTombstones E uid targets t1) } }"

subsection \<open>The contract\<close>

inductive ensured :: "string \<Rightarrow> tombstoneTarget list \<Rightarrow> db \<Rightarrow> db \<Rightarrow> bool" where
  ensured_Nil: "ensured uid [] d d"
| ensured_Cons: "sql_insert_tombstone uid tgt now d = Inr (n, d1) \<Longrightarrow>
     find_tombstone (tt_ObjectKey tgt) d1 = Some row \<Longrightarrow> \<not> tombstone_conflicts uid tgt row \<Longrightarrow>
     ensured uid targets d1 d2 \<Longrightarrow> ensured uid (tgt # targets) d d2"

inductive_simps ensured_simps: "ensured uid [] d d'" "ensured uid (tgt # targets) d d'"

text \<open>Recording only appends tombstones of this upload, for the targets' keys.\<close>

definition tombstone_for :: "string \<Rightarrow> string set \<Rightarrow> db \<Rightarrow> tombstone_row \<Rightarrow> bool" where
  "tombstone_for uid keys d t =
     (t_upload_id t = uid \<and> t_object_key t \<in> keys \<and> tombstone_ok t \<and>
      t_reservation_expires_at t = None \<and> uid \<in> u_upload_id ` set (uploads d) \<and>
      (\<forall>sha. t_candidate_sha256 t = Some sha \<longrightarrow>
         (\<exists>c\<in>set (candidates d). c_upload_id c = uid \<and> c_sha256 c = sha)))"

definition appended_tombstones :: "string \<Rightarrow> string set \<Rightarrow> db \<Rightarrow> db \<Rightarrow> bool" where
  "appended_tombstones uid keys d d' =
     (\<exists>new. d' = d\<lparr>tombstones := tombstones d @ new\<rparr> \<and>
        (\<forall>t\<in>set new. tombstone_for uid keys d t) \<and>
        distinct (map t_object_key new) \<and>
        t_object_key ` set new \<inter> t_object_key ` set (tombstones d) = {})"

lemma tombstone_for_tombstones [simp]:
  "tombstone_for uid keys (d\<lparr>tombstones := ts\<rparr>) t = tombstone_for uid keys d t"
  by (simp add: tombstone_for_def)

lemma appended_tombstones_refl: "appended_tombstones uid keys d d"
  unfolding appended_tombstones_def by (rule exI [of _ "[]"]) simp

lemma appended_tombstones_trans:
  assumes "appended_tombstones uid keys d d1" and "appended_tombstones uid keys d1 d2"
  shows "appended_tombstones uid keys d d2"
proof -
  from assms(1) obtain new where new: "d1 = d\<lparr>tombstones := tombstones d @ new\<rparr>"
    "\<forall>t\<in>set new. tombstone_for uid keys d t"
    "distinct (map t_object_key new)" "t_object_key ` set new \<inter> t_object_key ` set (tombstones d) = {}"
    unfolding appended_tombstones_def by blast
  from assms(2) obtain more where more: "d2 = d1\<lparr>tombstones := tombstones d1 @ more\<rparr>"
    "\<forall>t\<in>set more. tombstone_for uid keys d1 t"
    "distinct (map t_object_key more)" "t_object_key ` set more \<inter> t_object_key ` set (tombstones d1) = {}"
    unfolding appended_tombstones_def by blast
  have "d2 = d\<lparr>tombstones := tombstones d @ (new @ more)\<rparr>"
    using new(1) more(1) by simp
  moreover have "\<forall>t\<in>set (new @ more). tombstone_for uid keys d t"
    using new(1,2) more(2) by auto
  moreover have "t_object_key ` set new \<inter> t_object_key ` set more = {}"
    using new(1) more(4) by (simp add: image_Un Int_commute inf_sup_distrib1)
  then have "distinct (map t_object_key (new @ more))"
    using new(3) more(3) by simp
  moreover have "t_object_key ` set (new @ more) \<inter> t_object_key ` set (tombstones d) = {}"
    using new(1,4) more(4) by (simp add: image_Un inf_sup_distrib1 inf_sup_distrib2)
  ultimately show ?thesis
    unfolding appended_tombstones_def by blast
qed

lemma tombstone_for_mono: "tombstone_for uid keys d t \<Longrightarrow> keys \<subseteq> keys' \<Longrightarrow> tombstone_for uid keys' d t"
  by (auto simp: tombstone_for_def)

lemma appended_tombstones_mono:
  assumes "appended_tombstones uid keys d d'" and "keys \<subseteq> keys'"
  shows "appended_tombstones uid keys' d d'"
proof -
  from assms(1) obtain new where new: "d' = d\<lparr>tombstones := tombstones d @ new\<rparr>"
    "\<forall>t\<in>set new. tombstone_for uid keys d t" "distinct (map t_object_key new)"
    "t_object_key ` set new \<inter> t_object_key ` set (tombstones d) = {}"
    unfolding appended_tombstones_def by (elim exE conjE)
  have "\<forall>t\<in>set new. tombstone_for uid keys' d t"
    using new(2) tombstone_for_mono [OF _ assms(2)] by simp
  with new(1,3,4) show ?thesis
    unfolding appended_tombstones_def by (intro exI [of _ new] conjI)
qed

lemma sql_insert_tombstone_appends:
  assumes "sql_insert_tombstone uid tgt now d = Inr (n, d')"
  shows "appended_tombstones uid {tt_ObjectKey tgt} d d'"
proof -
  let ?t = "new_tombstone_row (tt_ObjectKey tgt) uid (tt_CandidateSHA256 tgt)
      (timestamptz (tt_DeleteNotBefore tgt)) now"
  have t: "t_object_key ?t = tt_ObjectKey tgt" "t_upload_id ?t = uid" "t_reservation_expires_at ?t = None"
    by (simp_all add: new_tombstone_row_def)
  from insert_tombstone_Inr [OF assms [unfolded sql_insert_tombstone_def]]
  show ?thesis
  proof (elim conjE disjE)
    assume "d' = d"
    then show ?thesis by (simp add: appended_tombstones_refl)
  next
    assume ok: "tombstone_ok ?t" "d' = d\<lparr>tombstones := tombstones d @ [?t]\<rparr>"
      "t_object_key ?t \<notin> t_object_key ` set (tombstones d)"
      "t_upload_id ?t \<in> u_upload_id ` set (uploads d)"
      "\<forall>sha. t_candidate_sha256 ?t = Some sha \<longrightarrow>
        (\<exists>c\<in>set (candidates d). c_upload_id c = t_upload_id ?t \<and> c_sha256 c = sha)"
    then show ?thesis
      unfolding appended_tombstones_def tombstone_for_def using t by (intro exI [of _ "[?t]"]) simp
  qed
qed

lemma ensured_appends:
  "ensured uid targets d d' \<Longrightarrow> appended_tombstones uid (tt_ObjectKey ` set targets) d d'"
proof (induction rule: ensured.induct)
  case (ensured_Nil uid d)
  show ?case by (rule appended_tombstones_refl)
next
  case (ensured_Cons uid tgt now d n d1 row targets d2)
  have "appended_tombstones uid (tt_ObjectKey ` set (tgt # targets)) d d1"
    by (rule appended_tombstones_mono [OF sql_insert_tombstone_appends [OF ensured_Cons.hyps(1)]]) simp
  moreover have "appended_tombstones uid (tt_ObjectKey ` set (tgt # targets)) d1 d2"
    by (rule appended_tombstones_mono [OF ensured_Cons.IH]) auto
  ultimately show ?case by (rule appended_tombstones_trans)
qed

lemma appended_tombstones_frame:
  assumes "appended_tombstones uid keys d d'"
  shows "uploads d' = uploads d" and "candidates d' = candidates d"
    and "set (tombstones d) \<subseteq> set (tombstones d')"
  using assms by (auto simp: appended_tombstones_def)

lemma ensured_covers:
  "ensured uid targets d d' \<Longrightarrow> tgt \<in> set targets \<Longrightarrow>
     \<exists>t\<in>set (tombstones d'). t_object_key t = tt_ObjectKey tgt \<and> \<not> tombstone_conflicts uid tgt t"
proof (induction rule: ensured.induct)
  case (ensured_Cons uid tgt' now d n d1 row targets d2)
  show ?case
  proof (cases "tgt = tgt'")
    case True
    with ensured_Cons.hyps(2,3) have "row \<in> set (tombstones d1)"
      "t_object_key row = tt_ObjectKey tgt" "\<not> tombstone_conflicts uid tgt row"
      by (auto dest: find_tombstone_SomeD)
    moreover have "set (tombstones d1) \<subseteq> set (tombstones d2)"
      by (rule appended_tombstones_frame(3) [OF ensured_appends [OF ensured_Cons.hyps(4)]])
    ultimately show ?thesis by blast
  next
    case False
    with ensured_Cons.prems ensured_Cons.IH show ?thesis by simp
  qed
qed simp

end
