(* ===== verification/Protocol.thy ===== *)
theory Protocol
  imports Tombstones
begin

section \<open>The storage protocol: committed transactions and their invariant\<close>

text \<open>
  The relation \<open>db_step\<close> lists what one committed transaction of the service can do to the database:
  one rule for each transaction that writes.  Every interleaving of request handlers, finalizer and
  maintenance worker, in one process or several, is a sequence of such steps.  The component
  theories show that each operation of the code moves the database along these steps only.  The
  invariant \<open>db_inv\<close> holds in every reachable database; how two databases along a run are related is
  the subject of \<^verbatim>\<open>Lifecycle.thy\<close>.
\<close>

subsection \<open>The steps\<close>

definition parent_of :: "upload_row \<Rightarrow> time \<Rightarrow> lockedFinalizeUpload" where
  "parent_of u now =
     \<lparr>lf_DatabaseNow = now, lf_UploadDeadline = u_upload_deadline u,
      lf_MaxWriteExpiresAt = u_max_write_expires_at u, lf_StagingKey = u_staging_key u,
      lf_FailureStreak = u_failure_streak u\<rparr>"

definition terminal_targets :: "upload_row \<Rightarrow> time \<Rightarrow> db \<Rightarrow> string \<Rightarrow> tombstoneTarget list" where
  "terminal_targets u now d key =
     terminalTombstones (parent_of u now) (map candidate_of_row (candidates_of (u_upload_id u) d)) key"

definition cleanupReservationLease :: duration where "cleanupReservationLease = 30 * second"

inductive db_step :: "db \<Rightarrow> db \<Rightarrow> bool" where
  create: "insert_upload (new_upload_row uid key (staging_key_of uid) declaredSize ctype expiresAt now) d
      = Inr (1, d') \<Longrightarrow> db_step d d'"
| raise_horizon: "u \<in> set (uploads d) \<Longrightarrow> u_state u \<in> {Pending, Finalizing} \<Longrightarrow>
     sql_raise_horizon (u_upload_id u) expiresAt d = Inr (1, d') \<Longrightarrow> db_step d d'"
| complete: "sql_complete_pending uid now d = Inr (1, d') \<Longrightarrow> db_step d d'"
| poke: "sql_poke_finalizing uid now d = Inr (1, d') \<Longrightarrow> db_step d d'"
| expire_pending: "u \<in> set (uploads d) \<Longrightarrow> u_state u = Pending \<Longrightarrow> u_upload_deadline u \<le> now \<Longrightarrow>
     sql_expire_pending (u_upload_id u) now d = Inr (1, d1) \<Longrightarrow>
     ensured (u_upload_id u) [staging_target (u_staging_key u) (u_max_write_expires_at u)] d1 d' \<Longrightarrow>
     db_step d d'"
| claim: "next_finalizing locked now d = Some u \<Longrightarrow>
     sql_claim (u_upload_id u) token expiresAt d = Inr (1, d') \<Longrightarrow> db_step d d'"
| renew: "find_claimed uid token d = Some u \<Longrightarrow> after_now (u_claim_expires_at u) now \<Longrightarrow>
     sql_renew uid token expiresAt d = Inr (1, d') \<Longrightarrow> db_step d d'"
| register: "find_claimed uid token d = Some u \<Longrightarrow> after_now (u_claim_expires_at u) now \<Longrightarrow>
     c_upload_id c = uid \<Longrightarrow> insert_candidate c d = Inr (n, d') \<Longrightarrow> db_step d d'"
| ready: "find_claimed uid token d = Some u \<Longrightarrow> after_now (u_claim_expires_at u) now \<Longrightarrow>
     sel \<in> set (candidates_of uid d) \<Longrightarrow> find_tombstone (c_object_key sel) d = None \<Longrightarrow>
     ensured uid (terminal_targets u now d (c_object_key sel)) d d1 \<Longrightarrow>
     sql_ready uid token now (c_object_key sel) d1 = Inr (1, d') \<Longrightarrow> db_step d d'"
| rejected: "find_claimed uid token d = Some u \<Longrightarrow> after_now (u_claim_expires_at u) now \<Longrightarrow>
     ensured uid (terminal_targets u now d '''') d d1 \<Longrightarrow>
     sql_rejected uid token now cls reason phase ev d1 = Inr (1, d') \<Longrightarrow> db_step d d'"
| expire_missing: "find_claimed uid token d = Some u \<Longrightarrow> after_now (u_claim_expires_at u) now \<Longrightarrow>
     u_upload_deadline u \<le> now \<Longrightarrow> u_max_write_expires_at u \<le> now \<Longrightarrow>
     u_max_write_expires_at u = horizon \<Longrightarrow>
     ensured uid (terminal_targets u now d '''') d d1 \<Longrightarrow>
     sql_expire_missing uid token now horizon d1 = Inr (1, d') \<Longrightarrow> db_step d d'"
| retry: "find_claimed uid token d = Some u \<Longrightarrow> after_now (u_claim_expires_at u) now \<Longrightarrow>
     sql_retry uid token nextAttempt streak errorClass now d = Inr (1, d') \<Longrightarrow> db_step d d'"
| reserve: "next_due_tombstone locked now d = Some t \<Longrightarrow>
     timestamptz now' = now' \<Longrightarrow>
     sql_reserve (t_object_key t) token (now' + cleanupReservationLease) now' d = Inr (1, d') \<Longrightarrow>
     db_step d d'"
| cleanup_result: "sql_cleanup_result key token nextAttempt streak lastAttempt result d = Inr (1, d') \<Longrightarrow>
     db_step d d'"

lemmas step_create = db_step.create
lemmas step_raise_horizon = db_step.raise_horizon
lemmas step_complete = db_step.complete
lemmas step_poke = db_step.poke
lemmas step_expire_pending = db_step.expire_pending
lemmas step_claim = db_step.claim
lemmas step_renew = db_step.renew
lemmas step_register = db_step.register
lemmas step_ready = db_step.ready
lemmas step_rejected = db_step.rejected
lemmas step_expire_missing = db_step.expire_missing
lemmas step_retry = db_step.retry
lemmas step_reserve = db_step.reserve
lemmas step_cleanup_result = db_step.cleanup_result

abbreviation db_steps :: "db \<Rightarrow> db \<Rightarrow> bool" where
  "db_steps \<equiv> db_step\<^sup>*\<^sup>*"

definition reachable :: "db \<Rightarrow> bool" where
  "reachable d = db_steps empty_db d"

subsection \<open>The invariant\<close>

definition tables_ok :: "db \<Rightarrow> bool" where
  "tables_ok d =
     (distinct (map u_upload_id (uploads d)) \<and>
      distinct (map u_idempotency_key (uploads d)) \<and>
      (\<forall>u\<in>set (uploads d). upload_ok u) \<and>
      (\<forall>c\<in>set (candidates d). candidate_ok c \<and> c_upload_id c \<in> u_upload_id ` set (uploads d)) \<and>
      distinct (map (\<lambda>c. (c_upload_id c, c_sha256 c)) (candidates d)) \<and>
      (\<forall>t\<in>set (tombstones d). tombstone_ok t \<and> t_upload_id t \<in> u_upload_id ` set (uploads d) \<and>
         (\<forall>sha. t_candidate_sha256 t = Some sha \<longrightarrow>
            (\<exists>c\<in>set (candidates d). c_upload_id c = t_upload_id t \<and> c_sha256 c = sha))) \<and>
      distinct (map t_object_key (tombstones d)))"

text \<open>A final key names a recorded candidate of its upload.\<close>

definition final_candidates_ok :: "db \<Rightarrow> bool" where
  "final_candidates_ok d =
     (\<forall>u\<in>set (uploads d). \<forall>k. u_final_key u = Some k \<longrightarrow>
        (\<exists>c\<in>set (candidates d). c_upload_id c = u_upload_id u \<and> c_object_key c = k))"

text \<open>Tombstones belong to terminal uploads and never name a published object.\<close>

definition tombstones_fenced :: "db \<Rightarrow> bool" where
  "tombstones_fenced d =
     (\<forall>t\<in>set (tombstones d). \<forall>u\<in>set (uploads d). u_upload_id u = t_upload_id t \<longrightarrow>
        terminal (u_state u) \<and> u_final_key u \<noteq> Some (t_object_key t))"

text \<open>A terminal upload has a duty for its staging object, not before the last write capability ends,
  and one for every candidate but the published one.\<close>

definition duty_for :: "upload_row \<Rightarrow> db \<Rightarrow> bool" where
  "duty_for u d =
     ((\<exists>t\<in>set (tombstones d). t_object_key t = u_staging_key u \<and>
         u_max_write_expires_at u \<le> t_delete_not_before t) \<and>
      (\<forall>c\<in>set (candidates d). c_upload_id c = u_upload_id u \<longrightarrow> u_final_key u \<noteq> Some (c_object_key c) \<longrightarrow>
         (\<exists>t\<in>set (tombstones d). t_object_key t = c_object_key c)))"

definition duties_recorded :: "db \<Rightarrow> bool" where
  "duties_recorded d = (\<forall>u\<in>set (uploads d). terminal (u_state u) \<longrightarrow> duty_for u d)"

text \<open>Candidates are recorded while an upload is being finalized, so a pending one has none.\<close>

definition pending_bare :: "db \<Rightarrow> bool" where
  "pending_bare d =
     (\<forall>c\<in>set (candidates d). \<forall>u\<in>set (uploads d). u_upload_id u = c_upload_id c \<longrightarrow> u_state u \<noteq> Pending)"

definition db_inv :: "db \<Rightarrow> bool" where
  "db_inv d =
     (tables_ok d \<and> final_candidates_ok d \<and> tombstones_fenced d \<and> duties_recorded d \<and> pending_bare d)"

lemma db_inv_empty: "db_inv empty_db"
  by (simp add: db_inv_def tables_ok_def final_candidates_ok_def tombstones_fenced_def
      duties_recorded_def pending_bare_def empty_db_def)

subsection \<open>Unique rows\<close>

lemma unique_upload:
  "tables_ok d \<Longrightarrow> u \<in> set (uploads d) \<Longrightarrow> v \<in> set (uploads d) \<Longrightarrow> u_upload_id u = u_upload_id v \<Longrightarrow> u = v"
  by (auto simp: tables_ok_def distinct_map dest: inj_onD)

lemma unique_key:
  "tables_ok d \<Longrightarrow> u \<in> set (uploads d) \<Longrightarrow> v \<in> set (uploads d) \<Longrightarrow>
     u_idempotency_key u = u_idempotency_key v \<Longrightarrow> u = v"
  by (auto simp: tables_ok_def distinct_map dest: inj_onD)

lemma unique_tombstone:
  "tables_ok d \<Longrightarrow> s \<in> set (tombstones d) \<Longrightarrow> t \<in> set (tombstones d) \<Longrightarrow>
     t_object_key s = t_object_key t \<Longrightarrow> s = t"
  by (auto simp: tables_ok_def distinct_map dest: inj_onD)

lemma terminal_simps [simp]:
  "terminal Ready" "terminal Rejected" "terminal Expired"
  "\<not> terminal Pending" "\<not> terminal Finalizing" "\<not> terminal (OtherState s)"
  by (simp_all add: terminal_def)

lemma open_no_tombstone:
  "tombstones_fenced d \<Longrightarrow> u \<in> set (uploads d) \<Longrightarrow> \<not> terminal (u_state u) \<Longrightarrow>
     t \<in> set (tombstones d) \<Longrightarrow> t_upload_id t \<noteq> u_upload_id u"
  by (auto simp: tombstones_fenced_def)

lemma open_no_final_key:
  "upload_ok u \<Longrightarrow> \<not> terminal (u_state u) \<Longrightarrow> u_final_key u = None"
  by (auto simp: upload_ok_def terminal_def)

subsection \<open>Updates of one upload\<close>

text \<open>What an \<^verbatim>\<open>UPDATE uploads\<close> does row by row.\<close>

definition patched :: "(upload_row \<Rightarrow> bool) \<Rightarrow> (upload_row \<Rightarrow> upload_row) \<Rightarrow> upload_row \<Rightarrow> upload_row" where
  "patched p f u = (if p u then f u else u)"

definition keeps_identity :: "(upload_row \<Rightarrow> bool) \<Rightarrow> (upload_row \<Rightarrow> upload_row) \<Rightarrow> db \<Rightarrow> bool" where
  "keeps_identity p f d =
     (\<forall>u\<in>set (uploads d). p u \<longrightarrow>
        u_upload_id (f u) = u_upload_id u \<and> u_idempotency_key (f u) = u_idempotency_key u)"

lemma update_uploads_patched:
  "update_uploads p f d = Inr (n, d') \<Longrightarrow> d' = d\<lparr>uploads := map (patched p f) (uploads d)\<rparr>"
  by (drule update_uploads_Inr(2)) (simp add: patched_def [abs_def])

lemma patched_ids:
  assumes "keeps_identity p f d"
  shows "map u_upload_id (map (patched p f) (uploads d)) = map u_upload_id (uploads d)"
    and "map u_idempotency_key (map (patched p f) (uploads d)) = map u_idempotency_key (uploads d)"
  using assms by (auto simp: keeps_identity_def patched_def)

lemma patched_id_image:
  "keeps_identity p f d \<Longrightarrow>
     u_upload_id ` patched p f ` set (uploads d) = u_upload_id ` set (uploads d)"
  using arg_cong [OF patched_ids(1), of p f d set] by (simp add: image_comp)

lemma update_tables_ok:
  assumes ok: "tables_ok d" and upd: "update_uploads p f d = Inr (n, d')"
    and ids: "keeps_identity p f d"
  shows "tables_ok d'"
proof -
  have d': "d' = d\<lparr>uploads := map (patched p f) (uploads d)\<rparr>"
    by (rule update_uploads_patched [OF upd])
  have "\<forall>u\<in>set (uploads d). upload_ok (patched p f u)"
    using ok update_uploads_Inr(3) [OF upd] by (simp add: patched_def tables_ok_def)
  then show ?thesis
    using ok patched_ids [OF ids] patched_id_image [OF ids]
    by (simp add: tables_ok_def d' del: map_map)
qed

text \<open>An update that keeps open uploads open.\<close>

lemma open_update_inv:
  assumes inv: "db_inv d" and upd: "update_uploads p f d = Inr (n, d')"
    and ids: "keeps_identity p f d"
    and still_open: "\<And>u. u \<in> set (uploads d) \<Longrightarrow> p u \<Longrightarrow>
      \<not> terminal (u_state u) \<and> \<not> terminal (u_state (f u)) \<and>
      (u_state (f u) = Pending \<longrightarrow> u_state u = Pending)"
  shows "db_inv d'"
proof -
  have d': "d' = d\<lparr>uploads := map (patched p f) (uploads d)\<rparr>"
    by (rule update_uploads_patched [OF upd])
  have rest: "candidates d' = candidates d" "tombstones d' = tombstones d" by (simp_all add: d')
  have tabs: "tables_ok d'"
    using inv update_tables_ok [OF _ upd ids] by (simp add: db_inv_def)
  have no_key: "u_final_key (f u) = None" if "u \<in> set (uploads d)" "p u" for u
    using update_uploads_Inr(3) [OF upd that] still_open [OF that] open_no_final_key by blast
  have row: "\<exists>u\<in>set (uploads d). u_upload_id u = u_upload_id v \<and>
      (v = u \<or> \<not> terminal (u_state u) \<and> \<not> terminal (u_state v) \<and> u_final_key v = None \<and>
         (u_state v = Pending \<longrightarrow> u_state u = Pending))" if "v \<in> set (uploads d')" for v
    using that ids still_open no_key by (fastforce simp: d' patched_def keeps_identity_def)
  have "final_candidates_ok d'"
    using inv row by (fastforce simp: db_inv_def final_candidates_ok_def rest)
  moreover have "tombstones_fenced d'"
    using inv row by (fastforce simp: db_inv_def tombstones_fenced_def rest)
  moreover have "duties_recorded d'"
    using inv row by (fastforce simp: db_inv_def duties_recorded_def duty_for_def rest)
  moreover have "pending_bare d'"
    using inv row by (fastforce simp: db_inv_def pending_bare_def rest)
  ultimately show ?thesis using tabs by (simp add: db_inv_def)
qed

lemmas sql_update_defs =
  sql_raise_horizon_def sql_complete_pending_def sql_poke_finalizing_def sql_claim_def
  sql_renew_def sql_retry_def sql_ready_def sql_rejected_def sql_expire_missing_def
  sql_expire_pending_def settle_def

subsection \<open>Terminal transitions\<close>

text \<open>The database after the upload \<open>u\<close> became \<open>u'\<close> and tombstones were appended for it.\<close>

definition settled_db :: "upload_row \<Rightarrow> upload_row \<Rightarrow> string set \<Rightarrow> db \<Rightarrow> db \<Rightarrow> bool" where
  "settled_db u u' keys d d' =
     (\<exists>new. uploads d' = map (\<lambda>v. if u_upload_id v = u_upload_id u then u' else v) (uploads d) \<and>
        candidates d' = candidates d \<and> tombstones d' = tombstones d @ new \<and>
        (\<forall>t\<in>set new. tombstone_for (u_upload_id u) keys d t) \<and>
        distinct (map t_object_key new) \<and>
        t_object_key ` set new \<inter> t_object_key ` set (tombstones d) = {})"

lemma settled_ids:
  assumes "u_upload_id u' = u_upload_id u" and "u_idempotency_key u' = u_idempotency_key u"
    and "tables_ok d" and "u \<in> set (uploads d)"
  shows "map u_upload_id (map (\<lambda>v. if u_upload_id v = u_upload_id u then u' else v) (uploads d))
      = map u_upload_id (uploads d)"
    and "map u_idempotency_key (map (\<lambda>v. if u_upload_id v = u_upload_id u then u' else v) (uploads d))
      = map u_idempotency_key (uploads d)"
  using assms unique_upload [OF assms(3) _ assms(4)] by auto

lemma settled_tables_ok:
  assumes ok: "tables_ok d" and u: "u \<in> set (uploads d)"
    and ids: "u_upload_id u' = u_upload_id u" "u_idempotency_key u' = u_idempotency_key u"
    and u': "upload_ok u'" and settled: "settled_db u u' keys d d'"
  shows "tables_ok d'"
proof -
  from settled obtain new where
    up: "uploads d' = map (\<lambda>v. if u_upload_id v = u_upload_id u then u' else v) (uploads d)"
    and rest: "candidates d' = candidates d" "tombstones d' = tombstones d @ new"
    and new: "\<forall>t\<in>set new. tombstone_for (u_upload_id u) keys d t"
    and dist: "distinct (map t_object_key new)"
      "t_object_key ` set new \<inter> t_object_key ` set (tombstones d) = {}"
    unfolding settled_db_def by blast
  note maps = settled_ids [OF ids ok u]
  have "set (map u_upload_id (uploads d')) = set (map u_upload_id (uploads d))"
    by (simp only: up maps)
  then have image: "u_upload_id ` set (uploads d') = u_upload_id ` set (uploads d)"
    by simp
  have "\<forall>v\<in>set (uploads d'). upload_ok v"
    using ok u' by (auto simp: up tables_ok_def)
  moreover have "distinct (map t_object_key (tombstones d'))"
    using ok dist by (auto simp: tables_ok_def rest)
  moreover have "\<forall>t\<in>set (tombstones d'). tombstone_ok t \<and> t_upload_id t \<in> u_upload_id ` set (uploads d) \<and>
      (\<forall>sha. t_candidate_sha256 t = Some sha \<longrightarrow>
        (\<exists>c\<in>set (candidates d). c_upload_id c = t_upload_id t \<and> c_sha256 c = sha))"
    using ok new by (auto simp: tables_ok_def rest tombstone_for_def)
  ultimately show ?thesis
    using ok maps unfolding tables_ok_def image by (simp add: up rest del: map_map)
qed

lemma settled_row:
  "settled_db u u' keys d d' \<Longrightarrow> v \<in> set (uploads d') \<Longrightarrow>
     v = u' \<or> (v \<in> set (uploads d) \<and> u_upload_id v \<noteq> u_upload_id u)"
  by (auto simp: settled_db_def)

lemma settled_fenced:
  assumes fence: "tombstones_fenced d" and u: "u \<in> set (uploads d)" "\<not> terminal (u_state u)"
    and u': "u_upload_id u' = u_upload_id u" "terminal (u_state u')"
    and final: "\<And>k. u_final_key u' = Some k \<Longrightarrow> k \<notin> keys" and settled: "settled_db u u' keys d d'"
  shows "tombstones_fenced d'"
  unfolding tombstones_fenced_def
proof (intro ballI impI)
  fix t v assume t: "t \<in> set (tombstones d')" and v: "v \<in> set (uploads d')"
    and eq: "u_upload_id v = t_upload_id t"
  from settled t have new: "t \<in> set (tombstones d) \<or> tombstone_for (u_upload_id u) keys d t"
    unfolding settled_db_def by auto
  show "terminal (u_state v) \<and> u_final_key v \<noteq> Some (t_object_key t)"
  proof (cases "v = u'")
    case True
    then have "t \<notin> set (tombstones d)" using open_no_tombstone [OF fence u] eq u'(1) by metis
    with new have "t_object_key t \<in> keys" by (auto simp: tombstone_for_def)
    with True u'(2) final show ?thesis by auto
  next
    case False
    with settled_row [OF settled v] have v: "v \<in> set (uploads d)" "u_upload_id v \<noteq> u_upload_id u" by auto
    with eq new have "t \<in> set (tombstones d)" by (auto simp: tombstone_for_def)
    with fence v(1) eq show ?thesis by (simp add: tombstones_fenced_def)
  qed
qed

lemma settled_duties:
  assumes "duties_recorded d" and "duty_for u' d'" and settled: "settled_db u u' keys d d'"
  shows "duties_recorded d'"
  unfolding duties_recorded_def
proof (intro ballI impI)
  fix v assume v: "v \<in> set (uploads d')" and closed: "terminal (u_state v)"
  show "duty_for v d'"
  proof (cases "v = u'")
    case False
    with settled_row [OF settled v] closed assms(1) have "duty_for v d" by (auto simp: duties_recorded_def)
    moreover obtain new where "candidates d' = candidates d" "tombstones d' = tombstones d @ new"
      using settled by (auto simp: settled_db_def)
    ultimately show ?thesis by (auto simp: duty_for_def)
  qed (simp add: assms(2))
qed

lemma settle_inv:
  assumes inv: "db_inv d" and u: "u \<in> set (uploads d)" "\<not> terminal (u_state u)"
    and ids: "u_upload_id u' = u_upload_id u" "u_idempotency_key u' = u_idempotency_key u"
    and u': "upload_ok u'" "terminal (u_state u')"
    and final: "\<And>k. u_final_key u' = Some k \<Longrightarrow>
      k \<notin> keys \<and> (\<exists>c\<in>set (candidates d). c_upload_id c = u_upload_id u \<and> c_object_key c = k)"
    and duty: "duty_for u' d'" and settled: "settled_db u u' keys d d'"
  shows "db_inv d'"
proof -
  from inv have tabs: "tables_ok d" and fence: "tombstones_fenced d" and duties: "duties_recorded d"
    and finals: "final_candidates_ok d" and bare: "pending_bare d" by (simp_all add: db_inv_def)
  have rest: "candidates d' = candidates d" using settled by (auto simp: settled_db_def)
  have "final_candidates_ok d'"
    unfolding final_candidates_ok_def
  proof (intro ballI allI impI)
    fix v k assume "v \<in> set (uploads d')" "u_final_key v = Some k"
    then show "\<exists>c\<in>set (candidates d'). c_upload_id c = u_upload_id v \<and> c_object_key c = k"
      using settled_row [OF settled, of v] final [of k] finals ids(1) rest by (auto simp: final_candidates_ok_def)
  qed
  moreover have "tombstones_fenced d'"
    using final by (intro settled_fenced [OF fence u ids(1) u'(2) _ settled]) blast
  moreover have "duties_recorded d'" by (rule settled_duties [OF duties duty settled])
  moreover have "pending_bare d'"
    using bare u'(2) settled_row [OF settled] by (fastforce simp: pending_bare_def rest)
  ultimately show ?thesis
    using settled_tables_ok [OF tabs u(1) ids u'(1) settled] by (simp add: db_inv_def)
qed

subsection \<open>Every step keeps the invariant\<close>

text \<open>Reading what a covered target says about the tombstone behind it.\<close>

lemma covered_staging:
  assumes "ensured uid targets d d'" and "staging_target key notBefore \<in> set targets"
  shows "\<exists>t\<in>set (tombstones d'). t_object_key t = key \<and> notBefore \<le> t_delete_not_before t"
  using ensured_covers [OF assms] by (force simp: staging_target_def tombstone_conflicts_def)

lemma covered_candidate:
  assumes "ensured uid targets d d'" and "candidate_target now c \<in> set targets"
  shows "\<exists>t\<in>set (tombstones d'). t_object_key t = tc_ObjectKey c"
  using ensured_covers [OF assms] by (force simp: candidate_target_def)

lemma terminal_targets_staging:
  "staging_target (u_staging_key u) (u_max_write_expires_at u) \<in> set (terminal_targets u now d k)"
  by (simp add: terminal_targets_def set_terminalTombstones parent_of_def)

lemma terminal_targets_candidate:
  "c \<in> set (candidates d) \<Longrightarrow> c_upload_id c = u_upload_id u \<Longrightarrow> c_object_key c \<noteq> k \<Longrightarrow>
     candidate_target now (candidate_of_row c) \<in> set (terminal_targets u now d k)"
  by (auto simp: terminal_targets_def set_terminalTombstones parent_of_def candidate_of_row_def)

lemma terminal_targets_keys:
  assumes "tables_ok d" and "u \<in> set (uploads d)" and "k = candidate_key_of uid sha"
  shows "k \<notin> tt_ObjectKey ` set (terminal_targets u now d k)"
proof -
  have "u_staging_key u = staging_key_of (u_upload_id u)"
    using assms(1,2) by (simp add: tables_ok_def upload_ok_def)
  then show ?thesis
    using assms(3) by (auto simp: terminal_targets_def set_terminalTombstones parent_of_def
        staging_target_def candidate_target_def)
qed

text \<open>Recording the duties first, then moving the row: the three transitions out of \<^verbatim>\<open>finalizing\<close>.\<close>

lemma settled_after_duties:
  assumes inv: "db_inv d" and u: "u \<in> set (uploads d)" "u_upload_id u = uid"
    and dut: "ensured uid targets d d1" and upd: "update_uploads p f d1 = Inr (1, d')"
    and p: "\<And>v. p v \<Longrightarrow> u_upload_id v = uid"
  shows "settled_db u (f u) (tt_ObjectKey ` set targets) d d'" and "upload_ok (f u)"
proof -
  have tabs: "tables_ok d" using inv by (simp add: db_inv_def)
  from ensured_appends [OF dut] obtain new where
    d1: "d1 = d\<lparr>tombstones := tombstones d @ new\<rparr>"
    and new: "\<forall>t\<in>set new. tombstone_for uid (tt_ObjectKey ` set targets) d t"
      "distinct (map t_object_key new)"
      "t_object_key ` set new \<inter> t_object_key ` set (tombstones d) = {}"
    unfolding appended_tombstones_def by blast
  have only: "v = u" if "v \<in> set (uploads d)" "u_upload_id v = uid" for v
    using unique_upload [OF tabs that(1) u(1)] that(2) u(2) by simp
  have "length (filter p (uploads d)) = 1"
    using update_uploads_Inr(1) [OF upd] by (simp add: d1)
  then obtain v where "v \<in> set (uploads d)" "p v"
    by (metis filter_empty_conv length_0_conv zero_neq_one)
  then have pu: "p u" using only p by blast
  then show "upload_ok (f u)"
    using update_uploads_Inr(3) [OF upd, of u] u(1) by (simp add: d1)
  have "map (patched p f) (uploads d) =
      map (\<lambda>v. if u_upload_id v = u_upload_id u then f u else v) (uploads d)"
    using only p pu u(2) by (auto simp: patched_def)
  then show "settled_db u (f u) (tt_ObjectKey ` set targets) d d'"
    unfolding settled_db_def using new u(2) update_uploads_patched [OF upd]
    by (intro exI [of _ new]) (simp add: d1)
qed

lemma settled_duty:
  assumes dut: "ensured (u_upload_id u) (terminal_targets u now d k) d d1"
    and upd: "update_uploads p f d1 = Inr (1, d')"
    and same: "u_upload_id (f u) = u_upload_id u" "u_staging_key (f u) = u_staging_key u"
      "u_max_write_expires_at (f u) = u_max_write_expires_at u"
    and final: "u_final_key (f u) = (if k = '''' then None else Some k)"
    and keys: "\<And>c. c \<in> set (candidates d) \<Longrightarrow> c_object_key c \<noteq> ''''"
  shows "duty_for (f u) d'"
proof -
  have ts: "tombstones d' = tombstones d1" "candidates d' = candidates d1"
    using update_uploads_patched [OF upd] by simp_all
  have cs: "candidates d1 = candidates d"
    by (rule appended_tombstones_frame(2) [OF ensured_appends [OF dut]])
  have "\<exists>t\<in>set (tombstones d1). t_object_key t = u_staging_key u \<and>
      u_max_write_expires_at u \<le> t_delete_not_before t"
    by (rule covered_staging [OF dut terminal_targets_staging])
  moreover have "\<exists>t\<in>set (tombstones d1). t_object_key t = c_object_key c"
    if "c \<in> set (candidates d)" "c_upload_id c = u_upload_id u" "u_final_key (f u) \<noteq> Some (c_object_key c)" for c
  proof -
    have "c_object_key c \<noteq> k" using that(3) final keys [OF that(1)] by (auto split: if_splits)
    from covered_candidate [OF dut terminal_targets_candidate [OF that(1,2) this]]
    show ?thesis by (simp add: candidate_of_row_def)
  qed
  ultimately show ?thesis by (simp add: duty_for_def ts cs same)
qed

lemma insert_upload_inv:
  assumes inv: "db_inv d" and ins: "insert_upload r d = Inr (1, d')" and open_row: "\<not> terminal (u_state r)"
  shows "db_inv d'"
proof -
  from insert_upload_Inr [OF ins] have d': "d' = d\<lparr>uploads := uploads d @ [r]\<rparr>" and ok: "upload_ok r"
    and fresh: "u_idempotency_key r \<notin> u_idempotency_key ` set (uploads d)"
      "u_upload_id r \<notin> u_upload_id ` set (uploads d)" by auto
  have no_key: "u_final_key r = None" by (rule open_no_final_key [OF ok open_row])
  have tabs: "tables_ok d" using inv by (simp add: db_inv_def)
  then have "tables_ok d'" using ok fresh by (auto simp: tables_ok_def d')
  moreover have "tombstones_fenced d'"
    using inv tabs fresh(2) by (auto simp: db_inv_def tombstones_fenced_def tables_ok_def d')
  moreover have "final_candidates_ok d'"
    using inv no_key by (auto simp: db_inv_def final_candidates_ok_def d')
  moreover have "duties_recorded d'"
    using inv open_row by (auto simp: db_inv_def duties_recorded_def duty_for_def d')
  moreover have "pending_bare d'"
    using inv tabs fresh(2) by (auto simp: db_inv_def pending_bare_def tables_ok_def d')
  ultimately show ?thesis by (simp add: db_inv_def)
qed

lemma insert_candidate_inv:
  assumes inv: "db_inv d" and ins: "insert_candidate c d = Inr (n, d')"
    and u: "u \<in> set (uploads d)" "u_upload_id u = c_upload_id c" "u_state u = Finalizing"
  shows "db_inv d'"
proof (cases "d' = d")
  case False
  with insert_candidate_Inr [OF ins] have d': "d' = d\<lparr>candidates := candidates d @ [c]\<rparr>"
    and ok: "candidate_ok c" and parent: "c_upload_id c \<in> u_upload_id ` set (uploads d)"
    and fresh: "\<forall>r\<in>set (candidates d). (c_upload_id r, c_sha256 r) \<noteq> (c_upload_id c, c_sha256 c)"
    by auto
  have tabs: "tables_ok d" using inv by (simp add: db_inv_def)
  have only: "v = u" if "v \<in> set (uploads d)" "u_upload_id v = c_upload_id c" for v
    using unique_upload [OF tabs that(1) u(1)] that(2) u(2) by simp
  have "tables_ok d'"
    using tabs ok parent fresh by (auto simp: tables_ok_def d')
  moreover have "final_candidates_ok d'"
    using inv by (auto simp: db_inv_def final_candidates_ok_def d')
  moreover have "tombstones_fenced d'"
    using inv by (auto simp: db_inv_def tombstones_fenced_def d')
  moreover have "duties_recorded d'"
    unfolding duties_recorded_def
  proof (intro ballI impI)
    fix v assume v: "v \<in> set (uploads d')" and closed: "terminal (u_state v)"
    then have "duty_for v d" using inv by (simp add: db_inv_def duties_recorded_def d')
    moreover have "u_upload_id v \<noteq> c_upload_id c"
      using only [of v] v closed u(3) by (auto simp: d')
    ultimately show "duty_for v d'" by (auto simp: duty_for_def d')
  qed
  moreover have "pending_bare d'"
    using inv only u(3) by (auto simp: db_inv_def pending_bare_def d')
  ultimately show ?thesis by (simp add: db_inv_def)
qed (simp add: inv)

definition keeps_duty :: "(tombstone_row \<Rightarrow> tombstone_row) \<Rightarrow> bool" where
  "keeps_duty f = (\<forall>t. t_object_key (f t) = t_object_key t \<and> t_upload_id (f t) = t_upload_id t \<and>
     t_candidate_sha256 (f t) = t_candidate_sha256 t \<and> t_created_at (f t) = t_created_at t \<and>
     t_delete_not_before (f t) = t_delete_not_before t)"

lemma update_tombstones_inv:
  assumes inv: "db_inv d" and upd: "update_tombstones p f d = Inr (n, d')" and keeps: "keeps_duty f"
  shows "db_inv d'"
proof -
  let ?g = "\<lambda>t. if p t then f t else t"
  have g: "t_object_key (?g t) = t_object_key t" "t_upload_id (?g t) = t_upload_id t"
    "t_candidate_sha256 (?g t) = t_candidate_sha256 t" "t_delete_not_before (?g t) = t_delete_not_before t" for t
    using keeps by (auto simp: keeps_duty_def)
  note d' = update_tombstones_Inr(2) [OF upd]
  have "\<forall>t\<in>set (tombstones d'). tombstone_ok t"
    using inv update_tombstones_Inr(3) [OF upd] by (auto simp: d' db_inv_def tables_ok_def)
  moreover have keys: "map t_object_key (tombstones d') = map t_object_key (tombstones d)"
    using g(1) by (simp add: d')
  ultimately have "tables_ok d'"
    using inv keeps unfolding db_inv_def tables_ok_def keys keeps_duty_def by (auto simp: d')
  moreover have "final_candidates_ok d'"
    using inv by (simp add: db_inv_def final_candidates_ok_def d')
  moreover have "tombstones_fenced d'"
    using inv keeps unfolding db_inv_def tombstones_fenced_def keeps_duty_def by (auto simp: d')
  moreover have ex: "(\<exists>t\<in>set (tombstones d'). Q t) \<longleftrightarrow> (\<exists>t\<in>set (tombstones d). Q (?g t))" for Q
    by (auto simp: d')
  have "duty_for u d' = duty_for u d" for u
    unfolding duty_for_def ex g by (simp add: d')
  then have "duties_recorded d'"
    using inv by (simp add: db_inv_def duties_recorded_def d')
  moreover have "pending_bare d'"
    using inv by (simp add: db_inv_def pending_bare_def d')
  ultimately show ?thesis by (simp add: db_inv_def)
qed

lemma expire_pending_inv:
  assumes inv: "db_inv d" and u: "u \<in> set (uploads d)" "u_state u = Pending"
    and upd: "sql_expire_pending (u_upload_id u) now d = Inr (1, d1)"
    and dut: "ensured (u_upload_id u) [staging_target (u_staging_key u) (u_max_write_expires_at u)] d1 d'"
  shows "db_inv d'"
proof -
  let ?p = "\<lambda>v. u_upload_id v = u_upload_id u \<and> u_state v = Pending \<and> u_upload_deadline v \<le> now"
  let ?f = "\<lambda>v. v\<lparr>u_state := Expired, u_terminal_at := Some now,
              u_expiry_reason := Some ''upload_deadline_elapsed''\<rparr>"
  let ?keys = "{u_staging_key u}"
  have tabs: "tables_ok d" using inv by (simp add: db_inv_def)
  have upd': "update_uploads ?p ?f d = Inr (1, d1)"
    using upd by (simp add: sql_expire_pending_def)
  note d1 = update_uploads_patched [OF upd']
  have ids: "keeps_identity ?p ?f d" by (simp add: keeps_identity_def)
  from ensured_appends [OF dut] obtain new where
    d': "d' = d1\<lparr>tombstones := tombstones d1 @ new\<rparr>"
    and new: "\<forall>t\<in>set new. tombstone_for (u_upload_id u) ?keys d1 t" "distinct (map t_object_key new)"
      "t_object_key ` set new \<inter> t_object_key ` set (tombstones d1) = {}"
    unfolding appended_tombstones_def by (auto simp: staging_target_def)
  have only: "v = u" if "v \<in> set (uploads d)" "u_upload_id v = u_upload_id u" for v
    using unique_upload [OF tabs that(1) u(1)] that(2) by simp
  have "length (filter ?p (uploads d)) = 1"
    using update_uploads_Inr(1) [OF upd'] by simp
  then obtain v where "v \<in> set (uploads d)" "?p v"
    by (metis (mono_tags, lifting) filter_empty_conv length_0_conv zero_neq_one)
  then have pu: "?p u" using only by blast
  have maps: "map (patched ?p ?f) (uploads d) =
      map (\<lambda>v. if u_upload_id v = u_upload_id u then ?f u else v) (uploads d)"
    using only pu by (auto simp: patched_def)
  have "\<forall>t\<in>set new. tombstone_for (u_upload_id u) ?keys d t"
    using new(1) patched_id_image [OF ids] by (simp add: tombstone_for_def d1)
  then have settled: "settled_db u (?f u) ?keys d d'"
    unfolding settled_db_def using new(2,3) maps by (intro exI [of _ new]) (simp add: d' d1)
  have ok: "upload_ok (?f u)" using update_uploads_Inr(3) [OF upd' u(1) pu] .
  have no_key: "u_final_key u = None"
    using tabs u open_no_final_key [of u] by (simp add: tables_ok_def)
  have "c_upload_id c \<noteq> u_upload_id u" if "c \<in> set (candidates d)" for c
    using inv u that by (auto simp: db_inv_def pending_bare_def)
  then have duty: "duty_for (?f u) d'"
    using covered_staging [OF dut, of "u_staging_key u" "u_max_write_expires_at u"]
    by (simp add: duty_for_def d' d1)
  show ?thesis
    by (rule settle_inv [OF inv u(1) _ _ _ ok _ _ duty settled]) (simp_all add: u(2) no_key)
qed

lemma candidate_key_nonempty: "tables_ok d \<Longrightarrow> c \<in> set (candidates d) \<Longrightarrow> c_object_key c \<noteq> ''''"
  by (auto simp: tables_ok_def candidate_ok_def candidate_key_of_def)

text \<open>The three transitions out of \<^verbatim>\<open>finalizing\<close>, for any row function that moves the claimed row.\<close>

lemma finalize_inv:
  assumes inv: "db_inv d" and u: "find_claimed uid token d = Some u"
    and dut: "ensured uid (terminal_targets u now d k) d d1" and upd: "update_uploads p f d1 = Inr (1, d')"
    and p: "\<And>v. p v \<Longrightarrow> u_upload_id v = uid"
    and same: "u_upload_id (f u) = u_upload_id u" "u_staging_key (f u) = u_staging_key u"
      "u_idempotency_key (f u) = u_idempotency_key u"
      "u_max_write_expires_at (f u) = u_max_write_expires_at u"
    and closed: "terminal (u_state (f u))"
    and final: "u_final_key (f u) = (if k = '''' then None else Some k)"
    and k: "k = '''' \<or> (\<exists>c\<in>set (candidates d). c_upload_id c = uid \<and> c_object_key c = k)"
  shows "db_inv d'"
proof -
  note row = find_claimed_SomeD [OF u]
  have tabs: "tables_ok d" using inv by (simp add: db_inv_def)
  have dut': "ensured (u_upload_id u) (terminal_targets u now d k) d d1"
    using dut row by simp
  note settled = settled_after_duties [OF inv _ _ dut upd p, of u]
  have sdb: "settled_db u (f u) (tt_ObjectKey ` set (terminal_targets u now d k)) d d'"
    and ok: "upload_ok (f u)" using settled row by auto
  have duty: "duty_for (f u) d'"
    by (rule settled_duty [OF dut' upd same(1,2,4) final candidate_key_nonempty [OF tabs]])
  have key: "k' \<notin> tt_ObjectKey ` set (terminal_targets u now d k) \<and>
      (\<exists>c\<in>set (candidates d). c_upload_id c = u_upload_id u \<and> c_object_key c = k')"
    if "u_final_key (f u) = Some k'" for k'
  proof -
    have "k' = k" "k \<noteq> ''''" using that final by (auto split: if_splits)
    with k obtain c where c: "c \<in> set (candidates d)" "c_upload_id c = uid" "c_object_key c = k" by auto
    then have "k = candidate_key_of (c_upload_id c) (c_sha256 c)"
      using tabs by (auto simp: tables_ok_def candidate_ok_def)
    then show ?thesis
      using terminal_targets_keys [OF tabs, of u k] row c \<open>k' = k\<close> by blast
  qed
  show ?thesis
    by (rule settle_inv [OF inv _ _ same(1,3) ok closed key duty sdb]) (use row in auto)
qed

lemma ready_inv:
  assumes "db_inv d" and "find_claimed uid token d = Some u" and "sel \<in> set (candidates_of uid d)"
    and "ensured uid (terminal_targets u now d (c_object_key sel)) d d1"
    and "sql_ready uid token now (c_object_key sel) d1 = Inr (1, d')"
  shows "db_inv d'"
proof (rule finalize_inv [OF assms(1,2,4) assms(5) [unfolded sql_ready_def]])
  show "c_object_key sel = '''' \<or> (\<exists>c\<in>set (candidates d). c_upload_id c = uid \<and> c_object_key c = c_object_key sel)"
    using assms(3) by auto
  have "c_object_key sel \<noteq> ''''"
    using assms(1,3) candidate_key_nonempty [of d sel] by (simp add: db_inv_def)
  then show "u_final_key ((settle Ready now u)\<lparr>u_final_key := Some (c_object_key sel)\<rparr>) =
      (if c_object_key sel = '''' then None else Some (c_object_key sel))" by simp
qed (simp_all add: settle_def)

lemma rejected_inv:
  assumes "db_inv d" and "find_claimed uid token d = Some u"
    and "ensured uid (terminal_targets u now d '''') d d1"
    and "sql_rejected uid token now cls reason phase ev d1 = Inr (1, d')"
  shows "db_inv d'"
proof (rule finalize_inv [OF assms(1-3) assms(4) [unfolded sql_rejected_def]])
  have "u_final_key u = None"
    using assms(1) find_claimed_SomeD [OF assms(2)] open_no_final_key [of u]
    by (simp add: db_inv_def tables_ok_def)
  then show "u_final_key ((settle Rejected now u)\<lparr>u_rejection_class := Some cls,
      u_rejection_reason := Some reason, u_rejection_policy_version := Some 1,
      u_rejection_phase := Some phase, u_rejection_evidence := Some ev\<rparr>) =
      (if '''' = '''' then None else Some '''')" by (simp add: settle_def)
qed (simp_all add: settle_def)

lemma expire_missing_inv:
  assumes "db_inv d" and "find_claimed uid token d = Some u"
    and "ensured uid (terminal_targets u now d '''') d d1"
    and "sql_expire_missing uid token now horizon d1 = Inr (1, d')"
  shows "db_inv d'"
proof (rule finalize_inv [OF assms(1-3) assms(4) [unfolded sql_expire_missing_def]])
  have "u_final_key u = None"
    using assms(1) find_claimed_SomeD [OF assms(2)] open_no_final_key [of u]
    by (simp add: db_inv_def tables_ok_def)
  then show "u_final_key ((settle Expired now u)
      \<lparr>u_expiry_reason := Some ''staging_missing_after_write_window''\<rparr>) =
      (if '''' = '''' then None else Some '''')" by (simp add: settle_def)
qed (simp_all add: settle_def)

lemma raise_horizon_inv:
  assumes "db_inv d" and u: "u \<in> set (uploads d)" "u_state u \<in> {Pending, Finalizing}"
    and upd: "sql_raise_horizon (u_upload_id u) expiresAt d = Inr (n, d')"
  shows "db_inv d'"
proof (rule open_update_inv [OF assms(1) upd [unfolded sql_raise_horizon_def]])
  fix v assume "v \<in> set (uploads d)" and "u_upload_id v = u_upload_id u"
  then have "v = u"
    using unique_upload [of d v u] u(1) assms(1) by (simp add: db_inv_def)
  with u(2) show "\<not> terminal (u_state v) \<and>
      \<not> terminal (u_state (v\<lparr>u_max_write_expires_at := max (u_max_write_expires_at v) (timestamptz expiresAt)\<rparr>)) \<and>
      (u_state (v\<lparr>u_max_write_expires_at := max (u_max_write_expires_at v) (timestamptz expiresAt)\<rparr>) = Pending
        \<longrightarrow> u_state v = Pending)"
    by auto
qed (simp add: keeps_identity_def)

text \<open>The statements that keep an open upload open, and those on the duties.\<close>

lemma statement_inv:
  "sql_complete_pending uid now d = Inr (n, d') \<Longrightarrow> db_inv d \<Longrightarrow> db_inv d'"
  "sql_poke_finalizing uid now d = Inr (n, d') \<Longrightarrow> db_inv d \<Longrightarrow> db_inv d'"
  "sql_claim uid token expiresAt d = Inr (n, d') \<Longrightarrow> db_inv d \<Longrightarrow> db_inv d'"
  "sql_renew uid token expiresAt d = Inr (n, d') \<Longrightarrow> db_inv d \<Longrightarrow> db_inv d'"
  "sql_retry uid token nextAttempt streak errorClass now d = Inr (n, d') \<Longrightarrow> db_inv d \<Longrightarrow> db_inv d'"
  unfolding sql_update_defs by (rule open_update_inv, assumption, assumption, (auto simp: keeps_identity_def)[2])+

lemma duty_statement_inv:
  "sql_reserve key token expiresAt now d = Inr (n, d') \<Longrightarrow> db_inv d \<Longrightarrow> db_inv d'"
  "sql_cleanup_result key token nextAttempt streak lastAttempt result d = Inr (n, d') \<Longrightarrow> db_inv d \<Longrightarrow> db_inv d'"
  unfolding sql_reserve_def sql_cleanup_result_def
  by (rule update_tombstones_inv, assumption, assumption, (simp add: keeps_duty_def)[1])+

lemmas step_invs = insert_upload_inv raise_horizon_inv expire_pending_inv ready_inv rejected_inv expire_missing_inv
  statement_inv duty_statement_inv

lemma db_step_inv: "db_step d d' \<Longrightarrow> db_inv d \<Longrightarrow> db_inv d'"
proof (induction rule: db_step.induct)
  case (create uid key declaredSize ctype expiresAt now d d')
  then show ?case by (auto intro: insert_upload_inv simp: new_upload_row_def)
next
  case (register uid token d u now c n d')
  from find_claimed_SomeD [OF register(1)] register(3)
  show ?case by (intro insert_candidate_inv [OF register(5,4), of u]) auto
qed (blast intro: step_invs)+


end
