(* ===== verification/Lifecycle.thy ===== *)
theory Lifecycle
  imports Protocol
begin

section \<open>The abstract lifecycle\<close>

text \<open>
  The specification of what callers may rely on across time, whatever transactions commit in
  between: the relation \<open>evolves\<close> between an earlier and a later database.  An upload's identity,
  declaration and deadline are fixed, its state moves only along
  \<^verbatim>\<open>pending -> finalizing -> ready | rejected | expired\<close> and \<^verbatim>\<open>pending -> expired\<close>, a terminal row
  never changes again, the write horizon never shrinks, and candidates and cleanup duties are
  permanent.  The locale \<open>transition_system\<close> is the contract of a step relation with an invariant
  and such a guarantee; it is interpreted by the committed transactions of the service.
\<close>

subsection \<open>Runs of a step relation\<close>

locale transition_system = guarantee rely
  for rely :: "'s \<Rightarrow> 's \<Rightarrow> bool" +
  fixes step :: "'s \<Rightarrow> 's \<Rightarrow> bool"
    and init :: 's
    and inv :: "'s \<Rightarrow> bool"
  assumes inv_init: "inv init"
    and inv_step: "step s t \<Longrightarrow> inv s \<Longrightarrow> inv t"
    and rely_step: "step s t \<Longrightarrow> inv s \<Longrightarrow> rely s t"
begin

lemma steps_keep: "step\<^sup>*\<^sup>* s t \<Longrightarrow> inv s \<Longrightarrow> inv t \<and> rely s t"
  by (rule steps) (blast intro: inv_step rely_step)+

lemmas steps_inv = steps_keep [THEN conjunct1]
lemmas steps_rely = steps_keep [THEN conjunct2]

lemma from_init_inv: "step\<^sup>*\<^sup>* init s \<Longrightarrow> inv s"
  by (rule steps_inv [OF _ inv_init])

lemma from_init_rely: "step\<^sup>*\<^sup>* init s \<Longrightarrow> step\<^sup>*\<^sup>* s t \<Longrightarrow> rely s t"
  by (rule steps_rely [OF _ from_init_inv])

end

subsection \<open>The guarantee\<close>

text \<open>The states of an upload, in the order in which it can take them.\<close>

instantiation upload_state :: order
begin

definition less_eq_upload_state :: "upload_state \<Rightarrow> upload_state \<Rightarrow> bool" where
  "s \<le> s' \<longleftrightarrow> s' = s \<or> (s = Pending \<and> (s' = Finalizing \<or> terminal s')) \<or> (s = Finalizing \<and> terminal s')"

definition less_upload_state :: "upload_state \<Rightarrow> upload_state \<Rightarrow> bool" where
  "s < s' \<longleftrightarrow> s \<le> s' \<and> \<not> s' \<le> (s :: upload_state)"

instance
  by standard (auto simp: less_eq_upload_state_def less_upload_state_def terminal_def)

end

lemma state_order [simp]:
  "Pending \<le> Finalizing" "terminal s \<Longrightarrow> Pending \<le> s" "terminal s \<Longrightarrow> Finalizing \<le> s"
  by (simp_all add: less_eq_upload_state_def)

lemma terminal_le [simp]: "terminal s \<Longrightarrow> s \<le> s' \<longleftrightarrow> s' = s"
  by (auto simp: less_eq_upload_state_def terminal_def)

definition row_evolves :: "upload_row \<Rightarrow> upload_row \<Rightarrow> bool" where
  "row_evolves u u' =
     (u_upload_id u' = u_upload_id u \<and> u_idempotency_key u' = u_idempotency_key u \<and>
      u_staging_key u' = u_staging_key u \<and> u_declared_size u' = u_declared_size u \<and>
      u_declared_content_type u' = u_declared_content_type u \<and>
      u_created_at u' = u_created_at u \<and> u_upload_deadline u' = u_upload_deadline u \<and>
      u_max_write_expires_at u \<le> u_max_write_expires_at u' \<and>
      u_state u \<le> u_state u' \<and>
      (terminal (u_state u) \<longrightarrow> u' = u))"

definition tombstone_evolves :: "tombstone_row \<Rightarrow> tombstone_row \<Rightarrow> bool" where
  "tombstone_evolves t t' =
     (t_object_key t' = t_object_key t \<and> t_upload_id t' = t_upload_id t \<and>
      t_candidate_sha256 t' = t_candidate_sha256 t \<and> t_created_at t' = t_created_at t \<and>
      t_delete_not_before t' = t_delete_not_before t)"

definition evolves :: "db \<Rightarrow> db \<Rightarrow> bool" where
  "evolves d d' =
     ((\<forall>u\<in>set (uploads d). \<exists>u'\<in>set (uploads d'). row_evolves u u') \<and>
      set (candidates d) \<subseteq> set (candidates d') \<and>
      (\<forall>t\<in>set (tombstones d). \<exists>t'\<in>set (tombstones d'). tombstone_evolves t t'))"

lemma row_evolves_refl: "row_evolves u u"
  by (simp add: row_evolves_def less_eq_upload_state_def)

lemma row_evolves_trans: "row_evolves u v \<Longrightarrow> row_evolves v w \<Longrightarrow> row_evolves u w"
  unfolding row_evolves_def by auto

lemma tombstone_evolves_refl: "tombstone_evolves t t"
  by (simp add: tombstone_evolves_def)

lemma tombstone_evolves_trans:
  "tombstone_evolves s t \<Longrightarrow> tombstone_evolves t r \<Longrightarrow> tombstone_evolves s r"
  by (simp add: tombstone_evolves_def)

lemma evolves_refl: "evolves d d"
  using row_evolves_refl tombstone_evolves_refl by (auto simp: evolves_def)

lemma evolves_trans: "evolves c d \<Longrightarrow> evolves d e \<Longrightarrow> evolves c e"
  unfolding evolves_def by (meson row_evolves_trans tombstone_evolves_trans subset_trans)

subsection \<open>Each statement keeps the guarantee\<close>

lemma update_evolves:
  assumes "update_uploads p f d = Inr (n, d')"
    and "\<And>u. u \<in> set (uploads d) \<Longrightarrow> p u \<Longrightarrow> row_evolves u (f u)"
  shows "evolves d d'"
proof -
  have d': "d' = d\<lparr>uploads := map (patched p f) (uploads d)\<rparr>"
    by (rule update_uploads_patched [OF assms(1)])
  have "row_evolves u (patched p f u)" if "u \<in> set (uploads d)" for u
    using assms(2) [OF that] row_evolves_refl by (simp add: patched_def)
  then show ?thesis
    using tombstone_evolves_refl by (auto simp: evolves_def d')
qed

lemma grown_evolves:
  assumes "set (uploads d) \<subseteq> set (uploads d')"
    and "set (candidates d) \<subseteq> set (candidates d')"
    and "set (tombstones d) \<subseteq> set (tombstones d')"
  shows "evolves d d'"
  unfolding evolves_def
proof (intro conjI ballI)
  fix u assume "u \<in> set (uploads d)"
  with assms(1) have "u \<in> set (uploads d')" by blast
  with row_evolves_refl show "\<exists>u'\<in>set (uploads d'). row_evolves u u'" by (rule bexI)
next
  fix t assume "t \<in> set (tombstones d)"
  with assms(3) have "t \<in> set (tombstones d')" by blast
  with tombstone_evolves_refl show "\<exists>t'\<in>set (tombstones d'). tombstone_evolves t t'"
    by (rule bexI)
qed (rule assms(2))

lemma appended_evolves: "appended_tombstones uid keys d d' \<Longrightarrow> evolves d d'"
  by (rule grown_evolves) (auto simp: appended_tombstones_def)

lemma ensured_evolves: "ensured uid targets d d' \<Longrightarrow> evolves d d'"
  by (rule appended_evolves [OF ensured_appends])

lemma tombstone_update_evolves:
  assumes "update_tombstones p f d = Inr (n, d')" and "keeps_duty f"
  shows "evolves d d'"
proof -
  note d' = update_tombstones_Inr(2) [OF assms(1)]
  have moved: "tombstone_evolves t (if p t then f t else t)" for t
    using assms(2) by (simp add: keeps_duty_def tombstone_evolves_def)
  show ?thesis
    unfolding evolves_def
  proof (intro conjI ballI)
    fix t assume "t \<in> set (tombstones d)"
    then have "(if p t then f t else t) \<in> set (tombstones d')" by (simp add: d')
    with moved show "\<exists>t'\<in>set (tombstones d'). tombstone_evolves t t'" by (rule bexI)
  next
    fix u assume "u \<in> set (uploads d)"
    then have "u \<in> set (uploads d')" by (simp add: d')
    with row_evolves_refl show "\<exists>u'\<in>set (uploads d'). row_evolves u u'" by (rule bexI)
  qed (simp add: d')
qed

lemma insert_upload_evolves: "insert_upload r d = Inr (n, d') \<Longrightarrow> evolves d d'"
  by (drule insert_upload_Inr, rule grown_evolves) auto

lemma insert_candidate_evolves: "insert_candidate c d = Inr (n, d') \<Longrightarrow> evolves d d'"
  by (drule insert_candidate_Inr, rule grown_evolves) auto

lemma raise_horizon_evolves:
  assumes inv: "db_inv d" and u: "u \<in> set (uploads d)" "u_state u \<in> {Pending, Finalizing}"
    and upd: "sql_raise_horizon (u_upload_id u) expiresAt d = Inr (n, d')"
  shows "evolves d d'"
proof (rule update_evolves [OF upd [unfolded sql_raise_horizon_def]])
  fix v assume "v \<in> set (uploads d)" and "u_upload_id v = u_upload_id u"
  then have "v = u" using unique_upload [of d v u] u(1) inv by (simp add: db_inv_def)
  with u(2) show "row_evolves v
      (v\<lparr>u_max_write_expires_at := max (u_max_write_expires_at v) (timestamptz expiresAt)\<rparr>)"
    by (auto simp: row_evolves_def less_eq_upload_state_def)
qed

lemma statement_evolves:
  "sql_complete_pending uid now d = Inr (n, d') \<Longrightarrow> evolves d d'"
  "sql_poke_finalizing uid now d = Inr (n, d') \<Longrightarrow> evolves d d'"
  "sql_claim uid token expiresAt d = Inr (n, d') \<Longrightarrow> evolves d d'"
  "sql_renew uid token expiresAt d = Inr (n, d') \<Longrightarrow> evolves d d'"
  "sql_retry uid token nextAttempt streak errorClass now d = Inr (n, d') \<Longrightarrow> evolves d d'"
  "sql_ready uid token now key d = Inr (n, d') \<Longrightarrow> evolves d d'"
  "sql_rejected uid token now cls reason phase ev d = Inr (n, d') \<Longrightarrow> evolves d d'"
  "sql_expire_missing uid token now horizon d = Inr (n, d') \<Longrightarrow> evolves d d'"
  "sql_expire_pending uid now d = Inr (n, d') \<Longrightarrow> evolves d d'"
  unfolding sql_update_defs by (erule update_evolves; simp add: row_evolves_def less_eq_upload_state_def)+

lemma duty_statement_evolves:
  "sql_reserve key token expiresAt now d = Inr (n, d') \<Longrightarrow> evolves d d'"
  "sql_cleanup_result key token nextAttempt streak lastAttempt result d = Inr (n, d') \<Longrightarrow> evolves d d'"
  unfolding sql_reserve_def sql_cleanup_result_def by (erule tombstone_update_evolves; simp add: keeps_duty_def)+

lemma db_step_evolves: "db_step d d' \<Longrightarrow> db_inv d \<Longrightarrow> evolves d d'"
  by (induction rule: db_step.induct)
     (blast intro: insert_upload_evolves raise_horizon_evolves insert_candidate_evolves ensured_evolves
        statement_evolves duty_statement_evolves evolves_trans)+

interpretation store: transition_system evolves db_step empty_db db_inv
proof unfold_locales
  show "db_inv empty_db" by (rule db_inv_empty)
qed (blast intro: db_step_inv evolves_refl evolves_trans db_step_evolves)+

lemma reachable_db_inv: "reachable d \<Longrightarrow> db_inv d"
  unfolding reachable_def by (rule store.from_init_inv)

lemma reachable_evolves: "reachable d \<Longrightarrow> db_steps d d' \<Longrightarrow> evolves d d'"
  unfolding reachable_def by (rule store.from_init_rely)

lemma reachable_steps: "reachable d \<Longrightarrow> db_steps d d' \<Longrightarrow> reachable d'"
  unfolding reachable_def by (rule rtranclp_trans)

subsection \<open>What no transaction takes away\<close>

text \<open>Candidates and the keys of cleanup duties only accumulate, whatever the tables hold.\<close>

definition keeps_keys :: "db \<Rightarrow> db \<Rightarrow> bool" where
  "keeps_keys d d' =
     (set (candidates d) \<subseteq> set (candidates d') \<and>
      t_object_key ` set (tombstones d) \<subseteq> t_object_key ` set (tombstones d'))"

lemma keeps_keys_trans: "keeps_keys c d \<Longrightarrow> keeps_keys d e \<Longrightarrow> keeps_keys c e"
  unfolding keeps_keys_def by (meson subset_trans)

lemma update_keeps_keys: "update_uploads p f d = Inr (n, d') \<Longrightarrow> keeps_keys d d'"
  by (drule update_uploads_patched) (simp add: keeps_keys_def)

lemma ensured_keeps_keys: "ensured uid targets d d' \<Longrightarrow> keeps_keys d d'"
  by (drule ensured_appends) (auto simp: keeps_keys_def appended_tombstones_def)

lemma tombstone_update_keeps_keys:
  assumes "update_tombstones p f d = Inr (n, d')" and "\<And>t. t_object_key (f t) = t_object_key t"
  shows "keeps_keys d d'"
proof -
  have "map t_object_key (tombstones d') = map t_object_key (tombstones d)"
    using assms(2) by (simp add: update_tombstones_Inr(2) [OF assms(1)])
  then have "t_object_key ` set (tombstones d') = t_object_key ` set (tombstones d)"
    by (metis set_map)
  then show ?thesis
    by (simp add: keeps_keys_def update_tombstones_Inr(2) [OF assms(1)])
qed

lemma db_step_keeps_keys: "db_step d d' \<Longrightarrow> keeps_keys d d'"
proof (induction rule: db_step.induct)
  case create
  then show ?case by (auto dest!: insert_upload_Inr simp: keeps_keys_def)
next
  case register
  then show ?case by (auto dest!: insert_candidate_Inr simp: keeps_keys_def)
next
  case (expire_pending u d now d1 d')
  then show ?case
    unfolding sql_expire_pending_def by (blast intro: keeps_keys_trans update_keeps_keys ensured_keeps_keys)
next
  case ready
  then show ?case
    unfolding sql_ready_def by (blast intro: keeps_keys_trans update_keeps_keys ensured_keeps_keys)
next
  case rejected
  then show ?case
    unfolding sql_rejected_def by (blast intro: keeps_keys_trans update_keeps_keys ensured_keeps_keys)
next
  case expire_missing
  then show ?case
    unfolding sql_expire_missing_def by (blast intro: keeps_keys_trans update_keeps_keys ensured_keeps_keys)
next
  case reserve
  then show ?case
    unfolding sql_reserve_def by - (erule tombstone_update_keeps_keys, simp)
next
  case cleanup_result
  then show ?case
    unfolding sql_cleanup_result_def by - (erule tombstone_update_keeps_keys, simp)
qed (auto dest: update_keeps_keys simp: sql_raise_horizon_def sql_complete_pending_def
       sql_poke_finalizing_def sql_claim_def sql_renew_def sql_retry_def)

lemma db_steps_keep_keys: "db_steps d d' \<Longrightarrow> keeps_keys d d'"
proof (induction rule: rtranclp_induct)
  case base
  show ?case by (simp add: keeps_keys_def)
qed (blast intro: keeps_keys_trans db_step_keeps_keys)

subsection \<open>Reservations are taken when due\<close>

text \<open>A reserved duty was due when it was reserved, by its earliest date and by its schedule: its lease ends a
  whole lease after both.\<close>

definition reservations_due :: "db \<Rightarrow> bool" where
  "reservations_due d =
     (\<forall>t\<in>set (tombstones d). \<forall>e. t_reservation_expires_at t = Some e \<longrightarrow>
        t_delete_not_before t + cleanupReservationLease \<le> e \<and> t_next_attempt_at t + cleanupReservationLease \<le> e)"

lemma lease_whole: "timestamptz now = now \<Longrightarrow>
    timestamptz (now + cleanupReservationLease) = now + cleanupReservationLease"
  using timestamptz_add [of now cleanupReservationLease]
  by (simp add: cleanupReservationLease_def timestamptz_def)

lemma update_reservations_due:
  "reservations_due d \<Longrightarrow> update_uploads p f d = Inr (n, d') \<Longrightarrow> reservations_due d'"
  by (drule update_uploads_patched) (simp add: reservations_due_def)

lemma ensured_reservations_due: "ensured uid targets d d' \<Longrightarrow> reservations_due d \<Longrightarrow> reservations_due d'"
proof -
  assume "ensured uid targets d d'" and "reservations_due d"
  moreover from ensured_appends [OF this(1)] have
    "\<forall>t\<in>set (tombstones d'). t \<in> set (tombstones d) \<or> t_reservation_expires_at t = None"
    by (auto simp: appended_tombstones_def tombstone_for_def)
  ultimately show ?thesis by (auto simp: reservations_due_def)
qed

lemma db_step_reservations_due: "db_step d d' \<Longrightarrow> reservations_due d \<Longrightarrow> reservations_due d'"
proof (induction rule: db_step.induct)
  case create
  then show ?case by (auto dest!: insert_upload_Inr simp: reservations_due_def)
next
  case register
  then show ?case by (auto dest!: insert_candidate_Inr simp: reservations_due_def)
next
  case (reserve locked now d t now' token d')
  note d' = update_tombstones_Inr(2) [OF reserve(3) [unfolded sql_reserve_def]]
  show ?case
    using reserve(4) lease_whole [OF reserve(2)]
    by (auto simp: d' reservations_due_def tombstone_due_def split: if_splits)
next
  case (cleanup_result key token nextAttempt streak lastAttempt result d d')
  note d' = update_tombstones_Inr(2) [OF cleanup_result(1) [unfolded sql_cleanup_result_def]]
  show ?case
    using cleanup_result(2) by (auto simp: d' reservations_due_def split: if_splits)
qed (auto intro: update_reservations_due ensured_reservations_due simp: sql_raise_horizon_def
       sql_complete_pending_def sql_poke_finalizing_def sql_claim_def sql_renew_def sql_retry_def
       sql_expire_pending_def sql_ready_def sql_rejected_def sql_expire_missing_def)

interpretation reservations: transition_system "\<lambda>_ _. True" db_step empty_db reservations_due
proof unfold_locales
  show "reservations_due empty_db" by (simp add: reservations_due_def empty_db_def)
qed (blast intro: db_step_reservations_due)+

lemma reachable_reservations_due: "reachable d \<Longrightarrow> reservations_due d"
  unfolding reachable_def by (rule reservations.from_init_inv)

end
