(* ===== verification/Sha256.thy ===== *)
theory Sha256
  imports Prelude
begin

section \<open>The digest\<close>

text \<open>
  Go's \<^verbatim>\<open>sha256.Sum256\<close>, which names every published object: the padding, the message schedule
  as a sliding window of sixteen words, the sixty-four rounds and the big-endian output.
\<close>

definition rotr :: "nat \<Rightarrow> 32 word \<Rightarrow> 32 word" where
  "rotr n x = drop_bit n x OR push_bit (32 - n) x"

definition big_sigma0 :: "32 word \<Rightarrow> 32 word" where
  "big_sigma0 x = (rotr 2 x XOR rotr 13 x) XOR rotr 22 x"

definition big_sigma1 :: "32 word \<Rightarrow> 32 word" where
  "big_sigma1 x = (rotr 6 x XOR rotr 11 x) XOR rotr 25 x"

definition small_sigma0 :: "32 word \<Rightarrow> 32 word" where
  "small_sigma0 x = (rotr 7 x XOR rotr 18 x) XOR drop_bit 3 x"

definition small_sigma1 :: "32 word \<Rightarrow> 32 word" where
  "small_sigma1 x = (rotr 17 x XOR rotr 19 x) XOR drop_bit 10 x"

definition select_bits :: "32 word \<Rightarrow> 32 word \<Rightarrow> 32 word \<Rightarrow> 32 word" where
  "select_bits e f g = ((f XOR g) AND e) XOR g"

definition majority :: "32 word \<Rightarrow> 32 word \<Rightarrow> 32 word \<Rightarrow> 32 word" where
  "majority a b c = (a AND b) OR (c AND (a OR b))"

definition round_constants :: "32 word list" where
  "round_constants = [
     0x428a2f98, 0x71374491, 0xb5c0fbcf, 0xe9b5dba5, 0x3956c25b, 0x59f111f1, 0x923f82a4, 0xab1c5ed5,
     0xd807aa98, 0x12835b01, 0x243185be, 0x550c7dc3, 0x72be5d74, 0x80deb1fe, 0x9bdc06a7, 0xc19bf174,
     0xe49b69c1, 0xefbe4786, 0x0fc19dc6, 0x240ca1cc, 0x2de92c6f, 0x4a7484aa, 0x5cb0a9dc, 0x76f988da,
     0x983e5152, 0xa831c66d, 0xb00327c8, 0xbf597fc7, 0xc6e00bf3, 0xd5a79147, 0x06ca6351, 0x14292967,
     0x27b70a85, 0x2e1b2138, 0x4d2c6dfc, 0x53380d13, 0x650a7354, 0x766a0abb, 0x81c2c92e, 0x92722c85,
     0xa2bfe8a1, 0xa81a664b, 0xc24b8b70, 0xc76c51a3, 0xd192e819, 0xd6990624, 0xf40e3585, 0x106aa070,
     0x19a4c116, 0x1e376c08, 0x2748774c, 0x34b0bcb5, 0x391c0cb3, 0x4ed8aa4a, 0x5b9cca4f, 0x682e6ff3,
     0x748f82ee, 0x78a5636f, 0x84c87814, 0x8cc70208, 0x90befffa, 0xa4506ceb, 0xbef9a3f7, 0xc67178f2]"

definition initial_state :: "32 word list" where
  "initial_state = [0x6a09e667, 0xbb67ae85, 0x3c6ef372, 0xa54ff53a, 0x510e527f, 0x9b05688c, 0x1f83d9ab, 0x5be0cd19]"

definition next_word :: "32 word list \<Rightarrow> 32 word" where
  "next_word w = small_sigma1 (w ! 14) + w ! 9 + small_sigma0 (w ! 1) + w ! 0"

fun rounds :: "32 word list \<Rightarrow> 32 word list \<Rightarrow> 32 word list \<Rightarrow> 32 word list" where
  "rounds (k # ks) w [a, b, c, d, e, f, g, h] =
     (let t1 = h + big_sigma1 e + select_bits e f g + k + w ! 0;
          t2 = big_sigma0 a + majority a b c
      in rounds ks (tl w @ [next_word w]) [t1 + t2, a, b, c, d + t1, e, f, g])"
| "rounds _ _ s = s"

fun words_of_bytes :: "byte list \<Rightarrow> 32 word list" where
  "words_of_bytes (p # q # r # s # rest) =
     (((push_bit 24 (ucast p) OR push_bit 16 (ucast q)) OR push_bit 8 (ucast r)) OR ucast s)
       # words_of_bytes rest"
| "words_of_bytes _ = []"

definition bytes_of_word :: "32 word \<Rightarrow> byte list" where
  "bytes_of_word w = [ucast (drop_bit 24 w), ucast (drop_bit 16 w), ucast (drop_bit 8 w), ucast w]"

definition compress_block :: "byte list \<Rightarrow> 32 word list \<Rightarrow> 32 word list" where
  "compress_block block s = map2 (+) s (rounds round_constants (words_of_bytes block) s)"

fun digest_blocks :: "byte list \<Rightarrow> 32 word list \<Rightarrow> 32 word list" where
  "digest_blocks [] s = s"
| "digest_blocks (x # xs) s = digest_blocks (drop 63 xs) (compress_block (x # take 63 xs) s)"

definition padded :: "byte list \<Rightarrow> byte list" where
  "padded m =
     m @ [0x80] @ replicate (nat ((55 - int (length m)) mod 64)) 0 @
       map (\<lambda>i. word_of_nat (8 * length m div 256 ^ i)) [7, 6, 5, 4, 3, 2, 1, 0]"

definition Sum256 :: "byte list \<Rightarrow> byte list" where
  "Sum256 m = concat (map bytes_of_word (digest_blocks (padded m) initial_state))"

lemma length_rounds: "length s = 8 \<Longrightarrow> length (rounds ks w s) = 8"
  by (induction ks w s rule: rounds.induct) (auto simp: Let_def)

lemma length_digest_blocks: "length s = 8 \<Longrightarrow> length (digest_blocks m s) = 8"
  by (induction m s rule: digest_blocks.induct) (simp_all add: compress_block_def length_rounds)

text \<open>A digest has thirty-two bytes.\<close>

lemma length_concat_bytes: "length (concat (map bytes_of_word ws)) = 4 * length ws"
  by (induction ws) (simp_all add: bytes_of_word_def)

lemma length_Sum256 [simp]: "length (Sum256 m) = 32"
  by (simp add: Sum256_def length_concat_bytes length_digest_blocks initial_state_def)

end
