(* ===== verification/Effects.thy ===== *)
theory Effects
  imports Lifecycle Sha256
begin

section \<open>Reasoning about the service's programs\<close>

text \<open>
  Two program logics over the state monad.  \<open>quiet m P\<close> says that \<open>m\<close> only takes readings from the
  environment and returns a value with property \<open>P\<close>: the body of a transaction, which works on its
  own copy of the tables.  \<open>service m P\<close> says that \<open>m\<close>, started outside a transaction, moves the
  database along committed transactions of the service only, ends outside a transaction, makes no
  S3 call inside one, never looks up an unregistered metric, and returns a value with property \<open>P\<close>.
  The relation behind it, \<open>svc_step\<close>, meets the locale \<open>effect\<close>: a preorder on worlds.
  The only hypothesis on the environment is \<open>peers_ok\<close>: what other sessions commit to this
  database is committed by transactions of this service.
\<close>

subsection \<open>The registered metrics\<close>

text \<open>\<^verbatim>\<open>newServiceMetrics\<close> and \<^verbatim>\<open>fixedExpvarMap\<close>; a counter that is not in a map has the key \<open>''''\<close>.\<close>

definition fixedExpvarMap :: "string \<Rightarrow> string list \<Rightarrow> ((string \<times> string) \<times> int) list" where
  "fixedExpvarMap m keys = map (\<lambda>k. ((m, k), 0)) keys"

definition newServiceMetrics :: "time \<Rightarrow> ((string \<times> string) \<times> int) list" where
  "newServiceMetrics now =
     [((''process_started_unix_seconds'', ''''), now div second)] @
     fixedExpvarMap ''upload_transitions_total''
       [''none_to_pending'', ''pending_to_finalizing'', ''pending_to_expired'',
        ''finalizing_to_ready'', ''finalizing_to_rejected'', ''finalizing_to_expired''] @
     fixedExpvarMap ''retries_scheduled_total''
       (concat (map (\<lambda>owner. map (\<lambda>errorClass. owner @ ''_'' @ errorClass)
          [''transient'', ''ambiguous'', ''auth'', ''configuration'', ''other_deterministic''])
        [''finalizer'', ''cleanup''])) @
     fixedExpvarMap ''validation_rejects_total''
       [''object_too_large'', ''dimensions_limit_exceeded'', ''pixel_limit_exceeded'',
        ''declared_size_mismatch'', ''invalid_image_encoding'', ''declared_content_type_mismatch'',
        ''malformed_image'', ''decoder_invariant_mismatch'', ''candidate_integrity_mismatch''] @
     [((''cleanup_attempts_total'', ''''), 0)] @
     fixedExpvarMap ''cleanup_outcomes_total''
       [''delete_succeeded'', ''confirmed_absent'', ''transient_error'', ''ambiguous_error'',
        ''auth_error'', ''configuration_error'', ''other_deterministic_error''] @
     [((''cleanup_due'', ''''), 0),
      ((''cleanup_oldest_due_age_seconds'', ''''), 0),
      ((''cleanup_snapshot_unix_seconds'', ''''), 0)]"

definition registered :: "string \<Rightarrow> string \<Rightarrow> bool" where
  "registered m k = ((m, k) \<in> fst ` set (newServiceMetrics 0))"

lemmas metric_tables = registered_def newServiceMetrics_def fixedExpvarMap_def

lemma registered_transition:
  "k \<in> {''none_to_pending'', ''pending_to_finalizing'', ''pending_to_expired'',
        ''finalizing_to_ready'', ''finalizing_to_rejected'', ''finalizing_to_expired''} \<Longrightarrow>
     registered ''upload_transitions_total'' k"
  by (auto simp: metric_tables)

lemma registered_retry:
  "c \<in> set error_classes \<Longrightarrow> registered ''retries_scheduled_total'' (''finalizer_'' @ c)"
  "c \<in> set error_classes \<Longrightarrow> registered ''retries_scheduled_total'' (''cleanup_'' @ c)"
  by (auto simp: metric_tables)

lemma registered_cleanup_outcome:
  "r \<in> set cleanup_outcomes \<Longrightarrow> registered ''cleanup_outcomes_total'' r"
  by (auto simp: metric_tables)

lemma registered_cleanup_gauges:
  "registered ''cleanup_attempts_total'' ''''" "registered ''cleanup_due'' ''''"
  "registered ''cleanup_oldest_due_age_seconds'' ''''"
  "registered ''cleanup_snapshot_unix_seconds'' ''''"
  by (auto simp: metric_tables)

lemma registered_rejects:
  "r \<in> {''object_too_large'', ''dimensions_limit_exceeded'', ''pixel_limit_exceeded'',
        ''declared_size_mismatch'', ''invalid_image_encoding'', ''declared_content_type_mismatch'',
        ''malformed_image'', ''decoder_invariant_mismatch'', ''candidate_integrity_mismatch''} \<Longrightarrow>
     registered ''validation_rejects_total'' r"
  by (auto simp: metric_tables)

definition metrics_ready :: "world \<Rightarrow> bool" where
  "metrics_ready w = (\<not> panicked w \<and> (\<forall>m k. registered m k \<longrightarrow> counters w (m, k) \<noteq> None))"

subsection \<open>Preorders on worlds\<close>

locale effect = guarantee R
  for R :: "world \<Rightarrow> world \<Rightarrow> bool"
begin

lemma wp_seq:
  assumes "wp m (\<lambda>r w'. R w w' \<and> A r) w"
    and "\<And>r w'. A r \<Longrightarrow> wp (f r) (\<lambda>s w''. R w' w'' \<and> P s) w'"
  shows "wp (State_Monad.bind m f) (\<lambda>s w''. R w w'' \<and> P s) w"
  unfolding wp_bind
  by (rule wp_mono [OF assms(1)], elim conjE, rule wp_mono [OF assms(2)], assumption)
     (blast intro: trans)

end

text \<open>Only readings are taken.\<close>

definition tx_frame :: "world \<Rightarrow> world \<Rightarrow> bool" where
  "tx_frame w w' = (tick w \<le> tick w' \<and> w' = w\<lparr>tick := tick w'\<rparr>)"

text \<open>
  What the service may do to object storage and announce.  It writes an object only under the digest
  of its bytes and after the candidate is recorded; it deletes an object only under a recorded cleanup
  duty; it announces an upload as ready only after reading back bytes whose digest names the object.
\<close>

fun event_covered :: "db \<Rightarrow> s3_event \<Rightarrow> bool" where
  "event_covered d (S3Get key r) = True"
| "event_covered d (S3Put key raw contentType err) =
     ((\<exists>uid. key = candidate_key_of uid (Sum256 raw)) \<and> key \<in> c_object_key ` set (candidates d))"
| "event_covered d (S3Delete key err) = (key \<in> t_object_key ` set (tombstones d))"

fun announces_ready :: "log_event \<Rightarrow> bool" where
  "announces_ready (name, attrs) =
     (name = ''upload.transition'' \<and> (''state_to'', AStr ''ready'') \<in> set attrs)"

definition read_back :: "s3_event list \<Rightarrow> string \<Rightarrow> bool" where
  "read_back es uid =
     (\<exists>snapshot. S3Get (candidate_key_of uid (Sum256 (bytes_of (os_Bytes snapshot)))) (Inr snapshot) \<in> set es)"

definition verified_ready :: "s3_event list \<Rightarrow> log_event \<Rightarrow> bool" where
  "verified_ready es ev =
     (announces_ready ev \<longrightarrow> (\<exists>uid. (''upload_id'', AStr uid) \<in> set (snd ev) \<and> read_back es uid))"

definition audited :: "world \<Rightarrow> world \<Rightarrow> bool" where
  "audited w w' =
     (\<exists>es ls. s3_events w' = s3_events w @ es \<and> logged w' = logged w @ ls \<and>
        (\<forall>e\<in>set es. event_covered (w_db w') e) \<and> (\<forall>l\<in>set ls. verified_ready (s3_events w') l))"

definition svc_step :: "world \<Rightarrow> world \<Rightarrow> bool" where
  "svc_step w w' =
     (db_steps (w_db w) (w_db w') \<and> tick w \<le> tick w' \<and> s3_in_tx w' = s3_in_tx w \<and>
      (metrics_ready w \<longrightarrow> metrics_ready w') \<and> audited w w')"

lemma event_covered_later: "event_covered d e \<Longrightarrow> db_steps d d' \<Longrightarrow> event_covered d' e"
proof -
  assume "event_covered d e" and "db_steps d d'"
  moreover from db_steps_keep_keys [OF this(2)] have
    "c_object_key ` set (candidates d) \<subseteq> c_object_key ` set (candidates d')"
    "t_object_key ` set (tombstones d) \<subseteq> t_object_key ` set (tombstones d')"
    by (auto simp: keeps_keys_def)
  ultimately show ?thesis by (cases e) (simp_all, blast+)
qed

lemma read_back_mono: "read_back es uid \<Longrightarrow> set es \<subseteq> set es' \<Longrightarrow> read_back es' uid"
  by (auto simp: read_back_def)

lemma verified_ready_mono: "verified_ready es l \<Longrightarrow> set es \<subseteq> set es' \<Longrightarrow> verified_ready es' l"
  by (auto simp: verified_ready_def dest: read_back_mono)

lemma audited_same: "s3_events w' = s3_events w \<Longrightarrow> logged w' = logged w \<Longrightarrow> audited w w'"
  by (simp add: audited_def)

lemma audited_trans:
  assumes "audited w w'" and "audited w' w''" and steps: "db_steps (w_db w') (w_db w'')"
  shows "audited w w''"
proof -
  from assms(1) obtain es ls where a: "s3_events w' = s3_events w @ es" "logged w' = logged w @ ls"
    "\<forall>e\<in>set es. event_covered (w_db w') e" "\<forall>l\<in>set ls. verified_ready (s3_events w') l"
    unfolding audited_def by blast
  from assms(2) obtain es' ls' where b: "s3_events w'' = s3_events w' @ es'" "logged w'' = logged w' @ ls'"
    "\<forall>e\<in>set es'. event_covered (w_db w'') e" "\<forall>l\<in>set ls'. verified_ready (s3_events w'') l"
    unfolding audited_def by blast
  have "set (s3_events w') \<subseteq> set (s3_events w'')" using b(1) by simp
  then show ?thesis
    unfolding audited_def
    by (intro exI [of _ "es @ es'"] exI [of _ "ls @ ls'"])
       (use a b in \<open>auto intro: event_covered_later [OF _ steps] verified_ready_mono\<close>)
qed

interpretation readings: effect tx_frame
proof
  fix w w' w''
  show "tx_frame w w" by (simp add: tx_frame_def)
  assume a: "tx_frame w w'" and b: "tx_frame w' w''"
  have "w'' = w'\<lparr>tick := tick w''\<rparr>" using b by (simp add: tx_frame_def)
  also have "w' = w\<lparr>tick := tick w'\<rparr>" using a by (simp add: tx_frame_def)
  finally have "w'' = w\<lparr>tick := tick w''\<rparr>" by simp
  then show "tx_frame w w''" using a b by (simp add: tx_frame_def)
qed

interpretation svc: effect svc_step
proof
  fix w w' w''
  show "svc_step w w" by (simp add: svc_step_def audited_same)
  assume "svc_step w w'" and "svc_step w' w''"
  then show "svc_step w w''"
    by (auto simp: svc_step_def intro: rtranclp_trans audited_trans)
qed

lemma tx_frame_svc: "tx_frame w w' \<Longrightarrow> svc_step w w'"
proof -
  assume "tx_frame w w'"
  then have "tick w \<le> tick w'" and "w' = w\<lparr>tick := tick w'\<rparr>" by (simp_all add: tx_frame_def)
  moreover from this(2) have "w_db w' = w_db w" "s3_in_tx w' = s3_in_tx w" "panicked w' = panicked w"
    "counters w' = counters w" "s3_events w' = s3_events w" "logged w' = logged w"
    by (metis world.select_convs world.surjective world.update_convs(2))+
  ultimately show ?thesis by (simp add: svc_step_def metrics_ready_def audited_same)
qed

subsection \<open>Triples\<close>

definition triple :: "(world \<Rightarrow> bool) \<Rightarrow> (world, 'a) state \<Rightarrow> ('a \<Rightarrow> world \<Rightarrow> bool) \<Rightarrow> bool" where
  "triple pre m post = (\<forall>w. pre w \<longrightarrow> wp m post w)"

text \<open>Where a program stands, seen from the world \<open>w\<^sub>0\<close> in which it started: only readings taken;
  outside a transaction with the database \<open>d\<close>; possibly inside one, with the database still \<open>d\<close>.\<close>

definition reading :: "world \<Rightarrow> world \<Rightarrow> bool" where
  "reading w\<^sub>0 w = tx_frame w\<^sub>0 w"

definition idle :: "world \<Rightarrow> db \<Rightarrow> world \<Rightarrow> bool" where
  "idle w\<^sub>0 d w = (svc_step w\<^sub>0 w \<and> \<not> tx_open w \<and> w_db w = d)"

definition busy :: "world \<Rightarrow> db \<Rightarrow> world \<Rightarrow> bool" where
  "busy w\<^sub>0 d w = (svc_step w\<^sub>0 w \<and> w_db w = d)"

text \<open>Where it ends: the value alone, or the value and the database it left.\<close>

definition took :: "world \<Rightarrow> ('a \<Rightarrow> bool) \<Rightarrow> 'a \<Rightarrow> world \<Rightarrow> bool" where
  "took w\<^sub>0 P r w = (reading w\<^sub>0 w \<and> P r)"

definition closed :: "world \<Rightarrow> ('a \<Rightarrow> db \<Rightarrow> bool) \<Rightarrow> 'a \<Rightarrow> world \<Rightarrow> bool" where
  "closed w\<^sub>0 P r w = (svc_step w\<^sub>0 w \<and> \<not> tx_open w \<and> P r (w_db w))"

definition ends :: "world \<Rightarrow> ('a \<Rightarrow> db \<Rightarrow> bool) \<Rightarrow> 'a \<Rightarrow> world \<Rightarrow> bool" where
  "ends w\<^sub>0 P r w = (svc_step w\<^sub>0 w \<and> P r (w_db w))"

definition quiet :: "(world, 'a) state \<Rightarrow> ('a \<Rightarrow> bool) \<Rightarrow> bool" where
  "quiet m P = (\<forall>w\<^sub>0. triple (reading w\<^sub>0) m (took w\<^sub>0 P))"

definition service :: "(world, 'a) state \<Rightarrow> ('a \<Rightarrow> db \<Rightarrow> bool) \<Rightarrow> bool" where
  "service m P = (\<forall>w\<^sub>0 d. triple (idle w\<^sub>0 d) m (closed w\<^sub>0 P))"

lemmas triple_defs = triple_def quiet_def service_def reading_def idle_def busy_def took_def
  closed_def ends_def

named_theorems vcg "rules that derive a triple from the shape of the program"

lemma quietI [vcg]: "(\<And>w\<^sub>0. triple (reading w\<^sub>0) m (took w\<^sub>0 P)) \<Longrightarrow> quiet m P"
  by (simp add: quiet_def)

lemma serviceI [vcg]: "(\<And>w\<^sub>0 d. triple (idle w\<^sub>0 d) m (closed w\<^sub>0 P)) \<Longrightarrow> service m P"
  by (simp add: service_def)

lemma return_rules [vcg]:
  "P x \<Longrightarrow> triple (reading w\<^sub>0) (State_Monad.return x) (took w\<^sub>0 P)"
  "C x d \<Longrightarrow> triple (idle w\<^sub>0 d) (State_Monad.return x) (closed w\<^sub>0 C)"
  "C x d \<Longrightarrow> triple (idle w\<^sub>0 d) (State_Monad.return x) (ends w\<^sub>0 C)"
  "C x d \<Longrightarrow> triple (busy w\<^sub>0 d) (State_Monad.return x) (ends w\<^sub>0 C)"
  by (auto simp: triple_defs wp_return)

lemma case_rules [vcg]:
  "(b \<Longrightarrow> triple pre m Q) \<Longrightarrow> (\<not> b \<Longrightarrow> triple pre n Q) \<Longrightarrow> triple pre (if b then m else n) Q"
  "(\<And>a b. p = (a, b) \<Longrightarrow> triple pre (f a b) Q) \<Longrightarrow> triple pre (case p of (a, b) \<Rightarrow> f a b) Q"
  "(s = None \<Longrightarrow> triple pre m Q) \<Longrightarrow> (\<And>x. s = Some x \<Longrightarrow> triple pre (g x) Q) \<Longrightarrow>
     triple pre (case s of None \<Rightarrow> m | Some x \<Rightarrow> g x) Q"
  "(\<And>e. r = Inl e \<Longrightarrow> triple pre (h e) Q) \<Longrightarrow> (\<And>x. r = Inr x \<Longrightarrow> triple pre (g x) Q) \<Longrightarrow>
     triple pre (case r of Inl e \<Rightarrow> h e | Inr x \<Rightarrow> g x) Q"
  "(\<And>y. y = x \<Longrightarrow> triple pre (k y) Q) \<Longrightarrow> triple pre (Let x k) Q"
  by (auto split: prod.splits option.splits sum.splits)

lemma case_state_rule [vcg]:
  assumes "s = Pending \<Longrightarrow> triple pre a Q" "s = Finalizing \<Longrightarrow> triple pre b Q"
    "s = Ready \<Longrightarrow> triple pre c Q" "s = Rejected \<Longrightarrow> triple pre d Q"
    "s = Expired \<Longrightarrow> triple pre e Q" "\<And>x. s = OtherState x \<Longrightarrow> triple pre (f x) Q"
  shows "triple pre (case s of Pending \<Rightarrow> a | Finalizing \<Rightarrow> b | Ready \<Rightarrow> c | Rejected \<Rightarrow> d
    | Expired \<Rightarrow> e | OtherState x \<Rightarrow> f x) Q"
  using assms by (cases s) auto

lemma triple_mono: "triple pre m Q \<Longrightarrow> (\<And>r w. Q r w \<Longrightarrow> Q' r w) \<Longrightarrow> triple pre m Q'"
  unfolding triple_def by (blast intro: wp_mono)

subsection \<open>Readings\<close>

definition readable :: "(world \<Rightarrow> bool) \<Rightarrow> bool" where
  "readable pre = (\<forall>w w'. pre w \<longrightarrow> tx_frame w w' \<longrightarrow> pre w')"

lemma readable_rules [vcg]: "readable (reading w\<^sub>0)" "readable (idle w\<^sub>0 d)" "readable (busy w\<^sub>0 d)"
proof -
  have "tx_open w' = tx_open w \<and> w_db w' = w_db w" if "tx_frame w w'" for w w'
    using that by (metis tx_frame_def world.select_convs world.surjective world.update_convs(2))
  then show "readable (idle w\<^sub>0 d)" "readable (busy w\<^sub>0 d)"
    by (auto simp: readable_def idle_def busy_def intro: svc.trans dest: tx_frame_svc)
  show "readable (reading w\<^sub>0)"
    by (auto simp: readable_def reading_def intro: readings.trans)
qed

lemma quiet_bind:
  assumes "quiet m A" and "readable pre" and "\<And>r. A r \<Longrightarrow> triple pre (f r) Q"
  shows "triple pre (State_Monad.bind m f) Q"
  unfolding triple_def wp_bind
proof (intro allI impI)
  fix w assume pre: "pre w"
  have "wp m (took w A) w"
    using assms(1) readings.refl by (auto simp: quiet_def triple_def reading_def)
  then show "wp m (\<lambda>r. wp (f r) Q) w"
  proof (rule wp_mono)
    fix r w' assume "took w A r w'"
    then show "wp (f r) Q w'"
      using assms(2,3) pre by (auto simp: took_def reading_def readable_def triple_def)
  qed
qed

lemma quiet_tail: "quiet m A \<Longrightarrow> (\<And>r. A r \<Longrightarrow> P r) \<Longrightarrow> triple (reading w\<^sub>0) m (took w\<^sub>0 P)"
  unfolding quiet_def triple_def by (metis (no_types, lifting) took_def wp_mono)

lemma quiet_run:
  assumes "quiet m P" and "run_state m w = (r, w')"
  shows "P r" "w_db w' = w_db w" "s3_events w' = s3_events w" "tx_open w' = tx_open w"
proof -
  have "wp m (took w P) w" using assms(1) readings.refl by (auto simp: quiet_def triple_def reading_def)
  then have "took w P r w'" using assms(2) by (rule wp_run)
  then show "P r" "w_db w' = w_db w" "s3_events w' = s3_events w" "tx_open w' = tx_open w"
    unfolding took_def reading_def tx_frame_def by (auto, (metis world.select_convs world.surjective world.update_convs(2))+)
qed

lemma quiet_ends:
  assumes "quiet m A" and "\<And>r. A r \<Longrightarrow> P r d"
  shows "triple (busy w\<^sub>0 d) m (ends w\<^sub>0 P)"
proof -
  have "triple (busy w\<^sub>0 d) (State_Monad.bind m State_Monad.return) (ends w\<^sub>0 P)"
    by (rule quiet_bind [OF assms(1) readable_rules(3)]) (rule return_rules, rule assms(2))
  then show ?thesis by simp
qed

lemma tick_frame: "tx_frame w (w\<lparr>tick := Suc (tick w)\<rparr>)"
  by (simp add: tx_frame_def)

lemma quiet_tick: "(\<And>k. P (f k)) \<Longrightarrow>
    quiet (do { k \<leftarrow> next_tick; State_Monad.return (f k) }) P"
  unfolding quiet_def triple_def took_def reading_def next_tick_def
  by (auto simp: wp intro: readings.trans tick_frame)

lemma quiet_return: "P x \<Longrightarrow> quiet (State_Monad.return x) P"
  by (intro vcg)

lemma quiet_exec: "quiet (exec_sql E f t) (\<lambda>r. \<forall>x. r = Inr x \<longrightarrow> (\<exists>now. f now t = Inr x))"
  unfolding exec_sql_def by (rule quiet_tick) (auto split: option.splits)

lemma quiet_query: "quiet (query_sql E f t) (\<lambda>r. \<forall>x. r = Inr x \<longrightarrow> (\<exists>k now. f k now t = Inr x))"
  unfolding query_sql_def by (rule quiet_tick) (auto split: option.splits)

lemma quiet_clock: "quiet (select_clock E t) (\<lambda>r. \<forall>x. r = Inr x \<longrightarrow> timestamptz x = x)"
  unfolding select_clock_def query_sql_def by (rule quiet_tick) (auto split: option.splits)

lemma server_clock_whole [simp]: "timestamptz (server_clock E k) = server_clock E k"
  by (simp add: server_clock_def)

lemma quiet_clock_reading: "quiet (select_clock E t) (\<lambda>r. \<forall>x. r = Inr x \<longrightarrow> (\<exists>k. x = server_clock E k))"
  unfolding select_clock_def query_sql_def server_clock_def by (rule quiet_tick) (auto split: option.splits)

lemma quiet_ctx_Err: "quiet (ctx_Err E) (\<lambda>_. True)"
  unfolding ctx_Err_def by (rule quiet_tick) simp

lemma quiet_time_Now: "quiet (time_Now E) (\<lambda>_. True)"
  unfolding time_Now_def by (rule quiet_tick) simp

lemma quiet_newUploadUUID: "quiet (newUploadUUID E) (\<lambda>_. True)"
  unfolding newUploadUUID_def by (rule quiet_tick) simp

lemmas reading_binds [vcg] =
  quiet_bind [OF quiet_ctx_Err] quiet_bind [OF quiet_time_Now] quiet_bind [OF quiet_newUploadUUID]

text \<open>A statement whose error is an early return.\<close>

lemma exec_rule [vcg]:
  assumes "readable pre" and "\<And>err. triple pre (A err) Q"
    and "\<And>now n t'. f now t = Inr (n, t') \<Longrightarrow> triple pre (B (n, t')) Q"
  shows "triple pre (State_Monad.bind (exec_sql E f t) (case_sum A B)) Q"
  by (rule quiet_bind [OF quiet_exec assms(1)]) (auto intro: assms(2,3) split: sum.splits)

lemma query_rule [vcg]:
  assumes "readable pre" and "\<And>err. triple pre (A err) Q"
    and "\<And>k now x. f k now t = Inr x \<Longrightarrow> triple pre (B x) Q"
  shows "triple pre (State_Monad.bind (query_sql E f t) (case_sum A B)) Q"
  by (rule quiet_bind [OF quiet_query assms(1)]) (auto intro: assms(2,3) split: sum.splits)

lemma clock_rule [vcg]:
  assumes "readable pre" and "\<And>err. triple pre (A err) Q"
    and "\<And>now k. now = server_clock E k \<Longrightarrow> timestamptz now = now \<Longrightarrow> triple pre (B now) Q"
  shows "triple pre (State_Monad.bind (select_clock E t) (case_sum A B)) Q"
  by (rule quiet_bind [OF quiet_clock_reading assms(1)])
     (auto intro: assms(2) assms(3) [OF refl server_clock_whole] split: sum.splits)

subsection \<open>Operations of the service\<close>

text \<open>What other sessions commit to this database, they commit by transactions of this service.\<close>

definition peers_ok :: "environment \<Rightarrow> bool" where
  "peers_ok E = (\<forall>k d. db_steps d (env_peers E k d))"

lemma triple_bind:
  assumes "\<And>w\<^sub>0. triple (idle w\<^sub>0 d) m (closed w\<^sub>0 A)"
    and "\<And>r d'. db_steps d d' \<Longrightarrow> A r d' \<Longrightarrow> triple (idle w\<^sub>0 d') (f r) Q"
  shows "triple (idle w\<^sub>0 d) (State_Monad.bind m f) Q"
  unfolding triple_def wp_bind
proof (intro allI impI)
  fix w assume w: "idle w\<^sub>0 d w"
  then have "wp m (closed w A) w"
    using assms(1) [of w] svc.refl by (simp add: triple_def idle_def)
  then show "wp m (\<lambda>r. wp (f r) Q) w"
  proof (rule wp_mono)
    fix r w' assume w': "closed w A r w'"
    then have step: "svc_step w w'" "\<not> tx_open w'" by (simp_all add: closed_def)
    then have "db_steps d (w_db w')" using w by (simp add: svc_step_def idle_def)
    moreover have "idle w\<^sub>0 (w_db w') w'" using step w by (auto simp: idle_def intro: svc.trans)
    moreover note w'
    ultimately    show "wp (f r) Q w'"
      using assms(2) [of "w_db w'" r] by (simp add: closed_def triple_def)
  qed
qed

lemma triple_tail:
  assumes "\<And>w\<^sub>0. triple (idle w\<^sub>0 d) m (closed w\<^sub>0 A)"
    and "\<And>r d'. db_steps d d' \<Longrightarrow> A r d' \<Longrightarrow> P r d'"
  shows "triple (idle w\<^sub>0 d) m (closed w\<^sub>0 P)" and "triple (idle w\<^sub>0 d) m (ends w\<^sub>0 P)"
proof -
  have "triple (idle w\<^sub>0 d) (State_Monad.bind m State_Monad.return) (closed w\<^sub>0 P)"
    by (rule triple_bind [OF assms(1)]) (rule return_rules, rule assms(2))
  then show closed: "triple (idle w\<^sub>0 d) m (closed w\<^sub>0 P)"
    by simp
  have "closed w\<^sub>0 P r w \<Longrightarrow> ends w\<^sub>0 P r w" for r w
    by (simp add: closed_def ends_def)
  with closed show "triple (idle w\<^sub>0 d) m (ends w\<^sub>0 P)"
    unfolding triple_def by (blast intro: wp_mono)
qed

lemma service_triple: "service m A \<Longrightarrow> triple (idle w\<^sub>0 d) m (closed w\<^sub>0 A)"
  by (simp add: service_def)

lemmas service_bind = triple_bind [OF service_triple]
lemmas service_tail = triple_tail [OF service_triple]

lemma service_mono: "service m A \<Longrightarrow> (\<And>r d. A r d \<Longrightarrow> P r d) \<Longrightarrow> service m P"
  by (rule serviceI, rule service_tail(1))

lemma service_step:
  assumes "\<And>w. \<not> tx_open w \<Longrightarrow> wp m (\<lambda>r w'. svc_step w w' \<and> \<not> tx_open w' \<and> P r (w_db w')) w"
  shows "service m P"
  unfolding service_def triple_def closed_def idle_def
proof (intro allI impI)
  fix w\<^sub>0 d w assume start: "svc_step w\<^sub>0 w \<and> \<not> tx_open w \<and> w_db w = d"
  show "wp m (\<lambda>r w'. svc_step w\<^sub>0 w' \<and> \<not> tx_open w' \<and> P r (w_db w')) w"
    by (rule wp_mono [OF assms]) (use start in \<open>auto intro: svc.trans\<close>)
qed

lemma service_run:
  assumes "service m P" and "\<not> tx_open w" and "run_state m w = (r, w')"
  shows "svc_step w w'" and "\<not> tx_open w'" and "P r (w_db w')"
proof -
  have "wp m (closed w P) w"
    using assms(1,2) svc.refl by (simp add: service_def triple_def idle_def)
  then have "closed w P r w'" using assms(3) by (rule wp_run)
  then show "svc_step w w'" and "\<not> tx_open w'" and "P r (w_db w')" by (simp_all add: closed_def)
qed

text \<open>Operations that leave the database alone: logs, metrics and S3 calls.\<close>

definition steady :: "(world, 'a) state \<Rightarrow> ('a \<Rightarrow> bool) \<Rightarrow> bool" where
  "steady m P = (\<forall>w. \<not> tx_open w \<longrightarrow>
     wp m (\<lambda>r w'. svc_step w w' \<and> \<not> tx_open w' \<and> w_db w' = w_db w \<and> P r) w)"

lemma steady_bind:
  assumes "steady m A" and "\<And>r. A r \<Longrightarrow> triple (idle w\<^sub>0 d) (f r) Q"
  shows "triple (idle w\<^sub>0 d) (State_Monad.bind m f) Q"
  unfolding triple_def wp_bind
proof (intro allI impI)
  fix w assume w: "idle w\<^sub>0 d w"
  then have "\<not> tx_open w" by (simp add: idle_def)
  with assms(1) have "wp m (\<lambda>r w'. svc_step w w' \<and> \<not> tx_open w' \<and> w_db w' = w_db w \<and> A r) w"
    by (simp add: steady_def)
  then show "wp m (\<lambda>r. wp (f r) Q) w"
    by (rule wp_mono) (use w assms(2) in \<open>auto simp: idle_def triple_def intro: svc.trans\<close>)
qed

lemma audited_log:
  "verified_ready (s3_events w) l \<Longrightarrow> audited w (w\<lparr>logged := logged w @ [l]\<rparr>)"
  by (simp add: audited_def)

lemma quiet_event [simp]: "\<not> announces_ready ev \<Longrightarrow> verified_ready es ev"
  by (simp add: verified_ready_def)

lemma log_rule [vcg]:
  assumes "verified_ready (s3_events w\<^sub>0) (name, attrs)" and "\<And>r. triple (idle w\<^sub>0 d) (f r) Q"
  shows "triple (idle w\<^sub>0 d) (State_Monad.bind (log_info name attrs) f) Q"
  unfolding triple_def
proof (intro allI impI)
  fix w assume w: "idle w\<^sub>0 d w"
  let ?w = "w\<lparr>logged := logged w @ [(name, attrs)]\<rparr>"
  from w have "set (s3_events w\<^sub>0) \<subseteq> set (s3_events w)"
    by (auto simp: idle_def svc_step_def audited_def)
  with assms(1) have "svc_step w ?w"
    by (auto simp: svc_step_def metrics_ready_def intro: audited_log verified_ready_mono)
  with w have "idle w\<^sub>0 d ?w"
    by (auto simp: idle_def intro: svc.trans)
  with assms(2) show "wp (State_Monad.bind (log_info name attrs) f) Q w"
    by (simp add: triple_def wp log_info_def modify_def)
qed

lemma steady_metric: "registered m k \<Longrightarrow> steady (metric_update m k f) (\<lambda>_. True)"
  by (auto simp: steady_def metric_update_def modify_def wp svc_step_def metrics_ready_def audited_same
      split: option.splits)

lemma steady_metric_add: "registered m k \<Longrightarrow> steady (metric_add m k) (\<lambda>_. True)"
  unfolding metric_add_def by (rule steady_metric)

lemmas steady_binds [vcg] = steady_bind [OF steady_metric]
  steady_bind [OF steady_metric_add]

subsection \<open>Transactions\<close>

lemma svc_moves:
  assumes "svc_step w\<^sub>0 w" and "db_steps (w_db w) (w_db w')" and "tick w \<le> tick w'"
    and "s3_in_tx w' = s3_in_tx w" and "counters w' = counters w" and "panicked w' = panicked w"
    and "s3_events w' = s3_events w" and "logged w' = logged w"
  shows "svc_step w\<^sub>0 w'"
proof (rule svc.trans [OF assms(1)])
  show "svc_step w w'"
    using assms(2-) by (simp add: svc_step_def metrics_ready_def audited_same)
qed

lemmas world_ops = next_tick_def modify_def run_peers_def set_tx_open_def current_db_def

text \<open>A query outside a transaction reads what the other sessions have committed so far.\<close>

lemma service_pool_query:
  assumes "peers_ok E"
  shows "service (pool_query E f) (\<lambda>r d. \<forall>x. r = Inr x \<longrightarrow> (\<exists>now. f now d = Inr x))"
  using assms
  by (intro service_step)
     (auto simp: pool_query_def world_ops wp peers_ok_def intro: svc_moves [OF svc.refl]
       split: option.splits)

lemma pool_query_rule [vcg]:
  assumes "peers_ok E" and "\<And>err d'. db_steps d d' \<Longrightarrow> triple (idle w\<^sub>0 d') (A err) Q"
    and "\<And>now d' x. db_steps d d' \<Longrightarrow> f now d' = Inr x \<Longrightarrow> triple (idle w\<^sub>0 d') (B x) Q"
  shows "triple (idle w\<^sub>0 d) (State_Monad.bind (pool_query E f) (case_sum A B)) Q"
  by (rule service_bind [OF service_pool_query [OF assms(1)]])
     (auto intro: assms(2,3) split: sum.splits)

lemma service_pool_query_clocked:
  assumes "peers_ok E"
  shows "service (pool_query_clocked E f) (\<lambda>_ _. True)"
  using assms
  by (intro service_step)
     (auto simp: pool_query_clocked_def world_ops wp peers_ok_def Let_def intro: svc_moves [OF svc.refl]
       split: option.splits prod.splits)

lemma begin_wp:
  assumes "peers_ok E" and "idle w\<^sub>0 d w"
  shows "wp (beginUploadTransaction E)
    (\<lambda>r w'. db_steps d (w_db w') \<and>
       (case r of Inl _ \<Rightarrow> idle w\<^sub>0 (w_db w') w' | Inr d' \<Rightarrow> busy w\<^sub>0 d' w')) w"
proof -
  have "db_steps (w_db w) (env_peers E (tick w) (w_db w))"
    using assms(1) by (simp add: peers_ok_def)
  then show ?thesis
    using assms(2)
    by (auto simp: beginUploadTransaction_def set_local_def world_ops wp idle_def busy_def
        intro: svc_moves split: option.splits)
qed

lemma begin_rule [vcg]:
  assumes "peers_ok E" and "\<And>err d'. db_steps d d' \<Longrightarrow> triple (idle w\<^sub>0 d') (A err) Q"
    and "\<And>d'. db_steps d d' \<Longrightarrow> triple (busy w\<^sub>0 d') (B d') Q"
  shows "triple (idle w\<^sub>0 d) (State_Monad.bind (beginUploadTransaction E) (case_sum A B)) Q"
  unfolding triple_def wp_bind
proof (intro allI impI)
  fix w assume "idle w\<^sub>0 d w"
  from begin_wp [OF assms(1) this]
  show "wp (beginUploadTransaction E) (\<lambda>r. wp (case_sum A B r) Q) w"
    by (rule wp_mono) (use assms(2,3) in \<open>auto simp: triple_def busy_def split: sum.splits\<close>)
qed

lemma lost:
  "env_commit E k = CommitLost err \<Longrightarrow> \<exists>k. env_commit E k \<noteq> CommitOk"
  "env_commit E k = CommitHidden err \<Longrightarrow> \<exists>k. env_commit E k \<noteq> CommitOk"
  by (metis commit_outcome.distinct(1,3))+

lemma commit_wp:
  assumes "busy w\<^sub>0 d w" and "db_steps d t"
  shows "wp (commit_tx E t)
    (\<lambda>r w'. idle w\<^sub>0 (w_db w') w' \<and> (w_db w' = t \<or> w_db w' = d \<and> r \<noteq> None) \<and>
       (r \<noteq> None \<longrightarrow> (\<exists>k. env_commit E k \<noteq> CommitOk))) w"
  using assms lost [of E "tick w"]
  by (auto simp: commit_tx_def world_ops wp busy_def idle_def intro: svc_moves
      split: commit_outcome.splits)

lemma commit_rule [vcg]:
  assumes "db_steps d t" and "triple (idle w\<^sub>0 t) A Q"
    and "\<And>err d' k. d' = t \<or> d' = d \<Longrightarrow> env_commit E k \<noteq> CommitOk \<Longrightarrow> triple (idle w\<^sub>0 d') (B err) Q"
  shows "triple (busy w\<^sub>0 d) (State_Monad.bind (commit_tx E t) (case_option A B)) Q"
  unfolding triple_def wp_bind
proof (intro allI impI)
  fix w assume "busy w\<^sub>0 d w"
  from commit_wp [OF this assms(1)]
  show "wp (commit_tx E t) (\<lambda>r. wp (case_option A B r) Q) w"
  proof (rule wp_mono)
    fix r :: "go_error option" and w'
    assume after: "idle w\<^sub>0 (w_db w') w' \<and> (w_db w' = t \<or> w_db w' = d \<and> r \<noteq> None) \<and>
       (r \<noteq> None \<longrightarrow> (\<exists>k. env_commit E k \<noteq> CommitOk))"
    show "wp (case_option A B r) Q w'"
    proof (cases r)
      case None
      then show ?thesis using after assms(2) by (auto simp: triple_def)
    next
      case (Some err)
      then obtain k where "env_commit E k \<noteq> CommitOk" using after by blast
      with assms(3) [of "w_db w'" k err] Some after show ?thesis by (auto simp: triple_def)
    qed
  qed
qed

lemma closing_wp:
  assumes "busy w\<^sub>0 d w"
  shows "wp (rollback_tx E) (\<lambda>_. idle w\<^sub>0 d) w" and "wp (set_tx_open False) (\<lambda>_. idle w\<^sub>0 d) w"
  using assms by (auto simp: rollback_tx_def world_ops wp busy_def idle_def intro: svc_moves)

lemma rollback_rule [vcg]:
  "(\<And>r. triple (idle w\<^sub>0 d) (f r) Q) \<Longrightarrow> triple (busy w\<^sub>0 d) (State_Monad.bind (rollback_tx E) f) Q"
  unfolding triple_def wp_bind by (blast intro: wp_mono [OF closing_wp(1)])

lemma set_tx_open_rule [vcg]:
  "(\<And>r. triple (idle w\<^sub>0 d) (f r) Q) \<Longrightarrow> triple (busy w\<^sub>0 d) (State_Monad.bind (set_tx_open False) f) Q"
  unfolding triple_def wp_bind by (blast intro: wp_mono [OF closing_wp(2)])

lemma deferring_rule [vcg]:
  assumes "triple (idle w\<^sub>0 d) body (ends w\<^sub>0 P)"
  shows "triple (idle w\<^sub>0 d) (deferring_rollback body) (closed w\<^sub>0 P)"
  unfolding triple_def deferring_rollback_def wp_bind
proof (intro allI impI)
  fix w assume "idle w\<^sub>0 d w"
  with assms have "wp body (ends w\<^sub>0 P) w" by (simp add: triple_def)
  then show "wp body (\<lambda>r. wp (set_tx_open False) (\<lambda>_. wp (State_Monad.return r) (closed w\<^sub>0 P))) w"
    by (rule wp_mono) (auto simp: ends_def closed_def world_ops wp intro: svc_moves)
qed

lemma service_deferring:
  "(\<And>w\<^sub>0 d. triple (idle w\<^sub>0 d) body (ends w\<^sub>0 P)) \<Longrightarrow> service (deferring_rollback body) P"
  by (intro vcg)

text \<open>
  A retried transaction.  Its body reads and computes: \<open>G v d r\<close> is what is known of the captured
  variables \<open>v\<close> and the result \<open>r\<close> of a body that began on the database \<open>d\<close>.  Whatever it asks to
  commit must be reached by committed transactions.  If the caller is told that it committed, the
  database is the one the body built.
\<close>

definition retried ::
  "('v \<Rightarrow> db \<Rightarrow> go_error + bool \<times> db \<Rightarrow> bool) \<Rightarrow> 'v \<times> bool \<times> bool \<times> go_error option \<Rightarrow> db \<Rightarrow> bool" where
  "retried G r d' =
     (case r of (v, committed, outcomeUnknown, err) \<Rightarrow>
        (committed \<longrightarrow> \<not> outcomeUnknown \<and> err = None \<and> (\<exists>d. G v d (Inr (True, d')))) \<and>
        (outcomeUnknown \<longrightarrow> \<not> committed \<and> err \<noteq> None) \<and>
        (\<not> committed \<longrightarrow> err = None \<longrightarrow> (\<exists>t. G v d' (Inr (False, t)))))"

lemma retry_attempts_service:
  assumes peers: "peers_ok E"
    and body: "\<And>v d. quiet (apply_tx v d) (\<lambda>(v', r). G v' d r \<and> (\<forall>t. r = Inr (True, t) \<longrightarrow> db_steps d t))"
  shows "service (retry_attempts E apply_tx n v) (retried G)"
proof (induction n arbitrary: v)
  case 0
  show ?case by (simp, intro vcg) (simp add: retried_def)
next
  case (Suc n)
  show ?case
    unfolding retry_attempts.simps
    by (intro vcg peers service_tail [OF Suc.IH] quiet_bind [OF body]) (auto simp: retried_def)
qed

lemma retry_service:
  assumes "peers_ok E"
    and "\<And>v d. quiet (apply_tx v d) (\<lambda>(v', r). G v' d r \<and> (\<forall>t. r = Inr (True, t) \<longrightarrow> db_steps d t))"
  shows "service (retryUploadTransaction E apply_tx v) (retried G)"
  unfolding retryUploadTransaction_def by (rule retry_attempts_service [OF assms])

text \<open>The loop in terms of its attempts.\<close>

lemma retry_attempts_Suc:
  "retry_attempts E apply_tx (Suc n) v = do {
     (v', e) \<leftarrow> attempt E apply_tx v;
     if rolled_back e \<and> 0 < n then retry_attempts E apply_tx n v'
     else State_Monad.return (v', verdict e) }"
proof -
  let ?go = "\<lambda>(v', e). if rolled_back e \<and> 0 < n then retry_attempts E apply_tx n v'
    else State_Monad.return (v', verdict e)"
  have commit: "State_Monad.bind (commit_tx E t) (\<lambda>committed. case committed of
        None \<Rightarrow> State_Monad.return (v', True, False, None)
      | Some err \<Rightarrow> if retryableTransactionError err \<and> 0 < n then retry_attempts E apply_tx n v'
          else State_Monad.return (v', False, \<not> retryableTransactionError err, Some err)) =
    State_Monad.bind (commit_tx E t) (\<lambda>committed.
      ?go (v', case committed of None \<Rightarrow> Committed t | Some err \<Rightarrow> Unconfirmed err t))" for t v'
    by (intro arg_cong2 [where f = State_Monad.bind] refl ext) (simp add: verdict_def split: option.split)
  have applied: "(case p of (v', applied) \<Rightarrow> case applied of
        Inl err \<Rightarrow> do { set_tx_open False;
          (if retryableTransactionError err \<and> 0 < n then retry_attempts E apply_tx n v'
           else State_Monad.return (v', False, False, Some err)) }
      | Inr (commit, t) \<Rightarrow>
          (if \<not> commit then do { set_tx_open False; State_Monad.return (v', False, False, None) }
           else do { committed \<leftarrow> commit_tx E t;
             case committed of
               None \<Rightarrow> State_Monad.return (v', True, False, None)
             | Some err \<Rightarrow>
                 (if retryableTransactionError err \<and> 0 < n then retry_attempts E apply_tx n v'
                  else State_Monad.return (v', False, \<not> retryableTransactionError err, Some err)) })) =
    State_Monad.bind (case p of (v', applied) \<Rightarrow> case applied of
        Inl err \<Rightarrow> do { set_tx_open False; State_Monad.return (v', Failed err) }
      | Inr (commit, t) \<Rightarrow>
          (if \<not> commit then do { set_tx_open False; State_Monad.return (v', Declined) }
           else do { committed \<leftarrow> commit_tx E t;
             State_Monad.return (v', case committed of None \<Rightarrow> Committed t | Some err \<Rightarrow> Unconfirmed err t) })) ?go" for p
    by (cases p; cases "snd p"; cases "projr (snd p)") (simp_all add: State_Monad.bind_assoc commit verdict_def)
  show ?thesis
    unfolding retry_attempts.simps attempt_def State_Monad.bind_assoc
  proof (intro arg_cong2 [where f = State_Monad.bind] refl ext, goal_cases)
    case (1 began)
    show ?case
    proof (cases began)
      case (Inr t0)
      show ?thesis
        unfolding Inr sum.case State_Monad.bind_assoc by (intro arg_cong2 [where f = State_Monad.bind] refl ext applied)
    qed (simp add: verdict_def)
  qed
qed

lemma begin_closed:
  "\<not> tx_open w \<Longrightarrow> run_state (beginUploadTransaction E) w = (Inl err, w') \<Longrightarrow> \<not> tx_open w'"
  by (auto simp: beginUploadTransaction_def set_local_def next_tick_def run_peers_def set_tx_open_def modify_def
      current_db_def split: option.splits prod.splits)

lemma attempt_closed:
  assumes "\<not> tx_open w" and "run_state (attempt E body v) w = ((v', e), w')"
  shows "\<not> tx_open w'" and "e = Committed t \<Longrightarrow> w_db w' = t"
  using assms begin_closed [OF assms(1)]
  by (auto simp: attempt_def set_tx_open_def modify_def commit_tx_def next_tick_def
      split: prod.splits sum.splits if_splits commit_outcome.splits option.splits)

end
