(* ===== verification/Storage.thy ===== *)
theory Storage
  imports Effects
begin

section \<open>Object storage and presigned requests\<close>

text \<open>
  Models \<^verbatim>\<open>storage.go\<close> and \<^verbatim>\<open>storage_finalize.go\<close>: the bounded read of an object, the upload of
  a candidate, the removal of an object (\<^verbatim>\<open>deleteS3Object\<close> of \<^verbatim>\<open>cleanup.go\<close>), and the checks that a
  signed request must pass before it becomes a capability.  Every S3 call is recorded in the world,
  and whether it was made inside a transaction.  The locales \<open>upload_presigner\<close> and
  \<open>content_presigner\<close> are what the request handlers rely on in the function they are given.
\<close>

subsection \<open>Objects\<close>

definition s3_record :: "s3_event \<Rightarrow> (world, unit) state" where
  "s3_record ev = modify (\<lambda>w. w\<lparr>s3_events := s3_events w @ [ev], s3_in_tx := s3_in_tx w \<or> tx_open w\<rparr>)"

text \<open>
  \<^verbatim>\<open>captureS3Object\<close> from the response on: the length header is trusted only to refuse, at most
  one byte more than the limit is read, and a body of another length than announced is an error.
  An error at the end of the body is met only if the limit does not stop the reading before it.
\<close>

definition close_body :: "go_error option \<Rightarrow> go_error + objectSnapshot \<Rightarrow> go_error + objectSnapshot" where
  "close_body closeErr r =
     (case r of Inl err \<Rightarrow> Inl err
      | Inr snapshot \<Rightarrow> (case closeErr of None \<Rightarrow> Inr snapshot | Some err \<Rightarrow> Inl err))"

definition read_body ::
  "int option \<Rightarrow> byte list \<Rightarrow> go_error option \<Rightarrow> int \<Rightarrow> go_error + objectSnapshot" where
  "read_body len body readErr maxBytes =
     (let contentLength = (case len of None \<Rightarrow> -1 | Some n \<Rightarrow> n)
      in if contentLength > maxBytes
         then Inr \<lparr>os_Bytes = None, os_ContentLength = contentLength\<rparr>
         else let bytes = take (nat (maxBytes + 1)) body
              in if readErr \<noteq> None \<and> int (length body) \<le> maxBytes then Inl (the readErr)
                 else if int (length bytes) \<le> maxBytes \<and> 0 \<le> contentLength \<and>
                         int (length bytes) \<noteq> contentLength
                 then Inl errObjectLengthMismatch
                 else Inr \<lparr>os_Bytes = Some bytes, os_ContentLength = contentLength\<rparr>)"

definition capture_response :: "get_response \<Rightarrow> int \<Rightarrow> go_error + objectSnapshot" where
  "capture_response response maxBytes =
     (case response of
        GetErr err \<Rightarrow> Inl err
      | GetNoBody \<Rightarrow> Inl errObjectLengthMismatch
      | GetObject len body readErr closeErr \<Rightarrow>
          close_body closeErr (read_body len body readErr maxBytes))"

definition captureS3Object ::
  "environment \<Rightarrow> string \<Rightarrow> int \<Rightarrow> (world, go_error + objectSnapshot) state" where
  "captureS3Object E key maxBytes = do {
     k \<leftarrow> next_tick;
     let snapshot = capture_response (env_get E k key) maxBytes;
     s3_record (S3Get key snapshot);
     State_Monad.return snapshot }"

definition putCandidateObject ::
  "environment \<Rightarrow> string \<Rightarrow> byte list \<Rightarrow> string \<Rightarrow> (world, go_error option) state" where
  "putCandidateObject E key raw contentType = do {
     k \<leftarrow> next_tick;
     let err = env_put E k key raw contentType;
     s3_record (S3Put key raw contentType err);
     State_Monad.return err }"

definition deleteS3Object :: "environment \<Rightarrow> string \<Rightarrow> (world, go_error option) state" where
  "deleteS3Object E key = do {
     k \<leftarrow> next_tick;
     let err = env_delete E k key;
     s3_record (S3Delete key err);
     State_Monad.return err }"

lemma capture_response_Inr:
  assumes "capture_response response maxBytes = Inr snapshot"
  shows "\<exists>len body readErr. response = GetObject len body readErr None \<and>
    (case os_Bytes snapshot of
       None \<Rightarrow> maxBytes < os_ContentLength snapshot
     | Some bytes \<Rightarrow> bytes = take (nat (maxBytes + 1)) body \<and>
         os_ContentLength snapshot = (case len of None \<Rightarrow> -1 | Some n \<Rightarrow> n) \<and>
         os_ContentLength snapshot \<le> maxBytes \<and>
         (int (length bytes) \<le> maxBytes \<longrightarrow> 0 \<le> os_ContentLength snapshot \<longrightarrow>
            os_ContentLength snapshot = int (length bytes)))"
  using assms
  by (cases response)
     (auto simp: capture_response_def close_body_def read_body_def Let_def
       split: if_splits sum.splits option.splits)

text \<open>
  S3 calls are made outside transactions and change nothing else in the world.  After a successful
  read the program continues in a world that has seen it; a write and a removal must be covered.
\<close>

lemma s3_record_svc:
  assumes "\<not> tx_open w" and "event_covered (w_db w) ev"
  shows "svc_step w (w\<lparr>tick := Suc (tick w), s3_events := s3_events w @ [ev], s3_in_tx := s3_in_tx w\<rparr>)"
  using assms by (auto simp: svc_step_def metrics_ready_def audited_def)

lemma s3_call:
  assumes "\<And>k. event_covered d (ev k)"
    and "\<And>k w\<^sub>1. svc_step w\<^sub>0 w\<^sub>1 \<Longrightarrow> ev k \<in> set (s3_events w\<^sub>1) \<Longrightarrow> triple (idle w\<^sub>1 d) (f (r k)) (closed w\<^sub>1 P)"
  shows "triple (idle w\<^sub>0 d)
    (State_Monad.bind (do { k \<leftarrow> next_tick; s3_record (ev k); State_Monad.return (r k) }) f) (closed w\<^sub>0 P)"
  unfolding triple_def
proof (intro allI impI)
  fix w assume w: "idle w\<^sub>0 d w"
  let ?k = "tick w"
  let ?w = "w\<lparr>tick := Suc ?k, s3_events := s3_events w @ [ev ?k], s3_in_tx := s3_in_tx w\<rparr>"
  have step: "svc_step w\<^sub>0 ?w"
    using w s3_record_svc [of w "ev ?k"] assms(1) by (auto simp: idle_def intro: svc.trans)
  then have "triple (idle ?w d) (f (r ?k)) (closed ?w P)"
    by (rule assms(2)) simp
  moreover have "idle ?w d ?w" using w by (simp add: idle_def svc.refl)
  ultimately have "wp (f (r ?k)) (closed ?w P) ?w" by (simp add: triple_def)
  then have "wp (f (r ?k)) (closed w\<^sub>0 P) ?w"
    by (rule wp_mono) (use step in \<open>auto simp: closed_def intro: svc.trans\<close>)
  then show "wp (State_Monad.bind (do { k \<leftarrow> next_tick; s3_record (ev k); State_Monad.return (r k) }) f)
      (closed w\<^sub>0 P) w"
    using w by (simp add: wp next_tick_def s3_record_def modify_def idle_def)
qed

lemma capture_rule [vcg]:
  assumes "\<And>err w\<^sub>1. svc_step w\<^sub>0 w\<^sub>1 \<Longrightarrow> triple (idle w\<^sub>1 d) (A err) (closed w\<^sub>1 P)"
    and "\<And>snapshot w\<^sub>1. svc_step w\<^sub>0 w\<^sub>1 \<Longrightarrow> S3Get key (Inr snapshot) \<in> set (s3_events w\<^sub>1) \<Longrightarrow>
      triple (idle w\<^sub>1 d) (B snapshot) (closed w\<^sub>1 P)"
  shows "triple (idle w\<^sub>0 d) (State_Monad.bind (captureS3Object E key maxBytes) (case_sum A B)) (closed w\<^sub>0 P)"
  unfolding captureS3Object_def Let_def
proof (rule s3_call)
  fix k w\<^sub>1
  let ?r = "capture_response (env_get E k key) maxBytes"
  assume "svc_step w\<^sub>0 w\<^sub>1" and "S3Get key ?r \<in> set (s3_events w\<^sub>1)"
  then show "triple (idle w\<^sub>1 d) (case_sum A B ?r) (closed w\<^sub>1 P)"
    using assms by (cases ?r) simp_all
qed simp

lemma put_rule [vcg]:
  assumes "\<exists>uid. key = candidate_key_of uid (Sum256 raw)" and "key \<in> c_object_key ` set (candidates d)"
    and "\<And>r w\<^sub>1. triple (idle w\<^sub>1 d) (f r) (closed w\<^sub>1 P)"
  shows "triple (idle w\<^sub>0 d) (State_Monad.bind (putCandidateObject E key raw contentType) f) (closed w\<^sub>0 P)"
  unfolding putCandidateObject_def Let_def
  by (rule s3_call) (use assms in simp_all)

lemma delete_rule [vcg]:
  assumes "key \<in> t_object_key ` set (tombstones d)"
    and "\<And>r w\<^sub>1. triple (idle w\<^sub>1 d) (f r) (closed w\<^sub>1 P)"
  shows "triple (idle w\<^sub>0 d) (State_Monad.bind (deleteS3Object E key) f) (closed w\<^sub>0 P)"
  unfolding deleteS3Object_def Let_def
  by (rule s3_call) (use assms in simp_all)

subsection \<open>Signed requests\<close>

definition signed_expiry :: "string list \<Rightarrow> string list \<Rightarrow> time option" where
  "signed_expiry expiresValues signingTimeValues =
     (case ParseInt64 (expiresValues ! 0) of
        None \<Rightarrow> None
      | Some expiresSeconds \<Rightarrow>
          (case parse_amz_date (signingTimeValues ! 0) of
             None \<Rightarrow> None
           | Some signingTime \<Rightarrow> Some (signingTime + expiresSeconds * second)))"

text \<open>\<^verbatim>\<open>presignUploadPUT\<close> from the signer's answer on.\<close>

definition accept_upload_signature ::
  "(string \<Rightarrow> parsed_url option) \<Rightarrow> string \<Rightarrow> signed_request option \<Rightarrow> go_error + uploadRequest" where
  "accept_upload_signature url_Parse contentType answer =
     (case answer of
        None \<Rightarrow> Inl errUploadSigningInvalid
      | Some req \<Rightarrow>
          if sg_Method req \<noteq> ''PUT'' then Inl errUploadSigningInvalid
          else case url_Parse (sg_URL req) of
            None \<Rightarrow> Inl errUploadSigningInvalid
          | Some parsedURL \<Rightarrow>
              if \<not> IsAbs parsedURL \<or> pu_Host parsedURL = '''' \<or> pu_RawQuery parsedURL = ''''
              then Inl errUploadSigningInvalid
              else
                let expiresValues = query_values parsedURL ''X-Amz-Expires'';
                    signedHeadersValues = query_values parsedURL ''X-Amz-SignedHeaders'';
                    signingTimeValues = query_values parsedURL ''X-Amz-Date'';
                    signatureValues = query_values parsedURL ''X-Amz-Signature''
                in if length expiresValues \<noteq> 1 \<or> expiresValues ! 0 \<noteq> ''900'' \<or>
                      length signedHeadersValues \<noteq> 1 \<or> signedHeadersValues ! 0 \<noteq> ''content-type;host'' \<or>
                      length signingTimeValues \<noteq> 1 \<or> length signatureValues \<noteq> 1 \<or>
                      signatureValues ! 0 = ''''
                   then Inl errUploadSigningInvalid
                   else if list_ex (\<lambda>(name, _). strings_Contains (strings_ToLower name) ''checksum'')
                             (pu_Query parsedURL)
                   then Inl errUploadSigningInvalid
                   else case signed_expiry expiresValues signingTimeValues of
                     None \<Rightarrow> Inl errUploadSigningInvalid
                   | Some expiresAt \<Rightarrow>
                       let contentTypes = header_values (sg_SignedHeader req) ''Content-Type''
                       in if length contentTypes \<noteq> 1 \<or> contentTypes ! 0 \<noteq> contentType
                          then Inl errUploadSigningInvalid
                          else Inr \<lparr>rq_Method = sg_Method req, rq_URL = sg_URL req,
                                    rq_Headers = [(''Content-Type'', contentTypes ! 0)],
                                    rq_ExpiresAt = expiresAt\<rparr>)"

definition presignUploadPUT ::
  "environment \<Rightarrow> bool \<Rightarrow> string \<Rightarrow> string \<Rightarrow> (world, go_error + uploadRequest) state" where
  "presignUploadPUT E presigner key contentType =
     (if \<not> presigner then State_Monad.return (Inl errUploadSigningInvalid)
      else do {
        k \<leftarrow> next_tick;
        State_Monad.return (case env_presign_put E k key contentType of
          Inl _ \<Rightarrow> Inl (errors_New (ErrText ''upload signing failed''))
        | Inr answer \<Rightarrow> accept_upload_signature (env_url_Parse E) contentType answer) })"

text \<open>\<^verbatim>\<open>presignContentGET\<close> from the signer's answer on.\<close>

definition accept_content_signature ::
  "(string \<Rightarrow> parsed_url option) \<Rightarrow> signed_request option \<Rightarrow> go_error + string \<times> time" where
  "accept_content_signature url_Parse answer =
     (case answer of
        None \<Rightarrow> Inl errContentSigningInvalid
      | Some req \<Rightarrow>
          if sg_Method req \<noteq> ''GET'' then Inl errContentSigningInvalid
          else case url_Parse (sg_URL req) of
            None \<Rightarrow> Inl errContentSigningInvalid
          | Some parsedURL \<Rightarrow>
              if \<not> IsAbs parsedURL \<or> pu_Host parsedURL = '''' \<or> pu_User parsedURL \<or>
                 (pu_Scheme parsedURL \<noteq> ''http'' \<and> pu_Scheme parsedURL \<noteq> ''https'') \<or>
                 pu_Fragment parsedURL \<noteq> ''''
              then Inl errContentSigningInvalid
              else if list_ex (\<lambda>(name, values). \<not> strings_EqualFold name ''Host'' \<or> length values \<noteq> 1 \<or>
                        \<not> strings_EqualFold (values ! 0) (pu_Host parsedURL)) (sg_SignedHeader req)
              then Inl errContentSigningInvalid
              else
                let expiresValues = query_values parsedURL ''X-Amz-Expires'';
                    signedHeadersValues = query_values parsedURL ''X-Amz-SignedHeaders'';
                    signingTimeValues = query_values parsedURL ''X-Amz-Date'';
                    signatureValues = query_values parsedURL ''X-Amz-Signature''
                in if length expiresValues \<noteq> 1 \<or> expiresValues ! 0 \<noteq> ''300'' \<or>
                      length signedHeadersValues \<noteq> 1 \<or> signedHeadersValues ! 0 \<noteq> ''host'' \<or>
                      length signingTimeValues \<noteq> 1 \<or> signingTimeValues ! 0 = '''' \<or>
                      length signatureValues \<noteq> 1 \<or> signatureValues ! 0 = ''''
                   then Inl errContentSigningInvalid
                   else case signed_expiry expiresValues signingTimeValues of
                     None \<Rightarrow> Inl errContentSigningInvalid
                   | Some expiresAt \<Rightarrow> Inr (sg_URL req, expiresAt))"

definition presignContentGET ::
  "environment \<Rightarrow> bool \<Rightarrow> string \<Rightarrow> (world, go_error + string \<times> time) state" where
  "presignContentGET E presigner key =
     (if \<not> presigner then State_Monad.return (Inl errContentSigningInvalid)
      else do {
        k \<leftarrow> next_tick;
        State_Monad.return (case env_presign_get E k key of
          Inl err \<Rightarrow> Inl err
        | Inr answer \<Rightarrow> accept_content_signature (env_url_Parse E) answer) })"

lemma ParseInt64_windows: "ParseInt64 ''900'' = Some 900" "ParseInt64 ''300'' = Some 300"
  by (simp_all add: ParseInt64_def ParseUint_def digit_value_def)

text \<open>What an accepted upload capability is: a \<^verbatim>\<open>PUT\<close> bound to the declared content type, which ends
  fifteen minutes after the instant it was signed.\<close>

lemma accept_upload_signature_Inr:
  assumes "accept_upload_signature url_Parse contentType answer = Inr request"
  shows "rq_Method request = ''PUT''" and "rq_Headers request = [(''Content-Type'', contentType)]"
    and "\<exists>req parsed t. answer = Some req \<and> rq_URL request = sg_URL req \<and>
      url_Parse (sg_URL req) = Some parsed \<and>
      parse_amz_date (query_values parsed ''X-Amz-Date'' ! 0) = Some t \<and>
      rq_ExpiresAt request = t + 15 * minute"
  using assms
  by (auto simp: accept_upload_signature_def Let_def signed_expiry_def ParseInt64_windows
      split: if_splits option.splits)

lemma accept_content_signature_Inr:
  assumes "accept_content_signature url_Parse answer = Inr (url, expiresAt)"
  shows "\<exists>req parsed t. answer = Some req \<and> url = sg_URL req \<and>
      url_Parse url = Some parsed \<and> pu_Scheme parsed \<in> {''http'', ''https''} \<and> pu_Host parsed \<noteq> '''' \<and>
      parse_amz_date (query_values parsed ''X-Amz-Date'' ! 0) = Some t \<and>
      expiresAt = t + 5 * minute"
  using assms
  by (auto simp: accept_content_signature_def Let_def signed_expiry_def ParseInt64_windows
      split: if_splits option.splits)

subsection \<open>The presigner interfaces\<close>

text \<open>A presigner takes readings only, and what it returns it granted for the key it was given.\<close>

locale upload_presigner =
  fixes presign :: "string \<Rightarrow> string \<Rightarrow> (world, go_error + uploadRequest) state"
    and grants :: "string \<Rightarrow> string \<Rightarrow> uploadRequest \<Rightarrow> bool"
  assumes presign_quiet: "quiet (presign key contentType) (\<lambda>r. \<forall>q. r = Inr q \<longrightarrow> grants key contentType q)"

locale content_presigner =
  fixes presign :: "string \<Rightarrow> (world, go_error + string \<times> time) state"
    and grants :: "string \<Rightarrow> string \<times> time \<Rightarrow> bool"
  assumes presign_quiet: "quiet (presign key) (\<lambda>r. \<forall>q. r = Inr q \<longrightarrow> grants key q)"

text \<open>Both are requests for a grant.\<close>

locale granting =
  fixes request :: "'k \<Rightarrow> (world, go_error + 'q) state"
    and grants :: "'k \<Rightarrow> 'q \<Rightarrow> bool"
  assumes request_quiet: "quiet (request k) (\<lambda>r. \<forall>q. r = Inr q \<longrightarrow> grants k q)"
begin

lemma granted_run:
  assumes "run_state (request k) w = (Inr q, w')"
  shows "grants k q" and "w_db w' = w_db w" and "s3_events w' = s3_events w"
  using quiet_run [OF request_quiet assms] by simp_all

end

sublocale upload_presigner \<subseteq> grant: granting "\<lambda>(key, contentType). presign key contentType"
    "\<lambda>(key, contentType). grants key contentType"
  by unfold_locales (auto intro: presign_quiet)

sublocale content_presigner \<subseteq> grant: granting presign grants
  by unfold_locales (rule presign_quiet)

text \<open>What the signer of the environment signed for a key, and the source accepted.\<close>

definition upload_granted :: "environment \<Rightarrow> string \<Rightarrow> string \<Rightarrow> uploadRequest \<Rightarrow> bool" where
  "upload_granted E key contentType q =
     (\<exists>k answer. env_presign_put E k key contentType = Inr answer \<and>
        accept_upload_signature (env_url_Parse E) contentType answer = Inr q)"

definition content_granted :: "environment \<Rightarrow> string \<Rightarrow> string \<times> time \<Rightarrow> bool" where
  "content_granted E key q =
     (\<exists>k answer. env_presign_get E k key = Inr answer \<and>
        accept_content_signature (env_url_Parse E) answer = Inr q)"

interpretation put_signer: upload_presigner "presignUploadPUT E presigner" "upload_granted E"
  for E presigner
proof
  fix key contentType
  show "quiet (presignUploadPUT E presigner key contentType)
      (\<lambda>r. \<forall>q. r = Inr q \<longrightarrow> upload_granted E key contentType q)"
    unfolding presignUploadPUT_def
    by (cases presigner)
       (auto intro!: quiet_tick quiet_return simp: upload_granted_def split: sum.splits, blast)
qed

interpretation get_signer: content_presigner "presignContentGET E presigner" "content_granted E"
  for E presigner
proof
  fix key
  show "quiet (presignContentGET E presigner key) (\<lambda>r. \<forall>q. r = Inr q \<longrightarrow> content_granted E key q)"
    unfolding presignContentGET_def
    by (cases presigner)
       (auto intro!: quiet_tick quiet_return simp: content_granted_def split: sum.splits, blast)
qed

end
