(* ===== verification/Uploads.thy ===== *)
theory Uploads
  imports Storage
begin

section \<open>Creating, replaying and reading uploads\<close>

text \<open>
  Models the record types of \<^verbatim>\<open>http.go\<close> and the creation and read paths of \<^verbatim>\<open>postgres.go\<close>:
  \<^verbatim>\<open>createOrReplayUpload\<close>, \<^verbatim>\<open>authorizeReplay\<close>, \<^verbatim>\<open>recoverUnknownUploadCommit\<close>,
  \<^verbatim>\<open>getUploadByID\<close> and \<^verbatim>\<open>authorizeContentRead\<close>.  The presigner is an argument, as in the source;
  the client's lemmas are proved in the locales \<open>upload_presigner\<close> and \<open>content_presigner\<close>.
\<close>

subsection \<open>Data\<close>

record createUploadCommand =
  cc_IdempotencyKey :: string
  cc_SizeBytes :: int
  cc_ContentType :: string

record uploadImage =
  im_SizeBytes :: int
  im_ContentType :: string
  im_Width :: int
  im_Height :: int

text \<open>The text of \<^verbatim>\<open>State\<close> is kept as the column's value, a failure as its code.\<close>

record uploadRepresentation =
  up_UploadID :: string
  up_State :: upload_state
  up_DeclaredSizeBytes :: int
  up_DeclaredContentType :: string
  up_UploadDeadline :: time
  up_UploadRequest :: "uploadRequest option"
  up_Failure :: "string option"
  up_Image :: "uploadImage option"

record storedUpload =
  st_Upload :: uploadRepresentation
  st_StagingKey :: string
  st_MaxWriteExpiresAt :: time
  st_DatabaseNow :: time

record createUploadResult =
  cr_Upload :: uploadRepresentation
  cr_Created :: bool

record contentReadResult =
  cn_UploadID :: string
  cn_State :: upload_state
  cn_FailureCode :: string
  cn_URL :: string
  cn_ExpiresAt :: time

subsection \<open>Rows as representations\<close>

definition decorateUploadRepresentation :: "uploadRepresentation \<Rightarrow> uploadRepresentation" where
  "decorateUploadRepresentation upload =
     (if up_State upload = Expired then upload\<lparr>up_Failure := Some ''upload_expired''\<rparr> else upload)"

definition row_representation :: "upload_row \<Rightarrow> uploadRepresentation" where
  "row_representation u =
     \<lparr>up_UploadID = u_upload_id u, up_State = u_state u, up_DeclaredSizeBytes = u_declared_size u,
      up_DeclaredContentType = u_declared_content_type u, up_UploadDeadline = u_upload_deadline u,
      up_UploadRequest = None, up_Failure = None, up_Image = None\<rparr>"

text \<open>The last column scanned is the one the statement selects as \<open>DatabaseNow\<close>.\<close>

definition scanStoredUpload :: "upload_row \<Rightarrow> time \<Rightarrow> storedUpload" where
  "scanStoredUpload u databaseNow =
     \<lparr>st_Upload = decorateUploadRepresentation (row_representation u),
      st_StagingKey = u_staging_key u, st_MaxWriteExpiresAt = u_max_write_expires_at u,
      st_DatabaseNow = databaseNow\<rparr>"

definition uploadMatchesCommand :: "storedUpload \<Rightarrow> createUploadCommand \<Rightarrow> bool" where
  "uploadMatchesCommand upload command =
     (up_DeclaredSizeBytes (st_Upload upload) = cc_SizeBytes command \<and>
      up_DeclaredContentType (st_Upload upload) = cc_ContentType command)"

definition uploadAcceptsWrites :: "storedUpload \<Rightarrow> bool" where
  "uploadAcceptsWrites upload =
     ((up_State (st_Upload upload) = Pending \<or> up_State (st_Upload upload) = Finalizing) \<and>
      st_DatabaseNow upload < up_UploadDeadline (st_Upload upload))"

lemma scan_simps [simp]:
  "st_StagingKey (scanStoredUpload u now) = u_staging_key u"
  "st_MaxWriteExpiresAt (scanStoredUpload u now) = u_max_write_expires_at u"
  "st_DatabaseNow (scanStoredUpload u now) = now"
  "up_UploadID (st_Upload (scanStoredUpload u now)) = u_upload_id u"
  "up_State (st_Upload (scanStoredUpload u now)) = u_state u"
  "up_DeclaredSizeBytes (st_Upload (scanStoredUpload u now)) = u_declared_size u"
  "up_DeclaredContentType (st_Upload (scanStoredUpload u now)) = u_declared_content_type u"
  "up_UploadDeadline (st_Upload (scanStoredUpload u now)) = u_upload_deadline u"
  "up_UploadRequest (st_Upload (scanStoredUpload u now)) = None"
  "up_Image (st_Upload (scanStoredUpload u now)) = None"
  by (simp_all add: scanStoredUpload_def decorateUploadRepresentation_def row_representation_def)

subsection \<open>Reading an upload\<close>

definition image_content_type :: "string \<Rightarrow> string option" where
  "image_content_type format =
     (if format = ''jpeg'' then Some ''image/jpeg''
      else if format = ''png'' then Some ''image/png'' else None)"

text \<open>\<^verbatim>\<open>getUploadByID\<close> after the query: the row and, through the \<^verbatim>\<open>LEFT JOIN\<close>, its published candidate.\<close>

definition represent_upload :: "upload_row \<Rightarrow> candidate_row option \<Rightarrow> go_error + uploadRepresentation" where
  "represent_upload u c =
     (let upload = row_representation u in
      case u_state u of
        Ready \<Rightarrow>
          (case c of
             None \<Rightarrow> Inl errServiceUnavailable
           | Some row \<Rightarrow>
               (case image_content_type (c_image_format row) of
                  None \<Rightarrow> Inl errServiceUnavailable
                | Some ctype \<Rightarrow>
                    Inr (decorateUploadRepresentation (upload\<lparr>up_Image :=
                      Some \<lparr>im_SizeBytes = c_encoded_size row, im_ContentType = ctype,
                            im_Width = c_width row, im_Height = c_height row\<rparr>\<rparr>))))
      | Rejected \<Rightarrow>
          (case (u_rejection_class u, u_rejection_reason u) of
             (Some cls, Some reason) \<Rightarrow>
               (let failureCode = publicFailureCode cls reason
                in if failureCode = '''' then Inl errServiceUnavailable
                   else Inr (decorateUploadRepresentation (upload\<lparr>up_Failure := Some failureCode\<rparr>)))
           | _ \<Rightarrow> Inl errServiceUnavailable)
      | _ \<Rightarrow> Inr (decorateUploadRepresentation upload))"

definition select_upload_by_id :: "string \<Rightarrow> time \<Rightarrow> db \<Rightarrow> go_error + upload_row \<times> candidate_row option" where
  "select_upload_by_id uploadID now d =
     (case find_upload_by_id uploadID d of None \<Rightarrow> Inl errNoRows | Some u \<Rightarrow> Inr (u, final_candidate u d))"

definition getUploadByID :: "environment \<Rightarrow> string \<Rightarrow> (world, go_error + uploadRepresentation) state" where
  "getUploadByID E uploadID = do {
     row \<leftarrow> pool_query E (select_upload_by_id uploadID);
     case row of
       Inl err \<Rightarrow> State_Monad.return (Inl (if errors_Is err ErrNoRows then errUploadNotFound
                                    else errServiceUnavailable))
     | Inr (u, c) \<Rightarrow> State_Monad.return (represent_upload u c) }"

definition select_content :: "string \<Rightarrow> time \<Rightarrow> db \<Rightarrow> go_error + upload_row" where
  "select_content uploadID now d =
     (case find_upload_by_id uploadID d of None \<Rightarrow> Inl errNoRows | Some u \<Rightarrow> Inr u)"

definition authorizeContentRead ::
  "environment \<Rightarrow> (string \<Rightarrow> (world, go_error + string \<times> time) state) \<Rightarrow> string
     \<Rightarrow> (world, go_error + contentReadResult) state" where
  "authorizeContentRead E presign uploadID = do {
     row \<leftarrow> pool_query E (select_content uploadID);
     case row of
       Inl err \<Rightarrow> State_Monad.return (Inl (if errors_Is err ErrNoRows then errUploadNotFound
                                    else errServiceUnavailable))
     | Inr u \<Rightarrow>
         (let result = \<lparr>cn_UploadID = u_upload_id u, cn_State = u_state u, cn_FailureCode = '''',
                        cn_URL = '''', cn_ExpiresAt = 0\<rparr>
          in case u_state u of
               Ready \<Rightarrow>
                 (case u_final_key u of
                    None \<Rightarrow> State_Monad.return (Inl errServiceUnavailable)
                  | Some finalKey \<Rightarrow> do {
                      granted \<leftarrow> presign finalKey;
                      case granted of
                        Inl err \<Rightarrow> State_Monad.return (Inl
                          (if errors_Is err ErrContentSigningInvalid then err else errServiceUnavailable))
                      | Inr (url, expiresAt) \<Rightarrow>
                          State_Monad.return (Inr (result\<lparr>cn_URL := url, cn_ExpiresAt := expiresAt\<rparr>)) })
             | Rejected \<Rightarrow>
                 (case (u_rejection_class u, u_rejection_reason u) of
                    (Some cls, Some reason) \<Rightarrow>
                      (let failureCode = publicFailureCode cls reason
                       in State_Monad.return (if failureCode = '''' then Inl errServiceUnavailable
                                              else Inr (result\<lparr>cn_FailureCode := failureCode\<rparr>)))
                  | _ \<Rightarrow> State_Monad.return (Inl errServiceUnavailable))
             | OtherState _ \<Rightarrow> State_Monad.return (Inl errServiceUnavailable)
             | _ \<Rightarrow> State_Monad.return (Inr result)) }"

subsection \<open>Creating and replaying\<close>

definition sql_insert_upload ::
  "string \<Rightarrow> createUploadCommand \<Rightarrow> string \<Rightarrow> time \<Rightarrow> time \<Rightarrow> db \<Rightarrow> go_error + storedUpload \<times> db" where
  "sql_insert_upload uploadID command stagingKey expiresAt now d =
     (let row = new_upload_row uploadID (cc_IdempotencyKey command) stagingKey
            (cc_SizeBytes command) (cc_ContentType command) expiresAt now
      in case insert_upload row d of
           Inl err \<Rightarrow> Inl err
         | Inr (n, d') \<Rightarrow>
             if n = 0 then Inl errNoRows else Inr (scanStoredUpload row (u_created_at row), d'))"

definition select_by_key :: "string \<Rightarrow> nat \<Rightarrow> time \<Rightarrow> db \<Rightarrow> go_error + storedUpload" where
  "select_by_key key k now d =
     (case find_upload_by_key key d of None \<Rightarrow> Inl errNoRows | Some u \<Rightarrow> Inr (scanStoredUpload u now))"

text \<open>\<^verbatim>\<open>SELECT ..., created_at ... FOR UPDATE\<close>.\<close>

definition lock_by_key :: "string \<Rightarrow> nat \<Rightarrow> time \<Rightarrow> db \<Rightarrow> go_error + storedUpload" where
  "lock_by_key key k now d =
     (case find_upload_by_key key d of
        None \<Rightarrow> Inl errNoRows | Some u \<Rightarrow> Inr (scanStoredUpload u (u_created_at u)))"

definition select_horizon :: "string \<Rightarrow> time \<Rightarrow> time \<Rightarrow> db \<Rightarrow> go_error + storedUpload \<times> bool" where
  "select_horizon key expiresAt now d =
     (case find_upload_by_key key d of
        None \<Rightarrow> Inl errNoRows
      | Some u \<Rightarrow> Inr (scanStoredUpload u now, timestamptz expiresAt \<le> u_max_write_expires_at u))"

text \<open>The answer for an upload that takes no more writes: a terminal one is read again in full.\<close>

definition replay_closed :: "environment \<Rightarrow> storedUpload \<Rightarrow> (world, go_error + createUploadResult) state" where
  "replay_closed E stored =
     (if terminal (up_State (st_Upload stored)) then do {
        fetched \<leftarrow> getUploadByID E (up_UploadID (st_Upload stored));
        case fetched of
          Inl err \<Rightarrow> State_Monad.return (Inl err)
        | Inr representation \<Rightarrow>
            State_Monad.return (Inr \<lparr>cr_Upload = representation, cr_Created = False\<rparr>) }
      else State_Monad.return (Inr \<lparr>cr_Upload = st_Upload stored, cr_Created = False\<rparr>))"

definition with_capability :: "storedUpload \<Rightarrow> uploadRequest \<Rightarrow> uploadRepresentation" where
  "with_capability stored request = (st_Upload stored)\<lparr>up_UploadRequest := Some request\<rparr>"

definition recoverUnknownUploadCommit ::
  "environment \<Rightarrow> createUploadCommand \<Rightarrow> string \<Rightarrow> string \<Rightarrow> uploadRequest \<Rightarrow> bool
     \<Rightarrow> (world, go_error + createUploadResult) state" where
  "recoverUnknownUploadCommit E command expectedUploadID expectedStagingKey request created = do {
     row \<leftarrow> pool_query E (select_horizon (cc_IdempotencyKey command) (rq_ExpiresAt request));
     case row of
       Inl err \<Rightarrow> State_Monad.return (Inl errServiceUnavailable)
     | Inr (current, horizonCoversRequest) \<Rightarrow>
         (if \<not> uploadMatchesCommand current command
          then State_Monad.return (Inl errIdempotencyKeyReused)
          else
            let expectedCapability = (up_UploadID (st_Upload current) = expectedUploadID \<and>
                                      st_StagingKey current = expectedStagingKey);
                created' = (created \<and> up_UploadID (st_Upload current) = expectedUploadID)
            in if uploadAcceptsWrites current then
                 (if \<not> expectedCapability \<or> \<not> horizonCoversRequest \<or>
                     \<not> st_DatabaseNow current < rq_ExpiresAt request
                  then State_Monad.return (Inl errServiceUnavailable)
                  else State_Monad.return (Inr
                    \<lparr>cr_Upload = with_capability current request, cr_Created = created'\<rparr>))
               else if terminal (up_State (st_Upload current)) then do {
                 fetched \<leftarrow> getUploadByID E (up_UploadID (st_Upload current));
                 case fetched of
                   Inl err \<Rightarrow> State_Monad.return (Inl err)
                 | Inr representation \<Rightarrow> State_Monad.return (Inr
                     \<lparr>cr_Upload = representation,
                      cr_Created = (created \<and> up_UploadID representation = expectedUploadID)\<rparr>) }
               else State_Monad.return (Inr \<lparr>cr_Upload = st_Upload current, cr_Created = created'\<rparr>)) }"

definition authorizeReplay ::
  "environment \<Rightarrow> createUploadCommand \<Rightarrow> storedUpload \<Rightarrow> uploadRequest
     \<Rightarrow> (world, go_error + createUploadResult) state" where
  "authorizeReplay E command expected request = deferring_rollback (do {
     began \<leftarrow> beginUploadTransaction E;
     case began of
       Inl err \<Rightarrow> State_Monad.return (Inl errServiceUnavailable)
     | Inr t0 \<Rightarrow> do {
         row \<leftarrow> query_sql E (lock_by_key (cc_IdempotencyKey command)) t0;
         case row of
           Inl err \<Rightarrow> State_Monad.return (Inl errServiceUnavailable)
         | Inr locked0 \<Rightarrow> do {
             clock \<leftarrow> select_clock E t0;
             case clock of
               Inl err \<Rightarrow> State_Monad.return (Inl errServiceUnavailable)
             | Inr databaseNow \<Rightarrow>
                 (let locked = locked0\<lparr>st_DatabaseNow := databaseNow\<rparr>
                  in if \<not> uploadMatchesCommand locked command then do {
                       rolledBack \<leftarrow> rollback_tx E;
                       State_Monad.return (Inl (if rolledBack \<noteq> None then errServiceUnavailable
                                                else errIdempotencyKeyReused)) }
                     else if up_UploadID (st_Upload locked) \<noteq> up_UploadID (st_Upload expected) \<or>
                             st_StagingKey locked \<noteq> st_StagingKey expected \<or>
                             \<not> uploadAcceptsWrites locked then do {
                       rolledBack \<leftarrow> rollback_tx E;
                       (if rolledBack \<noteq> None then State_Monad.return (Inl errServiceUnavailable)
                        else replay_closed E locked) }
                     else do {
                       updated \<leftarrow> exec_sql E (\<lambda>_. sql_raise_horizon (up_UploadID (st_Upload locked))
                                     (rq_ExpiresAt request)) t0;
                       case updated of
                         Inl err \<Rightarrow> State_Monad.return (Inl errServiceUnavailable)
                       | Inr (n, t1) \<Rightarrow>
                           (if n \<noteq> 1 then State_Monad.return (Inl errServiceUnavailable)
                            else do {
                              committed \<leftarrow> commit_tx E t1;
                              case committed of
                                None \<Rightarrow> do {
                                  wall \<leftarrow> time_Now E;
                                  State_Monad.return (if \<not> wall < rq_ExpiresAt request
                                    then Inl errServiceUnavailable
                                    else Inr \<lparr>cr_Upload = with_capability locked request,
                                              cr_Created = False\<rparr>) }
                              | Some err \<Rightarrow>
                                  recoverUnknownUploadCommit E command (up_UploadID (st_Upload locked))
                                    (st_StagingKey locked) request False }) }) } } })"

text \<open>\<^verbatim>\<open>createOrReplayUpload\<close> when the key is taken: the transaction \<open>t0\<close> is still open.\<close>

definition replay_existing ::
  "environment \<Rightarrow> (string \<Rightarrow> string \<Rightarrow> (world, go_error + uploadRequest) state) \<Rightarrow> createUploadCommand
     \<Rightarrow> db \<Rightarrow> (world, go_error + createUploadResult) state" where
  "replay_existing E presign command t0 = do {
     row \<leftarrow> query_sql E (select_by_key (cc_IdempotencyKey command)) t0;
     case row of
       Inl err \<Rightarrow> State_Monad.return (Inl errServiceUnavailable)
     | Inr existing \<Rightarrow> do {
         rolledBack \<leftarrow> rollback_tx E;
         (if rolledBack \<noteq> None then State_Monad.return (Inl errServiceUnavailable)
          else if \<not> uploadMatchesCommand existing command
          then State_Monad.return (Inl errIdempotencyKeyReused)
          else if \<not> uploadAcceptsWrites existing then replay_closed E existing
          else do {
            resigned \<leftarrow> presign (st_StagingKey existing) (up_DeclaredContentType (st_Upload existing));
            case resigned of
              Inl err \<Rightarrow> State_Monad.return (Inl (uploadSigningError err))
            | Inr replayRequest \<Rightarrow> authorizeReplay E command existing replayRequest }) } }"

definition createOrReplayUpload ::
  "environment \<Rightarrow> (string \<Rightarrow> string \<Rightarrow> (world, go_error + uploadRequest) state) \<Rightarrow> createUploadCommand
     \<Rightarrow> (world, go_error + createUploadResult) state" where
  "createOrReplayUpload E presign command = do {
     generated \<leftarrow> newUploadUUID E;
     case generated of
       Inl err \<Rightarrow> State_Monad.return (Inl errServiceUnavailable)
     | Inr uploadID \<Rightarrow> do {
         let stagingKey = staging_key_of uploadID;
         signedRequest \<leftarrow> presign stagingKey (cc_ContentType command);
         case signedRequest of
           Inl err \<Rightarrow> State_Monad.return (Inl (uploadSigningError err))
         | Inr request \<Rightarrow> deferring_rollback (do {
             began \<leftarrow> beginUploadTransaction E;
             case began of
               Inl err \<Rightarrow> State_Monad.return (Inl errServiceUnavailable)
             | Inr t0 \<Rightarrow> do {
                 inserted \<leftarrow> exec_sql E (sql_insert_upload uploadID command stagingKey
                               (rq_ExpiresAt request)) t0;
                 case inserted of
                   Inl err \<Rightarrow>
                     (if \<not> errors_Is err ErrNoRows then State_Monad.return (Inl errServiceUnavailable)
                      else replay_existing E presign command t0)
                 | Inr (stored, t1) \<Rightarrow> do {
                     committed \<leftarrow> commit_tx E t1;
                     case committed of
                       None \<Rightarrow> do {
                         wall \<leftarrow> time_Now E;
                         State_Monad.return (if \<not> wall < rq_ExpiresAt request
                           then Inl errServiceUnavailable
                           else Inr \<lparr>cr_Upload = with_capability stored request, cr_Created = True\<rparr>) }
                     | Some err \<Rightarrow>
                         recoverUnknownUploadCommit E command uploadID stagingKey request True } } }) } }"

subsection \<open>The contract of creation\<close>

text \<open>
  What an answer of \<open>createOrReplayUpload\<close> says about the database at that moment: it names a stored
  upload in its current state, and a capability in it was signed for the stored declaration and ends
  no later than the horizon that the row records.
\<close>

definition capability_covered ::
  "(string \<Rightarrow> string \<Rightarrow> uploadRequest \<Rightarrow> bool) \<Rightarrow> createUploadCommand \<Rightarrow> upload_row \<Rightarrow> uploadRequest \<Rightarrow> bool" where
  "capability_covered grants command u q =
     (u_idempotency_key u = cc_IdempotencyKey command \<and>
      u_declared_size u = cc_SizeBytes command \<and>
      u_declared_content_type u = cc_ContentType command \<and>
      u_state u \<in> {Pending, Finalizing} \<and>
      timestamptz (rq_ExpiresAt q) \<le> u_max_write_expires_at u \<and>
      grants (u_staging_key u) (u_declared_content_type u) q)"

definition answer_ok ::
  "(string \<Rightarrow> string \<Rightarrow> uploadRequest \<Rightarrow> bool) \<Rightarrow> createUploadCommand \<Rightarrow> uploadRepresentation \<Rightarrow> db \<Rightarrow> bool" where
  "answer_ok grants command upload d =
     (\<exists>u\<in>set (uploads d). u_upload_id u = up_UploadID upload \<and> u_state u = up_State upload \<and>
        (\<forall>q. up_UploadRequest upload = Some q \<longrightarrow> capability_covered grants command u q))"

text \<open>The upload was created under the command's idempotency key, with the command's declaration.\<close>

definition declared_by :: "createUploadCommand \<Rightarrow> string \<Rightarrow> db \<Rightarrow> bool" where
  "declared_by command uid d =
     (\<exists>u\<in>set (uploads d). u_upload_id u = uid \<and> u_idempotency_key u = cc_IdempotencyKey command \<and>
        u_declared_size u = cc_SizeBytes command \<and> u_declared_content_type u = cc_ContentType command)"

definition create_contract ::
  "(string \<Rightarrow> string \<Rightarrow> uploadRequest \<Rightarrow> bool) \<Rightarrow> createUploadCommand \<Rightarrow> go_error + createUploadResult \<Rightarrow> db \<Rightarrow> bool" where
  "create_contract grants command r d =
     (\<forall>res. r = Inr res \<longrightarrow>
        answer_ok grants command (cr_Upload res) d \<and> declared_by command (up_UploadID (cr_Upload res)) d)"

lemma create_contract_simps [simp]:
  "create_contract grants command (Inl err) d"
  "create_contract grants command (Inr res) d =
     (answer_ok grants command (cr_Upload res) d \<and> declared_by command (up_UploadID (cr_Upload res)) d)"
  by (simp_all add: create_contract_def)

lemma declared_by_update:
  assumes "update_uploads p f d = Inr (n, d')" and "declared_by command uid d"
    and "\<And>u. u_upload_id (f u) = u_upload_id u \<and> u_idempotency_key (f u) = u_idempotency_key u \<and>
      u_declared_size (f u) = u_declared_size u \<and> u_declared_content_type (f u) = u_declared_content_type u"
  shows "declared_by command uid d'"
proof -
  from assms(2) obtain u where "u \<in> set (uploads d)" and u: "u_upload_id u = uid"
    "u_idempotency_key u = cc_IdempotencyKey command" "u_declared_size u = cc_SizeBytes command"
    "u_declared_content_type u = cc_ContentType command" unfolding declared_by_def by blast
  then have "patched p f u \<in> set (uploads d')" by (simp add: update_uploads_patched [OF assms(1)])
  then show ?thesis
    unfolding declared_by_def by (rule bexI [rotated]) (use assms(3) u in \<open>simp add: patched_def\<close>)
qed

lemma declared_by_same: "set (uploads d) \<subseteq> set (uploads d') \<Longrightarrow> declared_by command uid d \<Longrightarrow> declared_by command uid d'"
  by (auto simp: declared_by_def)

lemma declared_by_ensured: "ensured uid' targets d d' \<Longrightarrow> declared_by command uid d \<Longrightarrow> declared_by command uid d'"
  by (drule ensured_appends, drule appended_tombstones_frame(1)) (simp add: declared_by_def)

lemma declared_by_step: "db_step d d' \<Longrightarrow> declared_by command uid d \<Longrightarrow> declared_by command uid d'"
proof (induction rule: db_step.induct)
  case create
  then show ?case by (auto dest!: insert_upload_Inr intro: declared_by_same [rotated])
next
  case register
  then show ?case by (auto dest!: insert_candidate_Inr intro: declared_by_same [rotated])
next
  case reserve
  then show ?case by (auto dest!: update_tombstones_Inr(2) intro: declared_by_same [rotated] simp: sql_reserve_def)
next
  case cleanup_result
  then show ?case
    by (auto dest!: update_tombstones_Inr(2) intro: declared_by_same [rotated] simp: sql_cleanup_result_def)
next
  case (expire_pending u d now d1 d')
  then have "declared_by command uid d1" by (auto elim!: declared_by_update simp: sql_update_defs)
  with expire_pending(5) show ?case by (rule declared_by_ensured)
next
  case (ready uid' token d u now sel d1 d')
  with declared_by_ensured [OF ready(5)] show ?case by (auto elim!: declared_by_update simp: sql_update_defs)
next
  case (rejected uid' token d u now d1 cls reason phase ev d')
  with declared_by_ensured [OF rejected(3)] show ?case by (auto elim!: declared_by_update simp: sql_update_defs)
next
  case (expire_missing uid' token d u now horizon d1 d')
  with declared_by_ensured [OF expire_missing(6)] show ?case
    by (auto elim!: declared_by_update simp: sql_update_defs)
qed (auto elim!: declared_by_update simp: sql_update_defs)

lemma declared_by_steps: "db_steps d d' \<Longrightarrow> declared_by command uid d \<Longrightarrow> declared_by command uid d'"
  by (induction rule: rtranclp_induct) (auto elim: db_step.cases intro: declared_by_step)

lemma represent_upload_Inr:
  assumes "represent_upload u c = Inr upload"
  shows "up_UploadID upload = u_upload_id u" "up_State upload = u_state u"
    "up_UploadRequest upload = None"
  using assms
  by (auto simp: represent_upload_def row_representation_def decorateUploadRepresentation_def Let_def
      split: upload_state.splits option.splits if_splits)

lemma select_upload_by_id_Inr:
  "select_upload_by_id uid now d = Inr (u, c) \<Longrightarrow> u \<in> set (uploads d) \<and> u_upload_id u = uid"
  by (auto simp: select_upload_by_id_def split: option.splits dest: find_upload_by_id_SomeD)

text \<open>A stored row answers for itself; with a capability, if its horizon covers it.\<close>

lemma answer_scanned:
  "u \<in> set (uploads d) \<Longrightarrow> answer_ok grants command (st_Upload (scanStoredUpload u now)) d"
  unfolding answer_ok_def by (rule bexI [of _ u]) simp_all

lemma answer_granted:
  assumes "u \<in> set (uploads d)" and "u_upload_id u = up_UploadID (st_Upload stored)"
    and "u_state u = up_State (st_Upload stored)" and "capability_covered grants command u q"
  shows "answer_ok grants command (with_capability stored q) d"
  unfolding answer_ok_def with_capability_def
  using assms by (intro bexI [of _ u]) simp_all

lemma select_by_key_Inr:
  "select_by_key key k now d = Inr stored \<Longrightarrow>
     \<exists>u. u \<in> set (uploads d) \<and> u_idempotency_key u = key \<and> stored = scanStoredUpload u now"
  by (auto simp: select_by_key_def split: option.splits dest: find_upload_by_key_SomeD)

lemma lock_by_key_Inr:
  "lock_by_key key k now d = Inr stored \<Longrightarrow>
     \<exists>u. u \<in> set (uploads d) \<and> u_idempotency_key u = key \<and> stored = scanStoredUpload u (u_created_at u)"
  by (auto simp: lock_by_key_def split: option.splits dest: find_upload_by_key_SomeD)

lemma select_horizon_Inr:
  "select_horizon key expiresAt now d = Inr (stored, covers) \<Longrightarrow>
     \<exists>u. u \<in> set (uploads d) \<and> u_idempotency_key u = key \<and> stored = scanStoredUpload u now \<and>
       (covers \<longleftrightarrow> timestamptz expiresAt \<le> u_max_write_expires_at u)"
  by (auto simp: select_horizon_def split: option.splits dest: find_upload_by_key_SomeD)

lemma sql_insert_upload_Inr:
  assumes "sql_insert_upload uploadID command (staging_key_of uploadID) expiresAt now d = Inr (stored, d')"
  shows "db_steps d d'"
    and "\<exists>u\<in>set (uploads d'). stored = scanStoredUpload u now \<and>
      u = new_upload_row uploadID (cc_IdempotencyKey command)
        (staging_key_of uploadID) (cc_SizeBytes command) (cc_ContentType command) expiresAt now"
proof -
  let ?row = "new_upload_row uploadID (cc_IdempotencyKey command)
      (staging_key_of uploadID) (cc_SizeBytes command) (cc_ContentType command) expiresAt now"
  from assms obtain n where n: "insert_upload ?row d = Inr (n, d')" "n \<noteq> 0"
    and stored: "stored = scanStoredUpload ?row (u_created_at ?row)"
    by (auto simp: sql_insert_upload_def Let_def split: sum.splits if_splits)
  from insert_upload_Inr [OF n(1)] n(2) have "n = 1" and d': "d' = d\<lparr>uploads := uploads d @ [?row]\<rparr>"
    by auto
  with n(1) show "db_steps d d'" by (blast intro: step_create)
  have "u_created_at ?row = now" by (simp add: new_upload_row_def)
  with stored d' show "\<exists>u\<in>set (uploads d'). stored = scanStoredUpload u now \<and> u = ?row" by simp
qed

lemma answer_inserted:
  assumes "sql_insert_upload uploadID command (staging_key_of uploadID) (rq_ExpiresAt q) now d = Inr (stored, d')"
    and "grants (staging_key_of uploadID) (cc_ContentType command) q"
  shows "answer_ok grants command (with_capability stored q) d'"
proof -
  from sql_insert_upload_Inr(2) [OF assms(1)] obtain u
    where u: "u \<in> set (uploads d')" "stored = scanStoredUpload u now"
      "u = new_upload_row uploadID (cc_IdempotencyKey command)
        (staging_key_of uploadID) (cc_SizeBytes command) (cc_ContentType command) (rq_ExpiresAt q) now"
    by blast
  have "capability_covered grants command u q"
    using assms(2) by (simp add: u(3) capability_covered_def new_upload_row_def)
  with u(1,2) show ?thesis by (intro answer_granted) simp_all
qed

lemma answer_locked:
  "lock_by_key key k now d = Inr stored \<Longrightarrow> answer_ok grants command (st_Upload stored) d"
  "select_by_key key k now d = Inr stored \<Longrightarrow> answer_ok grants command (st_Upload stored) d"
  by (auto dest!: lock_by_key_Inr select_by_key_Inr intro: answer_scanned)

lemma matches_clock [simp]:
  "uploadMatchesCommand (stored\<lparr>st_DatabaseNow := now\<rparr>) command = uploadMatchesCommand stored command"
  by (simp add: uploadMatchesCommand_def)

lemma with_capability_id [simp]: "up_UploadID (with_capability stored q) = up_UploadID (st_Upload stored)"
  by (simp add: with_capability_def)

text \<open>A row found under the command's key that matches its declaration is the command's.\<close>

lemma declared_found:
  "lock_by_key (cc_IdempotencyKey command) k now d = Inr stored \<Longrightarrow> uploadMatchesCommand stored command \<Longrightarrow>
     declared_by command (up_UploadID (st_Upload stored)) d"
  "select_by_key (cc_IdempotencyKey command) k now d = Inr stored \<Longrightarrow> uploadMatchesCommand stored command \<Longrightarrow>
     declared_by command (up_UploadID (st_Upload stored)) d"
  "select_horizon (cc_IdempotencyKey command) expiresAt now d = Inr (stored, covers) \<Longrightarrow>
     uploadMatchesCommand stored command \<Longrightarrow> declared_by command (up_UploadID (st_Upload stored)) d"
  by (auto dest!: lock_by_key_Inr select_by_key_Inr select_horizon_Inr
      simp: declared_by_def uploadMatchesCommand_def)

lemma declared_inserted:
  assumes "sql_insert_upload uploadID command (staging_key_of uploadID) expiresAt now d = Inr (stored, d')"
  shows "declared_by command (up_UploadID (st_Upload stored)) d'"
proof -
  from sql_insert_upload_Inr(2) [OF assms] obtain u
    where "u \<in> set (uploads d')" and u: "stored = scanStoredUpload u now"
      "u = new_upload_row uploadID (cc_IdempotencyKey command)
        (staging_key_of uploadID) (cc_SizeBytes command) (cc_ContentType command) expiresAt now"
    by blast
  then show ?thesis unfolding declared_by_def by (intro bexI [of _ u]) (simp_all add: new_upload_row_def)
qed

lemma raise_horizon_step:
  assumes "lock_by_key key k now d = Inr stored"
    and "uploadAcceptsWrites (stored\<lparr>st_DatabaseNow := clock\<rparr>)"
    and "sql_raise_horizon (up_UploadID (st_Upload stored)) expiresAt d = Inr (Suc 0, d')"
  shows "db_steps d d'"
proof -
  from lock_by_key_Inr [OF assms(1)] obtain u
    where u: "u \<in> set (uploads d)" and stored: "stored = scanStoredUpload u (u_created_at u)"
    by blast
  from assms(2) have "u_state u \<in> {Pending, Finalizing}"
    by (auto simp: uploadAcceptsWrites_def stored)
  with u assms(3) show ?thesis by (auto simp: stored intro!: r_into_rtranclp step_raise_horizon)
qed

lemma declared_raised:
  assumes "lock_by_key (cc_IdempotencyKey command) k now d = Inr stored" and "uploadMatchesCommand stored command"
    and "uploadAcceptsWrites (stored\<lparr>st_DatabaseNow := clock\<rparr>)"
    and "sql_raise_horizon uid expiresAt d = Inr (Suc 0, d')" and "up_UploadID (st_Upload stored) = uid"
  shows "declared_by command uid d'"
  using declared_by_steps [OF raise_horizon_step [OF assms(1,3)] declared_found(1) [OF assms(1,2)]] assms(4,5) by simp

lemma answer_raised:
  assumes lock: "lock_by_key (cc_IdempotencyKey command) k now d = Inr stored"
    and writes: "uploadAcceptsWrites (stored\<lparr>st_DatabaseNow := clock\<rparr>)"
    and matches: "uploadMatchesCommand (stored\<lparr>st_DatabaseNow := clock\<rparr>) command"
    and upd: "sql_raise_horizon (up_UploadID (st_Upload stored)) (rq_ExpiresAt q) d = Inr (n, d')"
    and q: "grants (st_StagingKey stored) (cc_ContentType command) q"
  shows "answer_ok grants command (with_capability (stored\<lparr>st_DatabaseNow := clock\<rparr>) q) d'"
proof -
  from lock_by_key_Inr [OF lock] obtain u
    where u: "u \<in> set (uploads d)" "u_idempotency_key u = cc_IdempotencyKey command"
      and stored: "stored = scanStoredUpload u (u_created_at u)"
    by blast
  let ?u = "u\<lparr>u_max_write_expires_at := max (u_max_write_expires_at u) (timestamptz (rq_ExpiresAt q))\<rparr>"
  have "?u \<in> set (uploads d')"
    using update_uploads_Inr(2) [OF upd [unfolded sql_raise_horizon_def]] u(1)
    by (auto simp: stored image_iff)
  then show ?thesis
    by (rule answer_granted)
       (use u(2) writes matches q in \<open>auto simp: stored capability_covered_def uploadMatchesCommand_def
          uploadAcceptsWrites_def\<close>)
qed

subsection \<open>Refinement and contract of every path\<close>

lemma service_getUploadByID:
  assumes "peers_ok E"
  shows "service (getUploadByID E uploadID) (\<lambda>r d. \<forall>upload. r = Inr upload \<longrightarrow>
    up_UploadID upload = uploadID \<and> answer_ok grants command upload d)"
  unfolding getUploadByID_def
proof (intro vcg assms)
  fix d' now x u c
  assume sel: "select_upload_by_id uploadID now d' = Inr x" and "x = (u, c)"
  then have "u \<in> set (uploads d')" "u_upload_id u = uploadID"
    by (auto dest: select_upload_by_id_Inr)
  then show "\<forall>upload. represent_upload u c = Inr upload \<longrightarrow>
      up_UploadID upload = uploadID \<and> answer_ok grants command upload d'"
    unfolding answer_ok_def using represent_upload_Inr by (auto intro!: bexI [of _ u])
qed simp_all

lemma service_replay_closed:
  assumes "peers_ok E" and "answer_ok grants command (st_Upload stored) d"
    and "declared_by command (up_UploadID (st_Upload stored)) d"
  shows "triple (idle w\<^sub>0 d) (replay_closed E stored) (ends w\<^sub>0 (create_contract grants command))"
  unfolding replay_closed_def
  by (intro vcg service_bind [OF service_getUploadByID [where grants = grants and command = command]] assms(1))
     (simp_all add: assms(2,3) declared_by_steps [OF _ assms(3)])

lemma answer_recovered:
  assumes "select_horizon (cc_IdempotencyKey command) (rq_ExpiresAt q) now d = Inr (stored, covers)"
    and "uploadMatchesCommand stored command" and "grants key (cc_ContentType command) q"
  shows "answer_ok grants command (st_Upload stored) d"
    and "uploadAcceptsWrites stored \<Longrightarrow> st_StagingKey stored = key \<Longrightarrow> covers \<Longrightarrow> answer_ok grants command (with_capability stored q) d"
proof -
  from select_horizon_Inr [OF assms(1)] obtain u
    where u: "u \<in> set (uploads d)" "u_idempotency_key u = cc_IdempotencyKey command"
      "stored = scanStoredUpload u now" "covers \<longleftrightarrow> timestamptz (rq_ExpiresAt q) \<le> u_max_write_expires_at u"
    by blast
  show "answer_ok grants command (st_Upload stored) d"
    using u(1,3) by (simp add: answer_scanned)
  assume "uploadAcceptsWrites stored" "st_StagingKey stored = key" and covers
  with u assms(2,3) have "capability_covered grants command u q"
    by (auto simp: capability_covered_def uploadAcceptsWrites_def uploadMatchesCommand_def)
  with u(1,3) show "answer_ok grants command (with_capability stored q) d"
    by (intro answer_granted) simp_all
qed

lemma service_recover:
  assumes "peers_ok E" and q: "grants key (cc_ContentType command) q"
  shows "service (recoverUnknownUploadCommit E command uid key q created) (create_contract grants command)"
  unfolding recoverUnknownUploadCommit_def Let_def
  by (intro vcg service_bind [OF service_getUploadByID [where grants = grants and command = command]]
      assms(1))
     (auto dest: declared_found(3) simp: declared_by_steps [OF _ declared_found(3)] answer_recovered [where grants = grants and key = key, OF _ _ q])

lemma service_authorizeReplay:
  assumes "peers_ok E" and q: "grants (st_StagingKey expected) (cc_ContentType command) q"
  shows "service (authorizeReplay E command expected q) (create_contract grants command)"
  unfolding authorizeReplay_def Let_def
  by (intro vcg service_replay_closed service_tail [OF service_recover [where grants = grants, OF assms(1)]]
      assms(1))
     (use q in \<open>auto intro: answer_locked raise_horizon_step answer_raised declared_found
         declared_raised\<close>)

context upload_presigner
begin

lemma presign_bind:
  assumes "readable pre" and "\<And>err. triple pre (A err) Q"
    and "\<And>q. grants key contentType q \<Longrightarrow> triple pre (B q) Q"
  shows "triple pre (State_Monad.bind (presign key contentType) (case_sum A B)) Q"
  by (rule quiet_bind [OF presign_quiet assms(1)])
     (auto intro: assms(2,3) split: sum.splits)

lemma replay_existing_triple:
  assumes "peers_ok E"
  shows "triple (busy w\<^sub>0 t0) (replay_existing E presign command t0) (ends w\<^sub>0 (create_contract grants command))"
  unfolding replay_existing_def
  by (intro vcg presign_bind service_replay_closed service_tail [OF service_authorizeReplay] assms)
     (auto intro: answer_locked declared_found simp: uploadMatchesCommand_def)

lemma service_create:
  assumes "peers_ok E"
  shows "service (createOrReplayUpload E presign command) (create_contract grants command)"
  unfolding createOrReplayUpload_def Let_def
  by (intro vcg presign_bind replay_existing_triple service_tail [OF service_recover] assms)
     (auto intro: sql_insert_upload_Inr(1) answer_inserted declared_inserted)

end

text \<open>
  What an answer of \<open>authorizeContentRead\<close> says: it names a stored upload in its state, and for a
  ready one carries a grant for the published object.
\<close>

definition content_ok ::
  "(string \<Rightarrow> string \<times> time \<Rightarrow> bool) \<Rightarrow> string \<Rightarrow> contentReadResult \<Rightarrow> db \<Rightarrow> bool" where
  "content_ok grants uid res d =
     (\<exists>u\<in>set (uploads d). u_upload_id u = uid \<and> cn_UploadID res = uid \<and> cn_State res = u_state u \<and>
        (u_state u = Ready \<longrightarrow> (\<exists>key. u_final_key u = Some key \<and> grants key (cn_URL res, cn_ExpiresAt res))) \<and>
        (\<forall>s. u_state u \<noteq> OtherState s))"

context content_presigner
begin

lemma presign_content_bind:
  assumes "readable pre" and "\<And>err. triple pre (A err) Q"
    and "\<And>q. grants key q \<Longrightarrow> triple pre (B q) Q"
  shows "triple pre (State_Monad.bind (presign key) (case_sum A B)) Q"
  by (rule quiet_bind [OF presign_quiet assms(1)]) (auto intro: assms(2,3) split: sum.splits)

lemma select_content_Inr:
  "select_content uid now d = Inr u \<Longrightarrow> u \<in> set (uploads d) \<and> u_upload_id u = uid"
  by (auto simp: select_content_def split: option.splits dest: find_upload_by_id_SomeD)

lemma service_content:
  assumes "peers_ok E"
  shows "service (authorizeContentRead E presign uploadID)
    (\<lambda>r d. \<forall>res. r = Inr res \<longrightarrow> content_ok grants uploadID res d)"
  unfolding authorizeContentRead_def Let_def
  by (intro vcg presign_content_bind assms)
     (auto simp: content_ok_def dest!: select_content_Inr)

end

end
