(* ===== verification/Json.thy ===== *)
theory Json
  imports Uploads
begin

section \<open>Decoding the body of a creation request\<close>

text \<open>
  Models \<^verbatim>\<open>decodeCreateUploadBody\<close> of \<^verbatim>\<open>http.go\<close> and, of \<^verbatim>\<open>encoding/json\<close>, the streaming
  decoder as the function uses it: \<^verbatim>\<open>Token\<close>, \<^verbatim>\<open>More\<close> and \<^verbatim>\<open>Decode\<close> into an \<^verbatim>\<open>int64\<close> and a
  \<^verbatim>\<open>string\<close>.  Strings are byte strings.  Where the source treats two outcomes alike (a syntax
  error and a value of the wrong kind), so does the model.
\<close>

subsection \<open>Characters and literals\<close>

definition json_space :: "char \<Rightarrow> bool" where
  "json_space c = (of_char c \<in> {9, 10, 13, 32 :: nat})"

definition skip_space :: "string \<Rightarrow> string" where
  "skip_space s = dropWhile json_space s"

text \<open>The digits of a number, then what follows them.\<close>

definition span_digits :: "string \<Rightarrow> string \<times> string" where
  "span_digits s =
     (takeWhile (\<lambda>c. digit_value c \<noteq> None) s, dropWhile (\<lambda>c. digit_value c \<noteq> None) s)"

text \<open>The integer part: a zero stands alone.\<close>

definition scan_int :: "string \<Rightarrow> (string \<times> string) option" where
  "scan_int s =
     (case s of
        [] \<Rightarrow> None
      | c # r \<Rightarrow>
          if c = CHR ''0'' then Some ([c], r)
          else if digit_value c = None then None else Some (span_digits s))"

definition scan_fraction :: "string \<Rightarrow> (string \<times> string) option" where
  "scan_fraction s =
     (if HasPrefix s ''.'' then
        (let (digits, r) = span_digits (drop 1 s) in if digits = [] then None else Some (''.'' @ digits, r))
      else Some ([], s))"

definition scan_exponent :: "string \<Rightarrow> (string \<times> string) option" where
  "scan_exponent s =
     (if HasPrefix s ''e'' \<or> HasPrefix s ''E'' then
        (let sign = (if HasPrefix (drop 1 s) ''+'' \<or> HasPrefix (drop 1 s) ''-'' then 1 else 0);
             (digits, r) = span_digits (drop (1 + sign) s)
         in if digits = [] then None else Some (take (1 + sign) s @ digits, r))
      else Some ([], s))"

text \<open>A number literal and the rest of the input, as the scanner of \<^verbatim>\<open>readValue\<close> delimits it.\<close>

definition scan_number :: "string \<Rightarrow> (string \<times> string) option" where
  "scan_number s =
     (let sign = (if HasPrefix s ''-'' then 1 else 0)
      in case scan_int (drop sign s) of
           None \<Rightarrow> None
         | Some (whole, r) \<Rightarrow>
             (case scan_fraction r of
                None \<Rightarrow> None
              | Some (fraction, r) \<Rightarrow>
                  (case scan_exponent r of
                     None \<Rightarrow> None
                   | Some (exponent, r) \<Rightarrow> Some (take sign s @ whole @ fraction @ exponent, r))))"

subsection \<open>Text\<close>

definition hex_value :: "char \<Rightarrow> int option" where
  "hex_value c =
     (let n = of_char c :: int
      in if 48 \<le> n \<and> n \<le> 57 then Some (n - 48)
         else if 97 \<le> n \<and> n \<le> 102 then Some (n - 87)
         else if 65 \<le> n \<and> n \<le> 70 then Some (n - 55)
         else None)"

text \<open>\<^verbatim>\<open>getu4\<close>: the code unit of a \<open>\\uXXXX\<close> at the head of the text.\<close>

fun getu4 :: "string \<Rightarrow> int option" where
  "getu4 (b # u # x1 # x2 # x3 # x4 # r) =
     (if b = CHR 0x5C \<and> u = CHR ''u'' then
        (case (hex_value x1, hex_value x2, hex_value x3, hex_value x4) of
           (Some h1, Some h2, Some h3, Some h4) \<Rightarrow> Some (h1 * 4096 + h2 * 256 + h3 * 16 + h4)
         | _ \<Rightarrow> None)
      else None)"
| "getu4 _ = None"

text \<open>\<^verbatim>\<open>utf8.AppendRune\<close>.\<close>

definition append_rune :: "int \<Rightarrow> string" where
  "append_rune r =
     map char_of
       (if r < 0x80 then [r]
        else if r < 0x800 then [0xC0 + r div 64, 0x80 + r mod 64]
        else if r < 0x10000 then [0xE0 + r div 4096, 0x80 + r div 64 mod 64, 0x80 + r mod 64]
        else [0xF0 + r div 262144, 0x80 + r div 4096 mod 64, 0x80 + r div 64 mod 64, 0x80 + r mod 64])"

definition replacement :: int where "replacement = 0xFFFD"

definition is_surrogate :: "int \<Rightarrow> bool" where
  "is_surrogate r = (0xD800 \<le> r \<and> r < 0xE000)"

text \<open>\<^verbatim>\<open>utf16.DecodeRune\<close>; \<open>None\<close> is the replacement character.\<close>

definition decode_surrogates :: "int \<Rightarrow> int \<Rightarrow> int option" where
  "decode_surrogates r1 r2 =
     (if 0xD800 \<le> r1 \<and> r1 < 0xDC00 \<and> 0xDC00 \<le> r2 \<and> r2 < 0xE000
      then Some ((r1 - 0xD800) * 1024 + (r2 - 0xDC00) + 0x10000) else None)"

text \<open>The length of the well-formed UTF-8 sequence at the head of the text; 0 if there is none.\<close>

definition continuation :: "string \<Rightarrow> nat \<Rightarrow> int \<Rightarrow> int \<Rightarrow> bool" where
  "continuation s k lo hi = (k < length s \<and> lo \<le> of_char (s ! k) \<and> of_char (s ! k) \<le> hi)"

definition rune_length :: "string \<Rightarrow> nat" where
  "rune_length s =
     (case s of
        [] \<Rightarrow> 0
      | c # _ \<Rightarrow>
          (let b = of_char c :: int;
               tail = (\<lambda>k. continuation s k 0x80 0xBF)
           in if b < 0x80 then 1
              else if 0xC2 \<le> b \<and> b \<le> 0xDF \<and> tail 1 then 2
              else if b = 0xE0 \<and> continuation s 1 0xA0 0xBF \<and> tail 2 then 3
              else if b = 0xED \<and> continuation s 1 0x80 0x9F \<and> tail 2 then 3
              else if 0xE1 \<le> b \<and> b \<le> 0xEF \<and> b \<noteq> 0xED \<and> tail 1 \<and> tail 2 then 3
              else if b = 0xF0 \<and> continuation s 1 0x90 0xBF \<and> tail 2 \<and> tail 3 then 4
              else if b = 0xF4 \<and> continuation s 1 0x80 0x8F \<and> tail 2 \<and> tail 3 then 4
              else if 0xF1 \<le> b \<and> b \<le> 0xF3 \<and> tail 1 \<and> tail 2 \<and> tail 3 then 4
              else 0))"

definition escape_value :: "char \<Rightarrow> char option" where
  "escape_value c =
     (if c = CHR 0x22 \<or> c = CHR 0x5C \<or> c = CHR ''/'' then Some c
      else if c = CHR ''b'' then Some (CHR 0x08)
      else if c = CHR ''f'' then Some (CHR 0x0C)
      else if c = CHR ''n'' then Some (CHR 0x0A)
      else if c = CHR ''r'' then Some (CHR 0x0D)
      else if c = CHR ''t'' then Some (CHR 0x09)
      else None)"

text \<open>
  A string literal after its opening quote: the text it denotes and the rest of the input, or
  \<open>None\<close> if it is malformed.  The scanner delimits the literal and \<^verbatim>\<open>unquoteBytes\<close> reads it;
  here the two passes are one.
\<close>

function unquote :: "string \<Rightarrow> (string \<times> string) option" where
  "unquote s =
     (case s of
        [] \<Rightarrow> None
      | c # r \<Rightarrow>
          if c = CHR 0x22 then Some ([], r)
          else if of_char c < (0x20 :: int) then None
          else if c = CHR 0x5C then
            (case r of
               [] \<Rightarrow> None
             | e # r' \<Rightarrow>
                 (case escape_value e of
                    Some x \<Rightarrow> map_option (apfst ((#) x)) (unquote r')
                  | None \<Rightarrow>
                      (case getu4 s of
                         None \<Rightarrow> None
                       | Some u \<Rightarrow>
                           if \<not> is_surrogate u
                           then map_option (apfst ((@) (append_rune u))) (unquote (drop 6 s))
                           else (case Option.bind (getu4 (drop 6 s)) (decode_surrogates u) of
                                   Some wide \<Rightarrow>
                                     map_option (apfst ((@) (append_rune wide))) (unquote (drop 12 s))
                                 | None \<Rightarrow>
                                     map_option (apfst ((@) (append_rune replacement)))
                                       (unquote (drop 6 s))))))
          else (let k = rune_length s
                in if k = 0
                   then map_option (apfst ((@) (append_rune replacement))) (unquote r)
                   else map_option (apfst ((@) (take k s))) (unquote (drop k s))))"
  by pat_completeness auto
termination
  by (relation "measure length") auto

declare unquote.simps [simp del]

subsection \<open>The decoder\<close>

text \<open>The states of \<^verbatim>\<open>Decoder.tokenState\<close>; an array is refused where it begins.\<close>

datatype token_state = TopValue | ObjectStart | ObjectKey | ObjectColon | ObjectValue | ObjectComma

record decoder =
  d_rest :: string
  d_state :: token_state
  d_stack :: "token_state list"

text \<open>\<open>NoToken\<close> is an error, or a value that is neither a string nor a delimiter of objects.\<close>

datatype json_token = Delim char | StringToken string | NoToken

definition NewDecoder :: "string \<Rightarrow> decoder" where
  "NewDecoder encoded = \<lparr>d_rest = encoded, d_state = TopValue, d_stack = []\<rparr>"

definition tokenValueAllowed :: "token_state \<Rightarrow> bool" where
  "tokenValueAllowed s = (s = TopValue \<or> s = ObjectValue)"

definition tokenValueEnd :: "token_state \<Rightarrow> token_state" where
  "tokenValueEnd s = (if s = ObjectValue then ObjectComma else s)"

text \<open>\<^verbatim>\<open>tokenPrepareForDecode\<close>: the colon before a member's value.\<close>

definition tokenPrepareForDecode :: "decoder \<Rightarrow> decoder option" where
  "tokenPrepareForDecode d =
     (if d_state d = ObjectColon then
        (case skip_space (d_rest d) of
           [] \<Rightarrow> None
         | c # r \<Rightarrow> if c = CHR '':'' then Some (d\<lparr>d_rest := r, d_state := ObjectValue\<rparr>) else None)
      else Some d)"

text \<open>\<^verbatim>\<open>Decode\<close> into a pointer to a type whose literals are \<open>literal\<close>: \<open>None\<close> is an error,
  \<open>Some (None, d)\<close> a null.\<close>

definition Decode :: "(string \<Rightarrow> ('a \<times> string) option) \<Rightarrow> decoder \<Rightarrow> ('a option \<times> decoder) option" where
  "Decode literal d0 =
     (case tokenPrepareForDecode d0 of
        None \<Rightarrow> None
      | Some d \<Rightarrow>
          if \<not> tokenValueAllowed (d_state d) then None
          else (let s = skip_space (d_rest d); d' = d\<lparr>d_state := tokenValueEnd (d_state d)\<rparr>
                in if HasPrefix s ''null'' then Some (None, d'\<lparr>d_rest := drop 4 s\<rparr>)
                   else (case literal s of
                           None \<Rightarrow> None
                         | Some (x, r) \<Rightarrow> Some (Some x, d'\<lparr>d_rest := r\<rparr>))))"

definition int64_literal :: "string \<Rightarrow> (int \<times> string) option" where
  "int64_literal s =
     (case scan_number s of
        None \<Rightarrow> None
      | Some (digits, r) \<Rightarrow> (case ParseInt64 digits of None \<Rightarrow> None | Some n \<Rightarrow> Some (n, r)))"

definition string_literal :: "string \<Rightarrow> (string \<times> string) option" where
  "string_literal s = (case s of [] \<Rightarrow> None | c # r \<Rightarrow> if c = CHR 0x22 then unquote r else None)"

text \<open>\<^verbatim>\<open>Token\<close>: a comma between members is consumed on the way.\<close>

lemma skip_space_shorter: "skip_space s = c # r \<Longrightarrow> length r < length s"
  unfolding skip_space_def using length_dropWhile_le [of json_space s] by simp

function Token :: "decoder \<Rightarrow> json_token \<times> decoder" where
  "Token d =
     (case skip_space (d_rest d) of
        [] \<Rightarrow> (NoToken, d)
      | c # r \<Rightarrow>
          if c = CHR 0x7B then
            (if tokenValueAllowed (d_state d)
             then (Delim c, d\<lparr>d_rest := r, d_state := ObjectStart, d_stack := d_state d # d_stack d\<rparr>)
             else (NoToken, d))
          else if c = CHR 0x7D then
            (case d_stack d of
               s # stack \<Rightarrow>
                 (if d_state d = ObjectStart \<or> d_state d = ObjectComma
                  then (Delim c, d\<lparr>d_rest := r, d_state := tokenValueEnd s, d_stack := stack\<rparr>)
                  else (NoToken, d))
             | [] \<Rightarrow> (NoToken, d))
          else if c = CHR '':'' then
            (if d_state d = ObjectColon then Token (d\<lparr>d_rest := r, d_state := ObjectValue\<rparr>) else (NoToken, d))
          else if c = CHR '','' then
            (if d_state d = ObjectComma then Token (d\<lparr>d_rest := r, d_state := ObjectKey\<rparr>) else (NoToken, d))
          else if c = CHR 0x22 \<and> (d_state d = ObjectStart \<or> d_state d = ObjectKey) then
            (case unquote r of
               None \<Rightarrow> (NoToken, d)
             | Some (x, r') \<Rightarrow> (StringToken x, d\<lparr>d_rest := r', d_state := ObjectColon\<rparr>))
          else if c = CHR 0x22 \<and> tokenValueAllowed (d_state d) then
            (case unquote r of
               None \<Rightarrow> (NoToken, d)
             | Some (x, r') \<Rightarrow>
                 (StringToken x, d\<lparr>d_rest := r', d_state := tokenValueEnd (d_state d)\<rparr>))
          else (NoToken, d))"
  by pat_completeness auto
termination
  by (relation "measure (length \<circ> d_rest)") (auto dest: skip_space_shorter)

declare Token.simps [simp del]

definition More :: "decoder \<Rightarrow> bool" where
  "More d = (case skip_space (d_rest d) of [] \<Rightarrow> False | c # _ \<Rightarrow> c \<noteq> CHR '']'' \<and> c \<noteq> CHR 0x7D)"

text \<open>\<^verbatim>\<open>Decode(&struct{}{}) == io.EOF\<close>: nothing but space is left.\<close>

definition at_EOF :: "decoder \<Rightarrow> bool" where
  "at_EOF d = (tokenValueAllowed (d_state d) \<and> skip_space (d_rest d) = [])"

subsection \<open>The body\<close>

text \<open>The loop over the members: the values seen so far, and the decoder after the last member.\<close>

function decode_fields ::
  "decoder \<Rightarrow> int option \<Rightarrow> string option \<Rightarrow> (int option \<times> string option \<times> decoder) option" where
  "decode_fields d size_seen type_seen =
     (if \<not> More d then Some (size_seen, type_seen, d)
      else case Token d of
        (StringToken field, d) \<Rightarrow>
          if field = ''size_bytes'' then
            (if size_seen \<noteq> None then None
             else case Decode int64_literal d of
               Some (Some size_bytes, d) \<Rightarrow> decode_fields d (Some size_bytes) type_seen
             | _ \<Rightarrow> None)
          else if field = ''content_type'' then
            (if type_seen \<noteq> None then None
             else case Decode string_literal d of
               Some (Some content_type, d) \<Rightarrow> decode_fields d size_seen (Some content_type)
             | _ \<Rightarrow> None)
          else None
      | _ \<Rightarrow> None)"
  by pat_completeness auto
termination
  by (relation "measure (\<lambda>(d, size_seen, type_seen).
        (if size_seen = None then 1 else 0) + (if type_seen = None then 1 else 0))") auto

declare decode_fields.simps [simp del]

definition decodeCreateUploadBody :: "string \<Rightarrow> createUploadCommand option" where
  "decodeCreateUploadBody encoded =
     (case Token (NewDecoder encoded) of
        (Delim c, d) \<Rightarrow>
          if c \<noteq> CHR 0x7B then None
          else (case decode_fields d None None of
            Some (Some size_bytes, Some content_type, d) \<Rightarrow>
              (case Token d of
                 (Delim c, d) \<Rightarrow>
                   if c = CHR 0x7D \<and> at_EOF d
                   then Some \<lparr>cc_IdempotencyKey = [], cc_SizeBytes = size_bytes, cc_ContentType = content_type\<rparr>
                   else None
               | _ \<Rightarrow> None)
          | _ \<Rightarrow> None)
      | _ \<Rightarrow> None)"

subsection \<open>What a client may send\<close>

text \<open>
  Every text of a creation request: the two members in either order, any white space between any two
  tokens, the size a decimal numeral, and the two names and the content type string literals of the JSON
  grammar, in which any character may be written as it stands or escaped.
\<close>

fun decimal_nat :: "nat \<Rightarrow> string" where
  "decimal_nat n =
     (if n < 10 then [''0123456789'' ! n] else decimal_nat (n div 10) @ [''0123456789'' ! (n mod 10)])"

declare decimal_nat.simps [simp del]

definition decimal :: "int \<Rightarrow> string" where
  "decimal n = (if n < 0 then ''-'' @ decimal_nat (nat (- n)) else decimal_nat (nat n))"

text \<open>The literal \<open>l\<close>, without its quotes, denotes \<open>s\<close>.\<close>

definition unicode_escape :: "string \<Rightarrow> string" where
  "unicode_escape h = [CHR 0x5C, CHR ''u''] @ h"

inductive denotes :: "string \<Rightarrow> string \<Rightarrow> bool" where
  empty: "denotes [] []"
| rune: "rune_length (c # t) = length (c # t) \<Longrightarrow> c \<noteq> CHR 0x22 \<Longrightarrow> c \<noteq> CHR 0x5C \<Longrightarrow> \<not> of_char c < (0x20 :: int) \<Longrightarrow>
     denotes l s \<Longrightarrow> denotes ((c # t) @ l) ((c # t) @ s)"
| short: "escape_value e = Some x \<Longrightarrow> denotes l s \<Longrightarrow> denotes (CHR 0x5C # e # l) (x # s)"
| unicode: "length h = 4 \<Longrightarrow> getu4 (unicode_escape h) = Some u \<Longrightarrow> \<not> is_surrogate u \<Longrightarrow>
     denotes l s \<Longrightarrow> denotes (unicode_escape h @ l) (append_rune u @ s)"
| surrogates: "length h = 4 \<Longrightarrow> length h' = 4 \<Longrightarrow> getu4 (unicode_escape h) = Some u \<Longrightarrow>
     getu4 (unicode_escape h') = Some u' \<Longrightarrow> decode_surrogates u u' = Some wide \<Longrightarrow>
     denotes l s \<Longrightarrow> denotes (unicode_escape h @ unicode_escape h' @ l) (append_rune wide @ s)"

definition plain_char :: "char \<Rightarrow> bool" where
  "plain_char c = (0x20 \<le> (of_char c :: int) \<and> (of_char c :: int) < 0x80 \<and> c \<noteq> CHR 0x22 \<and> c \<noteq> CHR 0x5C)"

lemma denotes_plain: "list_all plain_char s \<Longrightarrow> denotes s s"
proof (induction s)
  case (Cons c s)
  then have c: "plain_char c" and IH: "denotes s s" by simp_all
  then have "rune_length [c] = length [c]" by (simp add: rune_length_def plain_char_def)
  from denotes.rune [OF this _ _ _ IH] c show ?case by (simp add: plain_char_def)
qed (rule denotes.empty)

definition quoted :: "string \<Rightarrow> string" where
  "quoted s = [CHR 0x22] @ s @ [CHR 0x22]"

text \<open>A member whose white space is \<open>gap i\<close> to \<open>gap (i + 3)\<close>; the body has ten places for white space.\<close>

definition member_text :: "(nat \<Rightarrow> string) \<Rightarrow> nat \<Rightarrow> string \<Rightarrow> string \<Rightarrow> string" where
  "member_text gap i name literal =
     gap i @ quoted name @ gap (i + 1) @ '':'' @ gap (i + 2) @ literal @ gap (i + 3)"

definition create_body :: "(nat \<Rightarrow> string) \<Rightarrow> string \<times> string \<Rightarrow> string \<times> string \<Rightarrow> string" where
  "create_body gap earlier later =
     gap 8 @ [CHR 0x7B] @ member_text gap 0 (fst earlier) (snd earlier) @ '','' @
     member_text gap 4 (fst later) (snd later) @ [CHR 0x7D] @ gap 9"

subsection \<open>Literals\<close>

text \<open>A well-formed rune is recognised by its own bytes.\<close>

lemma continuation_Cons:
  "continuation (c # s) 1 lo hi \<longleftrightarrow> (\<exists>x t. s = x # t \<and> lo \<le> of_char x \<and> of_char x \<le> hi)"
  "continuation (c # s) 2 lo hi \<longleftrightarrow> (\<exists>w x t. s = w # x # t \<and> lo \<le> of_char x \<and> of_char x \<le> hi)"
  "continuation (c # s) 3 lo hi \<longleftrightarrow> (\<exists>v w x t. s = v # w # x # t \<and> lo \<le> of_char x \<and> of_char x \<le> hi)"
  unfolding continuation_def
  by (cases s; cases "tl s"; cases "tl (tl s)"; auto simp: nth_Cons')+

lemma if_elim: "(if b then x else y) = k \<Longrightarrow> (b \<Longrightarrow> x = k \<Longrightarrow> P) \<Longrightarrow> (y = k \<Longrightarrow> P) \<Longrightarrow> P"
  by (simp split: if_splits)

lemma rune_length_prefix:
  assumes "rune_length s = k" and "k \<noteq> 0"
  shows "rune_length (take k s @ r) = k \<and> k \<le> length s"
proof (cases s)
  case Nil
  then show ?thesis using assms by (simp add: rune_length_def)
next
  case (Cons c t)
  from assms(1) show ?thesis
    unfolding Cons rune_length_def [of "c # t"] list.case Let_def continuation_Cons
    by (elim if_elim) (use assms(2) in \<open>auto simp: rune_length_def Let_def continuation_Cons continuation_Cons(1) [unfolded One_nat_def]\<close>)
qed

lemma unquote_getu4:
  assumes "getu4 (CHR 0x5C # CHR ''u'' # h1 # h2 # h3 # h4 # r) = Some u" and "\<not> is_surrogate u"
  shows "unquote (CHR 0x5C # CHR ''u'' # h1 # h2 # h3 # h4 # r) = map_option (apfst ((@) (append_rune u))) (unquote r)"
  using assms by (subst unquote.simps) (simp add: escape_value_def del: getu4.simps)

lemma skip_space_gap [simp]:
  "list_all json_space g \<Longrightarrow> skip_space (g @ s) = skip_space s"
  by (induction g) (auto simp: skip_space_def)

lemma skip_space_Cons [simp]: "\<not> json_space c \<Longrightarrow> skip_space (c # s) = c # s"
  by (simp add: skip_space_def)

lemma skip_space_only [simp]: "list_all json_space g \<Longrightarrow> skip_space g = []"
  by (induction g) (auto simp: skip_space_def)

lemma getu4_prefix:
  assumes "length h = 4" and "getu4 (unicode_escape h) = Some u"
  shows "\<exists>h1 h2 h3 h4. \<forall>r. unicode_escape h @ r = CHR 0x5C # CHR ''u'' # h1 # h2 # h3 # h4 # r \<and>
    getu4 (CHR 0x5C # CHR ''u'' # h1 # h2 # h3 # h4 # r) = Some u"
proof -
  from assms(1) obtain h1 h2 h3 h4 where "h = [h1, h2, h3, h4]"
    by (auto simp: numeral_eq_Suc length_Suc_conv)
  with assms(2) show ?thesis
    by (intro exI [of _ h1] exI [of _ h2] exI [of _ h3] exI [of _ h4]) (simp add: unicode_escape_def)
qed

lemma unquote_rune:
  assumes "rune_length (c # t) = length (c # t)" and "c \<noteq> CHR 0x22" "c \<noteq> CHR 0x5C" "\<not> of_char c < (0x20 :: int)"
  shows "unquote ((c # t) @ r) = map_option (apfst ((@) (c # t))) (unquote r)"
proof -
  have "rune_length (c # t @ r) = Suc (length t)"
    using rune_length_prefix [OF assms(1), of r] by simp
  then show ?thesis
    using assms(2-4) by (subst append_Cons, subst unquote.simps) simp
qed

lemma unquote_denotes: "denotes l s \<Longrightarrow> unquote (l @ CHR 0x22 # r) = Some (s, r)"
proof (induction rule: denotes.induct)
  case empty
  show ?case by (simp add: unquote.simps)
next
  case (rune c t l s)
  then show ?case using unquote_rune [OF rune(1-4), of "l @ CHR 0x22 # r"] by simp
next
  case (short e x l s)
  then show ?case by (subst append_Cons, subst unquote.simps) simp
next
  case (unicode h u l s)
  from getu4_prefix [OF unicode(1,2)] obtain h1 h2 h3 h4 where
    h: "\<And>r. unicode_escape h @ r = CHR 0x5C # CHR ''u'' # h1 # h2 # h3 # h4 # r"
      "\<And>r. getu4 (CHR 0x5C # CHR ''u'' # h1 # h2 # h3 # h4 # r) = Some u" by blast
  show ?case
    using unquote_getu4 [OF h(2) unicode(3), of "l @ CHR 0x22 # r"] unicode(5) by (simp only: append_assoc h(1)) simp
next
  case (surrogates h h' u u' wide l s)
  from getu4_prefix [OF surrogates(1,3)] obtain h1 h2 h3 h4 where
    h: "\<And>r. unicode_escape h @ r = CHR 0x5C # CHR ''u'' # h1 # h2 # h3 # h4 # r"
      "\<And>r. getu4 (CHR 0x5C # CHR ''u'' # h1 # h2 # h3 # h4 # r) = Some u" by blast
  from getu4_prefix [OF surrogates(2,4)] obtain k1 k2 k3 k4 where
    k: "\<And>r. unicode_escape h' @ r = CHR 0x5C # CHR ''u'' # k1 # k2 # k3 # k4 # r"
      "\<And>r. getu4 (CHR 0x5C # CHR ''u'' # k1 # k2 # k3 # k4 # r) = Some u'" by blast
  have "is_surrogate u" using surrogates(5) by (auto simp: decode_surrogates_def is_surrogate_def split: if_splits)
  then show ?case
    using surrogates(5,7)
    by (simp only: append_assoc h(1) k(1), subst unquote.simps)
       (simp add: escape_value_def h(2) k(2) del: getu4.simps)
qed

lemma digit_char:
  assumes "n < 10"
  shows "digit_value (''0123456789'' ! n) = Some (int n)"
proof -
  have "n \<in> {0, 1, 2, 3, 4, 5, 6, 7, 8, 9}" using assms by auto
  then show ?thesis by (auto simp: digit_value_def)
qed

lemma digits_value_append:
  "digits_value s acc = Some m \<Longrightarrow> digits_value (s @ [c]) acc =
     (case digit_value c of None \<Rightarrow> None | Some d \<Rightarrow> Some (10 * m + d))"
  by (induction s arbitrary: acc) (auto split: option.splits)

lemma digits_value_decimal: "digits_value (decimal_nat n) 0 = Some (int n)"
proof (induction n rule: decimal_nat.induct)
  case (1 n)
  show ?case
  proof (cases "n < 10")
    case True
    then show ?thesis using digit_char [OF True] by (subst decimal_nat.simps) simp
  next
    case False
    then have IH: "digits_value (decimal_nat (n div 10)) 0 = Some (int (n div 10))" by (rule 1)
    have "10 * int (n div 10) + int (n mod 10) = int n" by presburger
    with False IH show ?thesis
      using digit_char [of "n mod 10"]
      by (subst decimal_nat.simps) (simp add: digits_value_append [OF IH])
  qed
qed

lemma decimal_digits: "list_all (\<lambda>c. digit_value c \<noteq> None) (decimal_nat n) \<and> decimal_nat n \<noteq> []"
proof (induction n rule: decimal_nat.induct)
  case (1 n)
  show ?case
    using 1 digit_char [of n] digit_char [of "n mod 10"] by (subst (1 2) decimal_nat.simps) auto
qed

text \<open>Only zero begins with a zero.\<close>

lemma decimal_head: "0 < n \<Longrightarrow> hd (decimal_nat n) \<noteq> CHR ''0''"
proof (induction n rule: decimal_nat.induct)
  case (1 n)
  show ?case
  proof (cases "n < 10")
    case True
    with 1(2) have "n \<in> {1, 2, 3, 4, 5, 6, 7, 8, 9}" by auto
    then show ?thesis by (subst decimal_nat.simps) auto
  next
    case False
    then have "hd (decimal_nat (n div 10)) \<noteq> CHR ''0''" using 1(1) by simp
    then show ?thesis
      using False decimal_digits [of "n div 10"] by (subst decimal_nat.simps) (simp add: hd_append)
  qed
qed

text \<open>A character that ends a number.\<close>

definition ends_number :: "char \<Rightarrow> bool" where
  "ends_number c = (digit_value c = None \<and> c \<noteq> CHR ''.'' \<and> c \<noteq> CHR ''e'' \<and> c \<noteq> CHR ''E'')"

lemma span_decimal:
  "list_all (\<lambda>c. digit_value c \<noteq> None) s \<Longrightarrow> ends_number c \<Longrightarrow> span_digits (s @ c # r) = (s, c # r)"
  by (induction s) (auto simp: span_digits_def ends_number_def)

lemma scan_int_decimal:
  assumes "ends_number c"
  shows "scan_int (decimal_nat n @ c # r) = Some (decimal_nat n, c # r)"
proof (cases "n = 0")
  case True
  then show ?thesis by (simp add: scan_int_def decimal_nat.simps)
next
  case False
  from decimal_digits [of n] obtain x xs where xs: "decimal_nat n = x # xs" "digit_value x \<noteq> None"
    by (cases "decimal_nat n") auto
  have "x \<noteq> CHR ''0''" using decimal_head [of n] False xs(1) by simp
  then show ?thesis
    using span_decimal [OF _ assms, of "decimal_nat n" r] decimal_digits [of n] xs
    by (simp add: scan_int_def)
qed

lemma digit_not_sign: "digit_value c \<noteq> None \<Longrightarrow> c \<noteq> CHR ''-'' \<and> c \<noteq> CHR ''+''"
  by (auto simp: digit_value_def)

lemma scan_decimal:
  assumes c: "ends_number c"
  shows "scan_number (decimal n @ c # r) = Some (decimal n, c # r)"
proof -
  have tail: "scan_fraction (c # r) = Some ([], c # r)" "scan_exponent (c # r) = Some ([], c # r)"
    using c by (auto simp: scan_fraction_def scan_exponent_def HasPrefix_single ends_number_def)
  obtain x xs where xs: "decimal_nat (nat n) = x # xs" "digit_value x \<noteq> None"
    using decimal_digits [of "nat n"] by (cases "decimal_nat (nat n)") auto
  then have "\<not> HasPrefix (decimal_nat (nat n) @ c # r) ''-''"
    using digit_not_sign [OF xs(2)] by (simp add: HasPrefix_single)
  moreover have "HasPrefix (''-'' @ s) ''-''" for s by (simp only: HasPrefix_append)
  ultimately show ?thesis
    using scan_int_decimal [OF c] tail
    by (cases "n < 0") (simp_all add: scan_number_def decimal_def)
qed

lemma ParseUint_decimal: "int n < 2 ^ 64 \<Longrightarrow> ParseUint 64 (decimal_nat n) = Some (int n)"
  using decimal_digits [of n] digits_value_decimal [of n] by (simp add: ParseUint_def)

lemma ParseInt64_decimal:
  assumes "- (2 ^ 63) \<le> n" and "n < 2 ^ 63"
  shows "ParseInt64 (decimal n) = Some n"
proof (cases "n < 0")
  case True
  then have "ParseUint 64 (decimal_nat (nat (- n))) = Some (- n)"
    using ParseUint_decimal [of "nat (- n)"] assms by simp
  with True assms show ?thesis by (simp add: ParseInt64_def decimal_def)
next
  case False
  then have "ParseUint 64 (decimal_nat (nat n)) = Some n"
    using ParseUint_decimal [of "nat n"] assms by simp
  moreover obtain x xs where "decimal_nat (nat n) = x # xs" "digit_value x \<noteq> None"
    using decimal_digits [of "nat n"] by (cases "decimal_nat (nat n)") auto
  ultimately show ?thesis
    using False assms digit_not_sign [of x] by (auto simp: ParseInt64_def decimal_def)
qed

subsection \<open>Every such body is accepted\<close>

text \<open>How the decoder reads one member.\<close>

definition spaced :: "(nat \<Rightarrow> string) \<Rightarrow> bool" where
  "spaced gap = (\<forall>i. list_all json_space (gap i))"

lemma delimiters_not_space [simp]:
  "\<not> json_space (CHR 0x22)" "\<not> json_space (CHR 0x7B)" "\<not> json_space (CHR 0x7D)"
  "\<not> json_space (CHR '':'')" "\<not> json_space (CHR '','')" "\<not> json_space (CHR ''-'')"
  by (simp_all add: json_space_def)

lemma space_ends_number: "json_space c \<Longrightarrow> ends_number c"
  by (auto simp: json_space_def ends_number_def digit_value_def less_eq_char_def)

lemma gap_ends_number:
  assumes "list_all json_space g" and "ends_number x"
  obtains c t where "g @ x # r = c # t" and "ends_number c"
  using assms by (cases g) (auto intro: space_ends_number)

lemma key_token:
  assumes "list_all json_space g" and "denotes name field" and "s = ObjectStart \<or> s = ObjectKey"
  shows "Token \<lparr>d_rest = g @ quoted name @ r, d_state = s, d_stack = st\<rparr> =
    (StringToken field, \<lparr>d_rest = r, d_state = ObjectColon, d_stack = st\<rparr>)"
  using assms unquote_denotes [OF assms(2), of r] by (subst Token.simps) (auto simp: quoted_def)

lemma comma_token:
  assumes "list_all json_space g"
  shows "Token \<lparr>d_rest = g @ CHR '','' # r, d_state = ObjectComma, d_stack = st\<rparr> =
    Token \<lparr>d_rest = r, d_state = ObjectKey, d_stack = st\<rparr>"
  using assms by (subst Token.simps) simp

lemma Decode_member:
  assumes "list_all json_space g" "list_all json_space g'" and "literal (x # t) = Some (v, r)"
    and "\<not> json_space x" and "x \<noteq> CHR ''n''"
  shows "Decode literal \<lparr>d_rest = g @ CHR '':'' # g' @ x # t, d_state = ObjectColon, d_stack = st\<rparr> =
    Some (Some v, \<lparr>d_rest = r, d_state = ObjectComma, d_stack = st\<rparr>)"
  using assms
  by (simp add: Decode_def tokenPrepareForDecode_def tokenValueAllowed_def tokenValueEnd_def HasPrefix_def)

lemma decimal_literal:
  assumes "- (2 ^ 63) \<le> n" "n < 2 ^ 63" and "list_all json_space g" "ends_number x"
  obtains c t where "decimal n @ g @ x # r = c # t" "\<not> json_space c" "c \<noteq> CHR ''n''"
    "int64_literal (c # t) = Some (n, g @ x # r)"
proof -
  obtain e u where e: "g @ x # r = e # u" "ends_number e" by (rule gap_ends_number [OF assms(3,4)])
  have lit: "int64_literal (decimal n @ g @ x # r) = Some (n, g @ x # r)"
    using scan_decimal [OF e(2), of n u] ParseInt64_decimal [OF assms(1,2)]
    by (simp add: int64_literal_def e(1))
  obtain y ys where y: "decimal_nat (nat n) = y # ys" "digit_value y \<noteq> None"
    using decimal_digits [of "nat n"] by (cases "decimal_nat (nat n)") auto
  from y(2) have "\<not> json_space y" "y \<noteq> CHR ''n''"
    by (auto simp: json_space_def digit_value_def less_eq_char_def)
  then show thesis
    using that [of "hd (decimal n @ g @ x # r)" "tl (decimal n @ g @ x # r)"] lit y(1)
    by (cases "n < 0") (auto simp: decimal_def)
qed

text \<open>Where a member may stand: after the opening brace, or after a comma.\<close>

definition at_member :: "string \<Rightarrow> token_state \<Rightarrow> bool" where
  "at_member pre s =
     (pre = [] \<and> s = ObjectStart \<or> (\<exists>g. pre = g @ '','' \<and> list_all json_space g) \<and> s = ObjectComma)"

lemma member_token:
  assumes "spaced gap" and "at_member pre s" and "denotes name field"
  shows "Token \<lparr>d_rest = pre @ member_text gap i name literal @ r, d_state = s, d_stack = st\<rparr> =
    (StringToken field,
     \<lparr>d_rest = gap (i + 1) @ CHR '':'' # gap (i + 2) @ literal @ gap (i + 3) @ r, d_state = ObjectColon, d_stack = st\<rparr>)"
    and "More \<lparr>d_rest = pre @ member_text gap i name literal @ r, d_state = s, d_stack = st\<rparr>"
proof -
  have gaps: "list_all json_space (gap j)" for j using assms(1) by (simp add: spaced_def)
  note key = key_token [OF gaps assms(3), of _ i "gap (i + 1) @ CHR '':'' # gap (i + 2) @ literal @ gap (i + 3) @ r" st]
  from assms(2) consider "pre = []" "s = ObjectStart"
    | g where "pre = g @ '',''" "list_all json_space g" "s = ObjectComma" by (auto simp: at_member_def)
  then show "Token \<lparr>d_rest = pre @ member_text gap i name literal @ r, d_state = s, d_stack = st\<rparr> =
      (StringToken field,
       \<lparr>d_rest = gap (i + 1) @ CHR '':'' # gap (i + 2) @ literal @ gap (i + 3) @ r, d_state = ObjectColon, d_stack = st\<rparr>)"
    using key by cases (simp_all add: member_text_def comma_token)
  from assms(2) show "More \<lparr>d_rest = pre @ member_text gap i name literal @ r, d_state = s, d_stack = st\<rparr>"
    by (auto simp: at_member_def More_def member_text_def quoted_def gaps)
qed

lemma size_member:
  assumes "spaced gap" and "at_member pre s" and "denotes name ''size_bytes''"
    and "- (2 ^ 63) \<le> n" "n < 2 ^ 63" and "ends_number x"
  shows "decode_fields \<lparr>d_rest = pre @ member_text gap i name (decimal n) @ x # r, d_state = s, d_stack = st\<rparr> None ty =
    decode_fields \<lparr>d_rest = gap (i + 3) @ x # r, d_state = ObjectComma, d_stack = st\<rparr> (Some n) ty"
proof -
  have gaps: "list_all json_space (gap j)" for j using assms(1) by (simp add: spaced_def)
  from decimal_literal [OF assms(4,5) gaps assms(6)] obtain c t where
    c: "decimal n @ gap (i + 3) @ x # r = c # t" "\<not> json_space c" "c \<noteq> CHR ''n''"
      "int64_literal (c # t) = Some (n, gap (i + 3) @ x # r)" by blast
  show ?thesis
    by (subst decode_fields.simps)
       (simp only: member_token [OF assms(1-3)] c(1) prod.case json_token.case simp_thms if_True if_False
         Decode_member [where literal = int64_literal, OF gaps gaps c(4,2,3)] option.case)
qed

lemma type_member:
  assumes "spaced gap" and "at_member pre s" and "denotes name ''content_type''" and "denotes literal ctype"
  shows "decode_fields \<lparr>d_rest = pre @ member_text gap i name (quoted literal) @ r, d_state = s, d_stack = st\<rparr> sz None =
    decode_fields \<lparr>d_rest = gap (i + 3) @ r, d_state = ObjectComma, d_stack = st\<rparr> sz (Some ctype)"
proof -
  have gaps: "list_all json_space (gap j)" for j using assms(1) by (simp add: spaced_def)
  have lit: "string_literal (CHR 0x22 # literal @ CHR 0x22 # gap (i + 3) @ r) = Some (ctype, gap (i + 3) @ r)"
    by (simp add: string_literal_def unquote_denotes [OF assms(4)])
  note decoded = Decode_member [where literal = string_literal, OF gaps [of "i + 1"] gaps [of "i + 2"] lit delimiters_not_space(1), simplified]
  show ?thesis
    using member_token [OF assms(1-3), of i "quoted literal" r st]
    by (subst decode_fields.simps) (simp add: quoted_def decoded)
qed

lemma last_member:
  assumes "list_all json_space g"
  shows "decode_fields \<lparr>d_rest = g @ CHR 0x7D # r, d_state = s, d_stack = st\<rparr> sz ty =
    Some (sz, ty, \<lparr>d_rest = g @ CHR 0x7D # r, d_state = s, d_stack = st\<rparr>)"
  using assms by (subst decode_fields.simps) (simp add: More_def)

lemma skip_space_Nil: "skip_space s = [] \<longleftrightarrow> list_all json_space s"
  by (simp add: skip_space_def dropWhile_eq_Nil_conv list_all_iff)

lemma decode_create_body:
  assumes "spaced gap" and "denotes size_name ''size_bytes''" "denotes type_name ''content_type''" "denotes literal ctype"
    and "- (2 ^ 63) \<le> n" "n < 2 ^ 63"
    and "(earlier, later) = ((size_name, decimal n), (type_name, quoted literal)) \<or>
      (earlier, later) = ((type_name, quoted literal), (size_name, decimal n))"
  shows "decodeCreateUploadBody (create_body gap earlier later @ trailer) =
    (if list_all json_space trailer
     then Some \<lparr>cc_IdempotencyKey = [], cc_SizeBytes = n, cc_ContentType = ctype\<rparr> else None)"
proof -
  let ?members = "member_text gap 0 (fst earlier) (snd earlier) @ '','' @ member_text gap 4 (fst later) (snd later)"
  have gaps: "list_all json_space (gap i)" for i using assms(1) by (simp add: spaced_def)
  have opened: "Token (NewDecoder (create_body gap earlier later @ trailer)) =
      (Delim (CHR 0x7B), \<lparr>d_rest = ?members @ CHR 0x7D # gap 9 @ trailer, d_state = ObjectStart, d_stack = [TopValue]\<rparr>)"
    by (subst Token.simps) (simp add: NewDecoder_def create_body_def gaps tokenValueAllowed_def)
  have start: "at_member [] ObjectStart" and after: "at_member (gap 3 @ '','') ObjectComma"
    using gaps [of 3] by (auto simp: at_member_def)
  have ends: "ends_number (CHR '','')" "ends_number (CHR 0x7D)"
    by (simp_all add: ends_number_def digit_value_def)
  note members = size_member [OF assms(1) _ assms(2,5,6)] type_member [OF assms(1) _ assms(3,4)]
  have fields: "decode_fields \<lparr>d_rest = ?members @ CHR 0x7D # gap 9 @ trailer, d_state = ObjectStart,
      d_stack = [TopValue]\<rparr> None None =
    Some (Some n, Some ctype, \<lparr>d_rest = gap 7 @ CHR 0x7D # gap 9 @ trailer, d_state = ObjectComma, d_stack = [TopValue]\<rparr>)"
    using assms(7)
  proof
    assume "(earlier, later) = ((size_name, decimal n), (type_name, quoted literal))"
    then show ?thesis
      using members(1) [OF start ends(1), of 0] members(2) [OF after, of 4] last_member [OF gaps [of 7]] by simp
  next
    assume "(earlier, later) = ((type_name, quoted literal), (size_name, decimal n))"
    then show ?thesis
      using members(2) [OF start, of 0] members(1) [OF after ends(2), of 4] last_member [OF gaps [of 7]] by simp
  qed
  have closed: "Token \<lparr>d_rest = gap 7 @ CHR 0x7D # gap 9 @ trailer, d_state = ObjectComma, d_stack = [TopValue]\<rparr> =
      (Delim (CHR 0x7D), \<lparr>d_rest = gap 9 @ trailer, d_state = TopValue, d_stack = []\<rparr>)"
    by (subst Token.simps) (simp add: gaps tokenValueEnd_def)
  show ?thesis
    by (simp add: decodeCreateUploadBody_def opened fields [simplified] closed at_EOF_def tokenValueAllowed_def gaps skip_space_Nil)
qed

end
