(* ===== verification/Loops.thy ===== *)
theory Loops
  imports Effects
begin

section \<open>Worker loops\<close>

text \<open>
  The two background workers are Go loops \<^verbatim>\<open>for { if ctx.Err() != nil { return }; ... }\<close>.
  \<open>for_loop\<close> is such a loop over a body that says whether it returns; a loop that never returns is
  the value \<open>None\<close>.  The locale \<open>worker\<close> is the contract of one turn after the check of the context:
  it keeps the promises of the service.  A worker keeps them too, and returns once the context is
  cancelled.
\<close>

partial_function (option) for_loop :: "(world, bool) state \<Rightarrow> world \<Rightarrow> world option" where
  "for_loop body w =
     (case run_state body w of (returns, w') \<Rightarrow> if returns then Some w' else for_loop body w')"

definition poll :: "environment \<Rightarrow> (world, bool) state \<Rightarrow> (world, bool) state" where
  "poll E turn = do {
     stopped \<leftarrow> ctx_Err E;
     (if stopped then State_Monad.return True else turn) }"

lemma ctx_tail: "triple (idle w\<^sub>0 d) (ctx_Err E) (closed w\<^sub>0 (\<lambda>_ _. True))"
proof -
  have "triple (idle w\<^sub>0 d) (State_Monad.bind (ctx_Err E) State_Monad.return) (closed w\<^sub>0 (\<lambda>_ _. True))"
    by (intro vcg) simp
  then show ?thesis by simp
qed

lemma run_ctx_Err: "run_state (ctx_Err E) w = (env_cancelled E (tick w), w\<lparr>tick := Suc (tick w)\<rparr>)"
  by (simp add: ctx_Err_def next_tick_def)

text \<open>A program that keeps the service's promises from every sound database.\<close>

definition sound :: "(world, 'a) state \<Rightarrow> bool" where
  "sound m = (\<forall>w\<^sub>0 d. db_inv d \<longrightarrow> triple (idle w\<^sub>0 d) m (closed w\<^sub>0 (\<lambda>_ _. True)))"

lemma sound_triple: "sound m \<Longrightarrow> db_inv d \<Longrightarrow> triple (idle w\<^sub>0 d) m (closed w\<^sub>0 (\<lambda>_ _. True))"
  by (simp add: sound_def)

lemma service_sound: "service m A \<Longrightarrow> sound m"
  unfolding sound_def by (blast intro: service_tail(1))

lemmas sound_bind = triple_bind [OF sound_triple]

lemma sound_run:
  assumes "sound m" and "db_inv (w_db w)" and "\<not> tx_open w" and "run_state m w = (r, w')"
  shows "svc_step w w'" and "\<not> tx_open w'"
proof -
  have "wp m (closed w (\<lambda>_ _. True)) w"
    using assms(1-3) svc.refl by (auto simp: sound_def triple_def idle_def)
  then have "closed w (\<lambda>_ _. True) r w'" using assms(4) by (rule wp_run)
  then show "svc_step w w'" and "\<not> tx_open w'" by (simp_all add: closed_def)
qed

lemma svc_step_inv: "svc_step w w' \<Longrightarrow> db_inv (w_db w) \<Longrightarrow> db_inv (w_db w')"
  unfolding svc_step_def by (blast intro: store.steps_inv)

locale worker =
  fixes turn :: "environment \<Rightarrow> 'a \<Rightarrow> (world, bool) state"
  assumes turn_sound: "peers_ok E \<Longrightarrow> sound (turn E x)"
begin

lemma round_step:
  assumes "peers_ok E" and "db_inv (w_db w)" and "\<not> tx_open w"
    and "run_state (poll E (turn E x)) w = (stops, w')"
  shows "svc_step w w'" and "\<not> tx_open w'" and "tick w < tick w'" and "db_inv (w_db w')"
    and "env_cancelled E (tick w) \<Longrightarrow> stops"
proof -
  let ?w = "w\<lparr>tick := Suc (tick w)\<rparr>"
  have tick: "svc_step w ?w" "\<not> tx_open ?w" "tick w < tick ?w" "db_inv (w_db ?w)"
    using assms(2,3) tx_frame_svc [OF tick_frame] by simp_all
  have run: "run_state (poll E (turn E x)) w =
      (if env_cancelled E (tick w) then (True, ?w) else run_state (turn E x) ?w)"
    by (simp add: poll_def run_ctx_Err)
  show "env_cancelled E (tick w) \<Longrightarrow> stops"
    using assms(4) run by simp
  have "svc_step w w' \<and> \<not> tx_open w' \<and> tick w < tick w'"
  proof (cases "env_cancelled E (tick w)")
    case True
    with assms(4) run tick show ?thesis by simp
  next
    case False
    with assms(4) run have "run_state (turn E x) ?w = (stops, w')" by simp
    from sound_run [OF turn_sound [OF assms(1)] tick(4,2) this]
    have "svc_step ?w w'" "\<not> tx_open w'" .
    moreover from this(1) have "tick ?w \<le> tick w'" by (simp add: svc_step_def)
    ultimately show ?thesis using svc.trans [OF tick(1)] by simp
  qed
  then show step: "svc_step w w'" and "\<not> tx_open w'" and "tick w < tick w'" by simp_all
  show "db_inv (w_db w')" by (rule svc_step_inv [OF step assms(2)])
qed

lemma loop_step:
  "for_loop body w = Some w' \<Longrightarrow> body = poll E (turn E x) \<Longrightarrow> peers_ok E \<Longrightarrow> db_inv (w_db w) \<Longrightarrow>
     \<not> tx_open w \<Longrightarrow> svc_step w w' \<and> \<not> tx_open w'"
proof (induction rule: for_loop.raw_induct [rotated 1, consumes 1])
  case (1 loop body w w')
  obtain stops w1 where run: "run_state body w = (stops, w1)" by (cases "run_state body w")
  from round_step [OF 1(4-6)] run 1(3)
  have w1: "svc_step w w1" "\<not> tx_open w1" "db_inv (w_db w1)" by blast+
  show ?case
    using 1(1) [OF _ 1(3,4) w1(3,2)] 1(2) run w1 by (auto split: if_splits intro: svc.trans)
qed

text \<open>If the context is cancelled from some reading on, the loop returns.\<close>

lemma loop_returns:
  assumes "peers_ok E" and cancelled: "\<And>k. K \<le> k \<Longrightarrow> env_cancelled E k"
    and "db_inv (w_db w)" and "\<not> tx_open w"
  shows "\<exists>w'. for_loop (poll E (turn E x)) w = Some w'"
  using assms(3,4)
proof (induction "K - tick w" arbitrary: w rule: less_induct)
  case less
  obtain stops w1 where run: "run_state (poll E (turn E x)) w = (stops, w1)"
    by (cases "run_state (poll E (turn E x)) w")
  from round_step [OF assms(1) less.prems run] cancelled
  have w1: "\<not> tx_open w1" "tick w < tick w1" "db_inv (w_db w1)" "K \<le> tick w \<Longrightarrow> stops" by blast+
  show ?case
  proof (cases stops)
    case True
    then show ?thesis by (subst for_loop.simps) (simp add: run)
  next
    case False
    with w1 have "K - tick w1 < K - tick w" by linarith
    from less.hyps [OF this w1(3,1)] show ?thesis by (subst for_loop.simps) (simp add: run)
  qed
qed

end

end
