(* ===== verification/Expiry.thy ===== *)
theory Expiry
  imports Uploads Loops
begin

section \<open>Expiring uploads that were never completed\<close>

text \<open>
  Models the pending half of \<^verbatim>\<open>expiry.go\<close>: the terminal transition of a locked pending upload, its
  confirmation after an ambiguous commit, the step of the sweep and the sweep itself.
\<close>

definition expiryBatchSize :: nat where "expiryBatchSize = 100"

definition maintenanceSweepInterval :: duration where "maintenanceSweepInterval = minute"

definition locked_now :: "storedUpload \<Rightarrow> time \<Rightarrow> storedUpload" where
  "locked_now stored databaseNow = stored\<lparr>st_DatabaseNow := databaseNow\<rparr>"

lemma locked_now_simps [simp]:
  "st_DatabaseNow (locked_now s now) = now"
  "st_Upload (locked_now s now) = st_Upload s"
  "st_StagingKey (locked_now s now) = st_StagingKey s"
  "st_MaxWriteExpiresAt (locked_now s now) = st_MaxWriteExpiresAt s"
  by (simp_all add: locked_now_def)

subsection \<open>The transition\<close>

definition transitionPendingExpiredLocked ::
  "environment \<Rightarrow> storedUpload \<Rightarrow> db \<Rightarrow> (world, go_error + bool \<times> db) state" where
  "transitionPendingExpiredLocked E locked t =
     (if up_State (st_Upload locked) \<noteq> Pending \<or>
         st_DatabaseNow locked < up_UploadDeadline (st_Upload locked)
      then State_Monad.return (Inr (False, t))
      else do {
        updated \<leftarrow> exec_sql E (\<lambda>_. sql_expire_pending (up_UploadID (st_Upload locked))
                      (st_DatabaseNow locked)) t;
        case updated of
          Inl err \<Rightarrow> State_Monad.return (Inl err)
        | Inr (n, t1) \<Rightarrow>
            (if n \<noteq> 1 then State_Monad.return (Inr (False, t1))
             else do {
               recorded \<leftarrow> ensureTombstones E (up_UploadID (st_Upload locked))
                 [staging_target (st_StagingKey locked) (st_MaxWriteExpiresAt locked)] t1;
               case recorded of
                 Inl err \<Rightarrow> State_Monad.return (Inl err)
               | Inr t2 \<Rightarrow> State_Monad.return (Inr (True, t2)) }) })"

definition pending_expired_confirmed :: "time \<Rightarrow> upload_row \<Rightarrow> db \<Rightarrow> bool" where
  "pending_expired_confirmed horizon u d =
     (u_state u = Expired \<and> u_expiry_reason u = Some ''upload_deadline_elapsed'' \<and>
      u_completion_requested_at u = None \<and> u_max_write_expires_at u = timestamptz horizon \<and>
      list_ex (\<lambda>t. t_upload_id t = u_upload_id u \<and> t_object_key t = u_staging_key u \<and>
                   t_candidate_sha256 t = None \<and> t_delete_not_before t = timestamptz horizon)
        (tombstones d))"

definition select_pending_expired :: "string \<Rightarrow> time \<Rightarrow> time \<Rightarrow> db \<Rightarrow> go_error + bool" where
  "select_pending_expired uploadID horizon now d =
     (case find_upload_by_id uploadID d of
        None \<Rightarrow> Inl errNoRows | Some u \<Rightarrow> Inr (pending_expired_confirmed horizon u d))"

text \<open>A confirmation query: no row means not confirmed.\<close>

definition confirmed_or_absent :: "go_error + bool \<Rightarrow> go_error + bool" where
  "confirmed_or_absent r =
     (case r of Inl err \<Rightarrow> if errors_Is err ErrNoRows then Inr False else Inl err | Inr b \<Rightarrow> Inr b)"

definition confirmPendingExpired ::
  "environment \<Rightarrow> string \<Rightarrow> time \<Rightarrow> (world, go_error + bool) state" where
  "confirmPendingExpired E uploadID expectedHorizon = do {
     row \<leftarrow> pool_query E (select_pending_expired uploadID expectedHorizon);
     State_Monad.return (confirmed_or_absent row) }"

subsection \<open>The sweep\<close>

definition lock_next_expired :: "environment \<Rightarrow> nat \<Rightarrow> time \<Rightarrow> db \<Rightarrow> go_error + storedUpload" where
  "lock_next_expired E k now d =
     (case next_expired_pending (env_locked E k) now d of
        None \<Rightarrow> Inl errNoRows | Some u \<Rightarrow> Inr (scanStoredUpload u (u_created_at u)))"

definition expireNextPendingUpload :: "environment \<Rightarrow> (world, go_error + string option) state" where
  "expireNextPendingUpload E = deferring_rollback (do {
     began \<leftarrow> beginUploadTransaction E;
     case began of
       Inl err \<Rightarrow> State_Monad.return (Inl err)
     | Inr t0 \<Rightarrow> do {
         row \<leftarrow> query_sql E (lock_next_expired E) t0;
         case row of
           Inl err \<Rightarrow> State_Monad.return (if errors_Is err ErrNoRows then Inr None else Inl err)
         | Inr locked0 \<Rightarrow> do {
             clock \<leftarrow> select_clock E t0;
             case clock of
               Inl err \<Rightarrow> State_Monad.return (Inl err)
             | Inr databaseNow \<Rightarrow> do {
                 let locked = locked_now locked0 databaseNow;
                 applied \<leftarrow> transitionPendingExpiredLocked E locked t0;
                 case applied of
                   Inl err \<Rightarrow> State_Monad.return (Inl err)
                 | Inr (ok, t1) \<Rightarrow>
                     (if \<not> ok then State_Monad.return (Inr None)
                      else do {
                        committed \<leftarrow> commit_tx E t1;
                        case committed of
                          None \<Rightarrow> State_Monad.return (Inr (Some (up_UploadID (st_Upload locked))))
                        | Some err \<Rightarrow> do {
                            confirmed \<leftarrow> confirmPendingExpired E (up_UploadID (st_Upload locked))
                                           (st_MaxWriteExpiresAt locked);
                            State_Monad.return (case confirmed of
                              Inl confirmErr \<Rightarrow> Inl confirmErr
                            | Inr ok' \<Rightarrow>
                                if \<not> ok' then Inl err
                                else Inr (Some (up_UploadID (st_Upload locked)))) } }) } } } })"

fun sweep_expiries :: "environment \<Rightarrow> nat \<Rightarrow> nat \<Rightarrow> (world, nat \<times> nat) state" where
  "sweep_expiries E 0 processed = State_Monad.return (processed, 0)"
| "sweep_expiries E (Suc remaining) processed = do {
     result \<leftarrow> expireNextPendingUpload E;
     case result of
       Inl err \<Rightarrow> State_Monad.return (processed, 1)
     | Inr expired \<Rightarrow>
         (case expired of
            None \<Rightarrow> State_Monad.return (processed, 0)
          | Some uploadID \<Rightarrow> do {
              metric_add ''upload_transitions_total'' ''pending_to_expired'';
              log_info ''upload.transition''
                [(''upload_id'', AStr uploadID), (''state_from'', AStr ''pending''),
                 (''state_to'', AStr ''expired''), (''trigger'', AStr ''expiry''),
                 (''reason_code'', AStr ''upload_deadline_elapsed'')];
              sweep_expiries E remaining (Suc processed) }) }"

definition milliseconds :: "duration \<Rightarrow> int" where
  "milliseconds d = d div 1000000"

definition sweepPendingExpiries :: "environment \<Rightarrow> (world, nat \<times> nat) state" where
  "sweepPendingExpiries E = do {
     started \<leftarrow> time_Now E;
     (processed, errorCount) \<leftarrow> sweep_expiries E expiryBatchSize 0;
     finished \<leftarrow> time_Now E;
     log_info ''maintenance.sweep_finished''
       [(''phase'', AStr ''expiry''), (''processed'', AInt (int processed)),
        (''errors'', AInt (int errorCount)), (''batch_full'', ABool (processed = expiryBatchSize)),
        (''duration_ms'', AInt (milliseconds (finished - started)))];
     State_Monad.return (processed, errorCount) }"

subsection \<open>The maintenance loop\<close>

text \<open>
  The loop ends when the context is done; waiting one interval or being cancelled meanwhile is one
  more reading of the context.
\<close>

definition maintenance_turn :: "environment \<Rightarrow> (world, unit) state \<Rightarrow> (world, bool) state" where
  "maintenance_turn E sweep = do {
     sweep;
     stopped \<leftarrow> ctx_Err E;
     (if stopped then State_Monad.return True else ctx_Err E) }"

definition runMaintenanceLoop :: "environment \<Rightarrow> (world, unit) state \<Rightarrow> world \<Rightarrow> world option" where
  "runMaintenanceLoop E sweep = for_loop (poll E (maintenance_turn E sweep))"

subsection \<open>Contracts\<close>

lemma quiet_ensureTombstones:
  "quiet (ensureTombstones E uid targets t) (\<lambda>r. \<forall>t'. r = Inr t' \<longrightarrow> ensured uid targets t t')"
proof (induction targets arbitrary: t)
  case Nil
  show ?case by (simp, intro vcg) (simp add: ensured_simps)
next
  case (Cons tgt targets)
  show ?case
    unfolding ensureTombstones.simps
    by (intro vcg quiet_tail [OF Cons.IH])
       (auto simp: select_tombstone_def intro: ensured_Cons split: option.splits)
qed

lemma ensure_rule [vcg]:
  assumes "readable pre" and "\<And>err. triple pre (A err) Q"
    and "\<And>t'. ensured uid targets t t' \<Longrightarrow> triple pre (B t') Q"
  shows "triple pre (State_Monad.bind (ensureTombstones E uid targets t) (case_sum A B)) Q"
  by (rule quiet_bind [OF quiet_ensureTombstones assms(1)]) (auto intro: assms(2,3) split: sum.splits)

text \<open>What a completed expiry of a pending upload leaves: the row and its cleanup duty.\<close>

definition pending_expiry :: "string \<Rightarrow> db \<Rightarrow> bool" where
  "pending_expiry uid d =
     (\<exists>u\<in>set (uploads d). u_upload_id u = uid \<and> u_state u = Expired \<and>
        u_expiry_reason u = Some ''upload_deadline_elapsed'' \<and>
        (\<exists>t\<in>set (tombstones d). t_object_key t = u_staging_key u \<and> t_upload_id t = uid \<and>
           u_max_write_expires_at u \<le> t_delete_not_before t))"

lemma pending_expired_step:
  assumes u: "u \<in> set (uploads d)" "u_state u = Pending" "u_upload_deadline u \<le> now"
    and upd: "sql_expire_pending (u_upload_id u) now d = Inr (Suc 0, d1)"
    and ens: "ensured (u_upload_id u) [staging_target (u_staging_key u) (u_max_write_expires_at u)] d1 d'"
  shows "db_steps d d'" and "pending_expiry (u_upload_id u) d'"
proof -
  show "db_steps d d'"
    using step_expire_pending [OF u upd [folded One_nat_def] ens] by blast
  let ?u = "u\<lparr>u_state := Expired, u_terminal_at := Some now,
    u_expiry_reason := Some ''upload_deadline_elapsed''\<rparr>"
  have "?u \<in> set (uploads d1)"
    using update_uploads_Inr(2) [OF upd [unfolded sql_expire_pending_def]] u
    by (auto simp: image_iff intro!: bexI [of _ u])
  then have "?u \<in> set (uploads d')"
    using appended_tombstones_frame(1) [OF ensured_appends [OF ens]] by simp
  moreover from ensured_covers [OF ens] obtain t where "t \<in> set (tombstones d')"
    "t_object_key t = u_staging_key u" "t_upload_id t = u_upload_id u"
    "u_max_write_expires_at u \<le> t_delete_not_before t"
    by (auto simp: tombstone_conflicts_def staging_target_def)
  ultimately show "pending_expiry (u_upload_id u) d'"
    unfolding pending_expiry_def by (intro bexI [of _ ?u] conjI bexI [of _ t]) simp_all
qed

lemma quiet_transitionPendingExpired:
  assumes "u \<in> set (uploads t)"
    and "up_UploadID (st_Upload locked) = u_upload_id u" "up_State (st_Upload locked) = u_state u"
      "up_UploadDeadline (st_Upload locked) = u_upload_deadline u"
      "st_StagingKey locked = u_staging_key u" "st_MaxWriteExpiresAt locked = u_max_write_expires_at u"
  shows "quiet (transitionPendingExpiredLocked E locked t)
    (\<lambda>r. \<forall>t'. r = Inr (True, t') \<longrightarrow> db_steps t t' \<and> pending_expiry (u_upload_id u) t')"
  unfolding transitionPendingExpiredLocked_def
  by (intro vcg) (auto simp: assms(2-) not_less intro: pending_expired_step [OF assms(1)])

lemma confirmed_or_absent_Inr [simp]:
  "confirmed_or_absent (Inr b) = Inr b"
  "confirmed_or_absent (Inl err) \<noteq> Inr True"
  by (auto simp: confirmed_or_absent_def)

lemma service_confirmPendingExpired:
  assumes "peers_ok E"
  shows "service (confirmPendingExpired E uid horizon) (\<lambda>r d. r = Inr True \<longrightarrow> pending_expiry uid d)"
proof -
  have "pending_expiry uid d" if "select_pending_expired uid horizon now d = Inr True" for now d
  proof -
    from that obtain u where u: "u \<in> set (uploads d)" "u_upload_id u = uid"
      and ok: "pending_expired_confirmed horizon u d"
      by (auto simp: select_pending_expired_def split: option.splits dest: find_upload_by_id_SomeD)
    from ok obtain t where "t \<in> set (tombstones d)" "t_upload_id t = u_upload_id u"
      "t_object_key t = u_staging_key u" "t_delete_not_before t = u_max_write_expires_at u"
      by (auto simp: pending_expired_confirmed_def list_ex_iff)
    with u ok show ?thesis
      unfolding pending_expiry_def pending_expired_confirmed_def
      by (intro bexI [of _ u] conjI bexI [of _ t]) simp_all
  qed
  then show ?thesis
    unfolding confirmPendingExpired_def
    by (intro vcg service_bind [OF service_pool_query [OF assms]])
       (metis confirmed_or_absent_Inr(1,2) sum.exhaust sum.inject(2))
qed

text \<open>The transition of a row that the transaction has locked and scanned.\<close>

definition scanned :: "db \<Rightarrow> storedUpload \<Rightarrow> bool" where
  "scanned d stored = (\<exists>u\<in>set (uploads d). \<exists>now. stored = scanStoredUpload u now)"

lemma lock_next_expired_scanned: "lock_next_expired E k now d = Inr stored \<Longrightarrow> scanned d stored"
  by (auto simp: lock_next_expired_def next_expired_pending_def scanned_def split: option.splits
      dest: first_by_Some(1))

lemma expire_locked_rule [vcg]:
  assumes pre: "readable pre" and row: "scanned t stored"
    and rest: "\<And>r. (\<And>t'. r = Inr (True, t') \<Longrightarrow>
        db_steps t t' \<and> pending_expiry (up_UploadID (st_Upload stored)) t') \<Longrightarrow> triple pre (f r) Q"
  shows "triple pre (State_Monad.bind
    (transitionPendingExpiredLocked E (locked_now stored databaseNow) t) f) Q"
proof -
  from row obtain u n where u: "u \<in> set (uploads t)" "stored = scanStoredUpload u n"
    by (auto simp: scanned_def)
  show ?thesis
    by (rule quiet_bind [OF quiet_transitionPendingExpired [OF u(1)] pre]) (simp_all add: u(2) rest)
qed

lemma service_expireNext:
  assumes "peers_ok E"
  shows "service (expireNextPendingUpload E) (\<lambda>r d. \<forall>uid. r = Inr (Some uid) \<longrightarrow> pending_expiry uid d)"
  unfolding expireNextPendingUpload_def Let_def
  by (intro vcg service_bind [OF service_confirmPendingExpired [OF assms]] assms)
     (auto intro: lock_next_expired_scanned split: sum.splits if_splits)

lemma service_sweep_expiries:
  "peers_ok E \<Longrightarrow> service (sweep_expiries E remaining processed)
     (\<lambda>(n, errors) _. n \<le> processed + remaining \<and> errors \<le> 1)"
proof (induction remaining arbitrary: processed)
  case 0
  show ?case by (simp, intro vcg) simp
next
  case (Suc remaining)
  show ?case
    unfolding sweep_expiries.simps
    by (intro vcg service_bind [OF service_expireNext] service_tail [OF Suc.IH] Suc.prems
        registered_transition) auto
qed

lemma service_sweepPendingExpiries:
  "peers_ok E \<Longrightarrow> service (sweepPendingExpiries E)
     (\<lambda>(n, errors) _. n \<le> expiryBatchSize \<and> errors \<le> 1)"
  unfolding sweepPendingExpiries_def
  by (intro vcg service_bind [OF service_sweep_expiries]) auto

text \<open>A turn of the loop is sound whenever its sweep is.\<close>

lemma sound_maintenance_turn: "sound sweep \<Longrightarrow> sound (maintenance_turn E sweep)"
  unfolding maintenance_turn_def
  by (subst sound_def) (intro allI impI vcg ctx_tail sound_bind; simp)

end
