(* ===== verification/Completion.thy ===== *)
theory Completion
  imports Expiry
begin

section \<open>Requesting completion\<close>

text \<open>
  Models the completion path of \<^verbatim>\<open>postgres.go\<close>: the attempt, which moves a pending upload to
  \<^verbatim>\<open>finalizing\<close> (or expires it at its deadline) and makes a finalizing one due now, and the
  recovery when the outcome of the attempt's commit is unknown.
\<close>

record completionRecovery =
  rec_finalizingDueBy :: "time option"

record completeUploadResult =
  co_Upload :: uploadRepresentation
  co_Transition :: string

abbreviation no_recovery :: completionRecovery where
  "no_recovery \<equiv> \<lparr>rec_finalizingDueBy = None\<rparr>"

definition lock_by_id :: "string \<Rightarrow> nat \<Rightarrow> time \<Rightarrow> db \<Rightarrow> go_error + storedUpload" where
  "lock_by_id uploadID k now d =
     (case find_upload_by_id uploadID d of
        None \<Rightarrow> Inl errNoRows | Some u \<Rightarrow> Inr (scanStoredUpload u (u_created_at u)))"

subsection \<open>The attempt\<close>

type_synonym attempt = "go_error \<times> completionRecovery + completeUploadResult"

definition unavailable :: attempt where
  "unavailable = Inl (errServiceUnavailable, no_recovery)"

text \<open>The end of \<^verbatim>\<open>completeUploadAttempt\<close>: the statement's error, its row count, the commit.\<close>

definition finish_completion ::
  "environment \<Rightarrow> completionRecovery \<Rightarrow> completeUploadResult \<Rightarrow> go_error + nat \<times> db
     \<Rightarrow> (world, attempt) state" where
  "finish_completion E recovery result updated =
     (case updated of
        Inl err \<Rightarrow> State_Monad.return unavailable
      | Inr (rowsAffected, t1) \<Rightarrow>
          (if rowsAffected \<noteq> 1 then do {
             rollback_tx E;
             State_Monad.return (Inl (errCompletionOutcomeUnknown, recovery)) }
           else do {
             committed \<leftarrow> commit_tx E t1;
             case committed of
               None \<Rightarrow> State_Monad.return (Inr result)
             | Some err \<Rightarrow> State_Monad.return (Inl (errCompletionOutcomeUnknown, recovery)) }))"

definition completed_result :: "storedUpload \<Rightarrow> completeUploadResult" where
  "completed_result locked =
     \<lparr>co_Upload = (st_Upload locked)\<lparr>up_State := Finalizing\<rparr>, co_Transition = ''pending_to_finalizing''\<rparr>"

definition expired_result :: "storedUpload \<Rightarrow> completeUploadResult" where
  "expired_result locked =
     \<lparr>co_Upload = (st_Upload locked)\<lparr>up_State := Expired, up_Failure := Some ''upload_expired''\<rparr>,
      co_Transition = ''pending_to_expired''\<rparr>"

definition unchanged_result :: "uploadRepresentation \<Rightarrow> completeUploadResult" where
  "unchanged_result upload = \<lparr>co_Upload = upload, co_Transition = ''''\<rparr>"

text \<open>\<^verbatim>\<open>completeUploadAttempt\<close> once the row is locked and the clock is read.\<close>

definition complete_locked :: "environment \<Rightarrow> storedUpload \<Rightarrow> db \<Rightarrow> (world, attempt) state" where
  "complete_locked E locked t0 =
     (let uid = up_UploadID (st_Upload locked); now = st_DatabaseNow locked in
      case up_State (st_Upload locked) of
        Pending \<Rightarrow>
          (if now < up_UploadDeadline (st_Upload locked) then do {
             updated \<leftarrow> exec_sql E (\<lambda>_. sql_complete_pending uid now) t0;
             finish_completion E no_recovery (completed_result locked) updated }
           else do {
             applied \<leftarrow> transitionPendingExpiredLocked E locked t0;
             finish_completion E no_recovery (expired_result locked)
               (map_sum id (\<lambda>(ok, t1). (if ok then 1 else 0, t1)) applied) })
      | Finalizing \<Rightarrow> do {
          updated \<leftarrow> exec_sql E (\<lambda>_. sql_poke_finalizing uid now) t0;
          finish_completion E \<lparr>rec_finalizingDueBy = Some now\<rparr>
            (unchanged_result (st_Upload locked)) updated }
      | OtherState _ \<Rightarrow> State_Monad.return unavailable
      | _ \<Rightarrow> do {
          rolledBack \<leftarrow> rollback_tx E;
          (if rolledBack \<noteq> None then State_Monad.return unavailable
           else do {
             fetched \<leftarrow> getUploadByID E uid;
             State_Monad.return (case fetched of
               Inl err \<Rightarrow> Inl (err, no_recovery)
             | Inr representation \<Rightarrow> Inr (unchanged_result representation)) }) })"

definition completeUploadAttempt :: "environment \<Rightarrow> string \<Rightarrow> (world, attempt) state" where
  "completeUploadAttempt E uploadID = deferring_rollback (do {
     began \<leftarrow> beginUploadTransaction E;
     case began of
       Inl err \<Rightarrow> State_Monad.return unavailable
     | Inr t0 \<Rightarrow> do {
         row \<leftarrow> query_sql E (lock_by_id uploadID) t0;
         case row of
           Inl err \<Rightarrow>
             (if errors_Is err ErrNoRows then do {
                rolledBack \<leftarrow> rollback_tx E;
                State_Monad.return (if rolledBack \<noteq> None then unavailable
                                    else Inl (errUploadNotFound, no_recovery)) }
              else State_Monad.return unavailable)
         | Inr locked0 \<Rightarrow> do {
             clock \<leftarrow> select_clock E t0;
             case clock of
               Inl err \<Rightarrow> State_Monad.return unavailable
             | Inr databaseNow \<Rightarrow> complete_locked E (locked_now locked0 databaseNow) t0 } } })"

subsection \<open>The recovery\<close>

definition select_completion :: "string \<Rightarrow> time \<Rightarrow> db \<Rightarrow> go_error + storedUpload \<times> time option" where
  "select_completion uploadID now d =
     (case find_upload_by_id uploadID d of
        None \<Rightarrow> Inl errNoRows | Some u \<Rightarrow> Inr (scanStoredUpload u now, u_reconcile_after u))"

definition readCompletionUpload ::
  "environment \<Rightarrow> string \<Rightarrow> (world, go_error + storedUpload \<times> time option) state" where
  "readCompletionUpload E uploadID = pool_query E (select_completion uploadID)"

definition completionOutcomeIsDurable :: "upload_state \<Rightarrow> time option \<Rightarrow> completionRecovery \<Rightarrow> bool" where
  "completionOutcomeIsDurable state reconcileAfter recovery =
     (case state of
        Finalizing \<Rightarrow>
          (case rec_finalizingDueBy recovery of
             None \<Rightarrow> True
           | Some dueBy \<Rightarrow> (case reconcileAfter of None \<Rightarrow> False | Some r \<Rightarrow> \<not> dueBy < r))
      | Ready \<Rightarrow> True
      | Rejected \<Rightarrow> True
      | Expired \<Rightarrow> True
      | _ \<Rightarrow> False)"

definition completionResult :: "environment \<Rightarrow> storedUpload \<Rightarrow> (world, go_error + completeUploadResult) state" where
  "completionResult E current =
     (if \<not> terminal (up_State (st_Upload current))
      then State_Monad.return (Inr (unchanged_result (st_Upload current)))
      else do {
        fetched \<leftarrow> getUploadByID E (up_UploadID (st_Upload current));
        State_Monad.return (case fetched of
          Inl err \<Rightarrow> Inl err
        | Inr representation \<Rightarrow> Inr (unchanged_result representation)) })"

definition recoverCompletionOutcome ::
  "environment \<Rightarrow> string \<Rightarrow> completionRecovery \<Rightarrow> (world, go_error + completeUploadResult) state" where
  "recoverCompletionOutcome E uploadID recovery = do {
     row \<leftarrow> readCompletionUpload E uploadID;
     case row of
       Inl err \<Rightarrow> State_Monad.return (Inl errServiceUnavailable)
     | Inr (current, reconcileAfter) \<Rightarrow>
         (if completionOutcomeIsDurable (up_State (st_Upload current)) reconcileAfter recovery
          then completionResult E current
          else do {
            second \<leftarrow> completeUploadAttempt E uploadID;
            case second of
              Inr result \<Rightarrow> State_Monad.return (Inr result)
            | Inl (err, secondRecovery) \<Rightarrow>
                (if \<not> errors_Is err ErrCompletionOutcomeUnknown
                 then State_Monad.return (Inl errServiceUnavailable)
                 else do {
                   again \<leftarrow> readCompletionUpload E uploadID;
                   case again of
                     Inl err \<Rightarrow> State_Monad.return (Inl errServiceUnavailable)
                   | Inr (current', reconcileAfter') \<Rightarrow>
                       (if \<not> completionOutcomeIsDurable (up_State (st_Upload current')) reconcileAfter'
                             secondRecovery
                        then State_Monad.return (Inl errServiceUnavailable)
                        else completionResult E current') }) }) }"

definition completeUploadByID ::
  "environment \<Rightarrow> string \<Rightarrow> (world, go_error + completeUploadResult) state" where
  "completeUploadByID E uploadID = do {
     attempted \<leftarrow> completeUploadAttempt E uploadID;
     case attempted of
       Inr result \<Rightarrow> State_Monad.return (Inr result)
     | Inl (err, recovery) \<Rightarrow>
         (if \<not> errors_Is err ErrCompletionOutcomeUnknown then State_Monad.return (Inl err)
          else recoverCompletionOutcome E uploadID recovery) }"

subsection \<open>The contract of completion\<close>

text \<open>
  A completion that succeeds reports a stored upload that is no longer pending, in the state its row
  has at that moment, never with a capability; a transition is reported only with its target state.
\<close>

definition transition_ok :: "completeUploadResult \<Rightarrow> bool" where
  "transition_ok res =
     (co_Transition res = '''' \<or>
      (co_Transition res = ''pending_to_finalizing'' \<and> up_State (co_Upload res) = Finalizing) \<or>
      (co_Transition res = ''pending_to_expired'' \<and> up_State (co_Upload res) = Expired))"

definition completed :: "string \<Rightarrow> completeUploadResult \<Rightarrow> db \<Rightarrow> bool" where
  "completed uid res d =
     ((\<exists>u\<in>set (uploads d). u_upload_id u = uid \<and> u_state u = up_State (co_Upload res)) \<and>
      up_UploadID (co_Upload res) = uid \<and>
      up_State (co_Upload res) \<in> {Finalizing, Ready, Rejected, Expired} \<and>
      up_UploadRequest (co_Upload res) = None \<and> transition_ok res)"

definition attempt_ok :: "string \<Rightarrow> 'e + completeUploadResult \<Rightarrow> db \<Rightarrow> bool" where
  "attempt_ok uid r d = (\<forall>res. r = Inr res \<longrightarrow> completed uid res d)"

lemma attempt_ok_simps [simp]:
  "attempt_ok uid (Inl e) d" "attempt_ok uid unavailable d"
  "attempt_ok uid (Inr res) d = completed uid res d"
  by (simp_all add: attempt_ok_def unavailable_def)

text \<open>A terminal row is the row of its upload ever after.\<close>

lemma terminal_row_fixed:
  assumes inv: "db_inv d" and steps: "db_steps d d'"
    and u: "u \<in> set (uploads d)" "terminal (u_state u)"
    and v: "v \<in> set (uploads d')" "u_upload_id v = u_upload_id u"
  shows "v = u"
proof -
  from store.steps_rely [OF steps inv] u obtain u' where u': "u' \<in> set (uploads d')" "row_evolves u u'"
    by (auto simp: evolves_def)
  then have "u' = u" using u(2) by (simp add: row_evolves_def)
  moreover have "tables_ok d'"
    using store.steps_inv [OF steps inv] by (simp add: db_inv_def)
  ultimately show ?thesis using unique_upload [of d' v u'] u'(1) v by simp
qed

lemma completed_fetched:
  assumes inv: "db_inv d" and row: "scanned d stored" "terminal (up_State (st_Upload stored))"
    and steps: "db_steps d d'"
    and got: "up_UploadID upload = up_UploadID (st_Upload stored)" "\<And>grants command. answer_ok grants command upload d'"
      "up_UploadRequest upload = None"
  shows "completed (up_UploadID (st_Upload stored)) (unchanged_result upload) d'"
proof -
  from row obtain u n where u: "u \<in> set (uploads d)" "stored = scanStoredUpload u n"
    by (auto simp: scanned_def)
  from got(2) obtain v where v: "v \<in> set (uploads d')" "u_upload_id v = up_UploadID upload"
    "u_state v = up_State upload" unfolding answer_ok_def by blast
  have "v = u"
    by (rule terminal_row_fixed [OF inv steps u(1) _ v(1)]) (use row(2) u(2) v(2) got(1) in simp_all)
  with v row(2) u(2) got show ?thesis
    by (auto simp: completed_def unchanged_result_def transition_ok_def terminal_def)
qed

lemma completed_stored:
  assumes "scanned d stored" and "up_State (st_Upload stored) \<in> {Finalizing, Ready, Rejected, Expired}"
  shows "completed (up_UploadID (st_Upload stored)) (unchanged_result (st_Upload stored)) d"
  using assms by (auto simp: scanned_def completed_def unchanged_result_def transition_ok_def)

lemma service_fetch:
  assumes "peers_ok E"
  shows "service (getUploadByID E uid) (\<lambda>r d. \<forall>upload. r = Inr upload \<longrightarrow> up_UploadID upload = uid \<and>
    (\<forall>grants command. answer_ok grants command upload d) \<and> up_UploadRequest upload = None)"
  unfolding getUploadByID_def
proof (intro vcg assms)
  fix d' now x u c
  assume "select_upload_by_id uid now d' = Inr x" and "x = (u, c)"
  then have "u \<in> set (uploads d')" "u_upload_id u = uid"
    by (auto dest: select_upload_by_id_Inr)
  then show "\<forall>upload. represent_upload u c = Inr upload \<longrightarrow> up_UploadID upload = uid \<and>
      (\<forall>grants command. answer_ok grants command upload d') \<and> up_UploadRequest upload = None"
    unfolding answer_ok_def using represent_upload_Inr by (auto intro!: bexI [of _ u])
qed simp_all

lemma finish_rule [vcg]:
  assumes "\<And>t1. updated = Inr (Suc 0, t1) \<Longrightarrow> db_steps d t1 \<and> completed uid result t1"
  shows "triple (busy w\<^sub>0 d) (finish_completion E recovery result updated) (ends w\<^sub>0 (attempt_ok uid))"
  unfolding finish_completion_def
  using assms by (intro vcg) auto

lemma lock_by_id_scanned:
  "lock_by_id uid k now d = Inr stored \<Longrightarrow> scanned d stored \<and> up_UploadID (st_Upload stored) = uid"
  by (auto simp: lock_by_id_def scanned_def split: option.splits dest: find_upload_by_id_SomeD)

text \<open>The two updates.\<close>

lemma complete_pending_step:
  assumes "scanned d stored" "up_State (st_Upload stored) = Pending"
    and "now < up_UploadDeadline (st_Upload stored)"
    and "sql_complete_pending (up_UploadID (st_Upload stored)) now d = Inr (Suc 0, d')"
  shows "db_steps d d'" "completed (up_UploadID (st_Upload stored)) (completed_result (locked_now stored now)) d'"
proof -
  from assms(1) obtain u n where u: "u \<in> set (uploads d)" "stored = scanStoredUpload u n"
    by (auto simp: scanned_def)
  show "db_steps d d'"
    using step_complete [OF assms(4) [folded One_nat_def]] by blast
  let ?u = "u\<lparr>u_state := Finalizing, u_completion_requested_at := Some now,
    u_reconcile_after := Some now\<rparr>"
  have "?u \<in> set (uploads d')"
    using update_uploads_Inr(2) [OF assms(4) [unfolded sql_complete_pending_def]] u assms(2,3)
    by (auto simp: image_iff intro!: bexI [of _ u])
  then show "completed (up_UploadID (st_Upload stored)) (completed_result (locked_now stored now)) d'"
    unfolding completed_def by (auto simp: completed_result_def transition_ok_def u(2) intro!: bexI [of _ ?u])
qed

lemma poke_finalizing_step:
  assumes "scanned d stored" "up_State (st_Upload stored) = Finalizing"
    and "sql_poke_finalizing (up_UploadID (st_Upload stored)) now d = Inr (Suc 0, d')"
  shows "db_steps d d'" "completed (up_UploadID (st_Upload stored)) (unchanged_result (st_Upload stored)) d'"
proof -
  from assms(1) obtain u n where u: "u \<in> set (uploads d)" "stored = scanStoredUpload u n"
    by (auto simp: scanned_def)
  show "db_steps d d'"
    using step_poke [OF assms(3) [folded One_nat_def]] by blast
  let ?u = "u\<lparr>u_reconcile_after := Some (case u_reconcile_after u of None \<Rightarrow> now | Some r \<Rightarrow> min r now)\<rparr>"
  have "?u \<in> set (uploads d')"
    using update_uploads_Inr(2) [OF assms(3) [unfolded sql_poke_finalizing_def]] u assms(2)
    by (auto simp: image_iff intro!: bexI [of _ u])
  then show "completed (up_UploadID (st_Upload stored)) (unchanged_result (st_Upload stored)) d'"
    unfolding completed_def
    using assms(2) by (auto simp: unchanged_result_def transition_ok_def u(2) intro!: bexI [of _ ?u])
qed

lemma completed_expired:
  "pending_expiry (up_UploadID (st_Upload stored)) d \<Longrightarrow> scanned t stored \<Longrightarrow>
     completed (up_UploadID (st_Upload stored)) (expired_result (locked_now stored now)) d"
  by (auto simp: pending_expiry_def scanned_def completed_def expired_result_def transition_ok_def)

lemma applied_rows:
  "map_sum id (\<lambda>(ok, t1). (if ok then 1 else 0, t1)) r = Inr (Suc 0, t) \<longleftrightarrow> r = Inr (True, t)"
  by (cases r) (auto split: if_splits)

lemma attempt_fetched:
  assumes "db_inv d" "scanned d stored" "terminal (up_State (st_Upload stored))" "db_steps d d'"
    and "\<forall>upload. r = Inr upload \<longrightarrow> up_UploadID upload = up_UploadID (st_Upload stored) \<and>
      (\<forall>grants command. answer_ok grants command upload d') \<and> up_UploadRequest upload = None"
  shows "attempt_ok (up_UploadID (st_Upload stored))
    (case r of Inl err \<Rightarrow> Inl (g err) | Inr upload \<Rightarrow> Inr (unchanged_result upload)) d'"
  using assms(5) completed_fetched [OF assms(1-4)] by (cases r) simp_all

lemma complete_locked_triple:
  assumes "peers_ok E" and inv: "db_inv d" and row: "scanned d stored"
  shows "triple (busy w\<^sub>0 d) (complete_locked E (locked_now stored now) d)
    (ends w\<^sub>0 (attempt_ok (up_UploadID (st_Upload stored))))"
  unfolding complete_locked_def Let_def locked_now_simps
  by (intro vcg quiet_bind [OF quiet_exec] service_bind [OF service_fetch] assms;
      simp only: applied_rows attempt_fetched [OF inv row] terminal_simps attempt_ok_simps)
     (auto intro: complete_pending_step [OF row] poke_finalizing_step [OF row]
       completed_expired [OF _ row])

lemma complete_locked_rule:
  assumes "peers_ok E" "db_inv d" "scanned d stored \<and> up_UploadID (st_Upload stored) = uid"
  shows "triple (busy w\<^sub>0 d) (complete_locked E (locked_now stored now) d) (ends w\<^sub>0 (attempt_ok uid))"
  using complete_locked_triple assms by blast

lemma completeUploadAttempt_triple:
  assumes "peers_ok E" and "db_inv d"
  shows "triple (idle w\<^sub>0 d) (completeUploadAttempt E uid) (closed w\<^sub>0 (attempt_ok uid))"
  unfolding completeUploadAttempt_def
  by (intro vcg complete_locked_rule assms(1) lock_by_id_scanned; simp?)
     (blast intro: store.steps_inv [OF _ assms(2)])

lemma durable_states:
  "completionOutcomeIsDurable s r recovery \<Longrightarrow> s \<in> {Finalizing, Ready, Rejected, Expired}"
  by (auto simp: completionOutcomeIsDurable_def split: upload_state.splits)

lemma completionResult_rule:
  assumes "peers_ok E" and inv: "db_inv d" and row: "scanned d stored" and "up_UploadID (st_Upload stored) = uid"
    and state: "up_State (st_Upload stored) \<in> {Finalizing, Ready, Rejected, Expired}"
  shows "triple (idle w\<^sub>0 d) (completionResult E stored) (closed w\<^sub>0 (attempt_ok uid))"
  unfolding completionResult_def assms(4) [symmetric]
  by (intro vcg service_bind [OF service_fetch] assms(1))
     (use completed_stored [OF row state] in \<open>auto intro: attempt_fetched [OF inv row]\<close>)

lemma select_completion_scanned:
  "select_completion uid now d = Inr (stored, r) \<Longrightarrow> scanned d stored \<and> up_UploadID (st_Upload stored) = uid"
  by (auto simp: select_completion_def scanned_def split: option.splits dest: find_upload_by_id_SomeD)

lemma readCompletion_rule [vcg]:
  assumes "peers_ok E" and "\<And>err d'. db_steps d d' \<Longrightarrow> triple (idle w\<^sub>0 d') (A err) Q"
    and "\<And>d' stored r. db_steps d d' \<Longrightarrow> scanned d' stored \<Longrightarrow> up_UploadID (st_Upload stored) = uid \<Longrightarrow>
      triple (idle w\<^sub>0 d') (B (stored, r)) Q"
  shows "triple (idle w\<^sub>0 d) (State_Monad.bind (readCompletionUpload E uid) (case_sum A B)) Q"
  unfolding readCompletionUpload_def
  by (rule pool_query_rule [OF assms(1,2)]) (use assms(3) select_completion_scanned in \<open>auto\<close>)

lemma inv_later: "db_steps d a \<Longrightarrow> db_steps a b \<Longrightarrow> db_steps b c \<Longrightarrow> db_inv d \<Longrightarrow> db_inv c"
  by (blast intro: store.steps_inv)

lemma recoverCompletion_triple:
  assumes "peers_ok E" and inv: "db_inv d"
  shows "triple (idle w\<^sub>0 d) (recoverCompletionOutcome E uid recovery) (closed w\<^sub>0 (attempt_ok uid))"
  unfolding recoverCompletionOutcome_def
  by (intro vcg completionResult_rule triple_bind [OF completeUploadAttempt_triple] assms(1))
     (use inv in \<open>auto dest: durable_states intro: store.steps_inv inv_later\<close>)

text \<open>Both ways a completion ends.\<close>

lemma completeUploadByID_triple:
  assumes "peers_ok E" and inv: "db_inv d"
  shows "triple (idle w\<^sub>0 d) (completeUploadByID E uid) (closed w\<^sub>0 (attempt_ok uid))"
  unfolding completeUploadByID_def
  by (intro vcg triple_tail [OF recoverCompletion_triple] triple_bind [OF completeUploadAttempt_triple] assms)
     (use inv in \<open>auto intro: store.steps_inv\<close>)

end
