(* ===== verification/Validate.thy ===== *)
theory Validate
  imports Uploads
begin

section \<open>Validating an image\<close>

text \<open>
  Models \<^verbatim>\<open>validate.go\<close> and the two comparisons of a candidate with stored bytes in
  \<^verbatim>\<open>reconcile.go\<close>.  The image decoders are functions of the environment.
  A validation ends in an error, a rejection or a validated image.
\<close>

definition validationPolicyVersion :: int where "validationPolicyVersion = 1"
definition maxUploadSizeBytes :: int where "maxUploadSizeBytes = 10485760"
definition maxImageAxis :: int where "maxImageAxis = 8192"
definition maxImagePixels :: int where "maxImagePixels = 8388608"

lemmas limits = validationPolicyVersion_def maxUploadSizeBytes_def maxImageAxis_def maxImagePixels_def

record validatedImage =
  vi_Bytes :: "byte list"
  vi_SHA256 :: "byte list"
  vi_SizeBytes :: int
  vi_ContentType :: string
  vi_Format :: string
  vi_Width :: int
  vi_Height :: int

record validationFailure =
  vf_Class :: string
  vf_Reason :: string
  vf_Phase :: string
  vf_Evidence :: evidence

abbreviation errStagingRead :: go_error where
  "errStagingRead \<equiv> errors_New ErrStagingRead"

definition contentTypeForImageFormat :: "string \<Rightarrow> string" where
  "contentTypeForImageFormat format =
     (if format = ''jpeg'' then ''image/jpeg''
      else if format = ''png'' then ''image/png'' else '''')"

definition rejectImage :: "string \<Rightarrow> string \<Rightarrow> string \<Rightarrow> evidence \<Rightarrow> validationFailure" where
  "rejectImage cls reason phase ev =
     \<lparr>vf_Class = cls, vf_Reason = reason, vf_Phase = phase,
      vf_Evidence = ev @ [(''policy_version'', JInt validationPolicyVersion)]\<rparr>"

definition object_too_large :: "int \<Rightarrow> validationFailure" where
  "object_too_large observed =
     rejectImage ''invalid_input'' ''object_too_large'' ''staging_read''
       [(''limit_bytes'', JInt maxUploadSizeBytes), (''observed_size'', JInt observed)]"

subsection \<open>The checks\<close>

text \<open>\<^verbatim>\<open>image.DecodeConfig\<close> and \<^verbatim>\<open>image.Decode\<close> answer an error, or the format, width and height.\<close>

definition validateImageBytes ::
  "environment \<Rightarrow> byte list \<Rightarrow> int \<Rightarrow> int \<Rightarrow> string \<Rightarrow> go_error + validationFailure + validatedImage" where
  "validateImageBytes E encoded contentLength declaredSize declaredContentType =
     (if contentLength > maxUploadSizeBytes then Inr (Inl (object_too_large contentLength))
      else
        let observedSize = int (length encoded)
        in if observedSize > maxUploadSizeBytes then Inr (Inl (object_too_large observedSize))
           else if 0 \<le> contentLength \<and> contentLength \<noteq> observedSize then Inl errStagingRead
           else
             let digest = Sum256 encoded;
                 observed = [(''observed_size'', JInt observedSize),
                             (''observed_sha256'', JStr (hex_EncodeToString digest))]
             in if observedSize \<noteq> declaredSize
                then Inr (Inl (rejectImage ''invalid_input'' ''declared_size_mismatch'' ''staging_read''
                       ((''expected_size'', JInt declaredSize) # observed)))
                else case env_DecodeConfig E encoded of
                  Inl err \<Rightarrow>
                    Inr (Inl (rejectImage ''invalid_input'' ''invalid_image_encoding'' ''decode_config'' observed))
                | Inr (format, width, height) \<Rightarrow>
                    (let contentType = contentTypeForImageFormat format;
                         seen = (''format'', JStr format) # observed;
                         sized = [(''format'', JStr format), (''width'', JInt width),
                                  (''height'', JInt height)] @ observed
                     in if contentType = ''''
                        then Inr (Inl (rejectImage ''invalid_input'' ''invalid_image_encoding'' ''decode_config'' seen))
                        else if contentType \<noteq> declaredContentType
                        then Inr (Inl (rejectImage ''invalid_input'' ''declared_content_type_mismatch''
                               ''decode_config''
                               ([(''expected_content_type'', JStr declaredContentType),
                                 (''observed_content_type'', JStr contentType)] @ seen)))
                        else if width < 1 \<or> width > maxImageAxis \<or> height < 1 \<or> height > maxImageAxis
                        then Inr (Inl (rejectImage ''invalid_input'' ''dimensions_limit_exceeded''
                               ''decode_config'' ((''axis_limit'', JInt maxImageAxis) # sized)))
                        else if width * height > maxImagePixels
                        then Inr (Inl (rejectImage ''invalid_input'' ''pixel_limit_exceeded'' ''decode_config''
                               ([(''pixel_limit'', JInt maxImagePixels),
                                 (''pixels'', JInt (width * height))] @ sized)))
                        else case env_Decode E encoded of
                          Inl err \<Rightarrow>
                            Inr (Inl (rejectImage ''invalid_input'' ''malformed_image'' ''decode'' sized))
                        | Inr (decodedFormat, dx, dy) \<Rightarrow>
                            if decodedFormat \<noteq> format \<or> dx \<noteq> width \<or> dy \<noteq> height
                            then Inr (Inl (rejectImage ''internal_invariant'' ''decoder_invariant_mismatch''
                                   ''decode''
                                   ([(''expected_format'', JStr format), (''observed_format'', JStr decodedFormat),
                                     (''expected_width'', JInt width), (''observed_width'', JInt dx),
                                     (''expected_height'', JInt height), (''observed_height'', JInt dy)]
                                    @ observed)))
                            else Inr (Inr
                              \<lparr>vi_Bytes = encoded, vi_SHA256 = digest, vi_SizeBytes = observedSize,
                               vi_ContentType = contentType, vi_Format = format,
                               vi_Width = width, vi_Height = height\<rparr>)))"

text \<open>\<^verbatim>\<open>validateImage\<close>: a reader yields its bytes and then ends or fails.\<close>

definition validateImage ::
  "environment \<Rightarrow> (byte list \<times> go_error option) option \<Rightarrow> int \<Rightarrow> int \<Rightarrow> string
     \<Rightarrow> go_error + validationFailure + validatedImage" where
  "validateImage E reader contentLength declaredSize declaredContentType =
     (if contentLength > maxUploadSizeBytes then Inr (Inl (object_too_large contentLength))
      else case reader of
        None \<Rightarrow> Inl errStagingRead
      | Some (body, readErr) \<Rightarrow>
          (case readErr of
             Some err \<Rightarrow>
               if int (length body) \<le> maxUploadSizeBytes
               then Inl (err\<lparr>err_chain := ErrStagingRead # err_chain err\<rparr>)
               else validateImageBytes E (take (nat (maxUploadSizeBytes + 1)) body)
                      contentLength declaredSize declaredContentType
           | None \<Rightarrow> validateImageBytes E (take (nat (maxUploadSizeBytes + 1)) body)
                      contentLength declaredSize declaredContentType))"

subsection \<open>Comparing a candidate with stored bytes\<close>

definition candidateMatchesSnapshot :: "trackedCandidate \<Rightarrow> objectSnapshot \<Rightarrow> bool" where
  "candidateMatchesSnapshot candidate snapshot =
     (if int (length (bytes_of (os_Bytes snapshot))) \<noteq> tc_EncodedSize candidate then False
      else Sum256 (bytes_of (os_Bytes snapshot)) = tc_SHA256 candidate)"

definition candidateMismatchFailure ::
  "trackedCandidate \<Rightarrow> objectSnapshot \<Rightarrow> validationFailure" where
  "candidateMismatchFailure candidate snapshot =
     (let len = int (length (bytes_of (os_Bytes snapshot)));
          observedSize = (if os_ContentLength snapshot > len then os_ContentLength snapshot else len)
      in \<lparr>vf_Class = ''internal_invariant'', vf_Reason = ''candidate_integrity_mismatch'',
          vf_Phase = ''candidate_verify'',
          vf_Evidence = [(''policy_version'', JInt 1), (''expected_size'', JInt (tc_EncodedSize candidate)),
             (''observed_size'', JInt observedSize),
             (''expected_sha256'', JStr (hex_EncodeToString (tc_SHA256 candidate)))] @
            (case os_Bytes snapshot of None \<Rightarrow> []
             | Some bytes \<Rightarrow> [(''observed_sha256'', JStr (hex_EncodeToString (Sum256 bytes)))])\<rparr>)"

subsection \<open>What a validation guarantees\<close>

text \<open>A rejection that the table accepts, the API can report and the metrics count.\<close>

definition failure_ok :: "validationFailure \<Rightarrow> bool" where
  "failure_ok f =
     (vf_Phase f \<in> {''staging_read'', ''decode_config'', ''decode'', ''candidate_verify''} \<and>
      publicFailureCode (vf_Class f) (vf_Reason f) \<noteq> '''' \<and>
      vf_Class f \<in> {''invalid_input'', ''internal_invariant''} \<and>
      vf_Evidence f \<noteq> [] \<and> registered ''validation_rejects_total'' (vf_Reason f))"

lemma failure_ok_table:
  "failure_ok (rejectImage ''invalid_input'' ''object_too_large'' ''staging_read'' ev)"
  "failure_ok (rejectImage ''invalid_input'' ''declared_size_mismatch'' ''staging_read'' ev)"
  "failure_ok (rejectImage ''invalid_input'' ''invalid_image_encoding'' ''decode_config'' ev)"
  "failure_ok (rejectImage ''invalid_input'' ''declared_content_type_mismatch'' ''decode_config'' ev)"
  "failure_ok (rejectImage ''invalid_input'' ''dimensions_limit_exceeded'' ''decode_config'' ev)"
  "failure_ok (rejectImage ''invalid_input'' ''pixel_limit_exceeded'' ''decode_config'' ev)"
  "failure_ok (rejectImage ''invalid_input'' ''malformed_image'' ''decode'' ev)"
  "failure_ok (rejectImage ''internal_invariant'' ''decoder_invariant_mismatch'' ''decode'' ev)"
  by (simp_all add: failure_ok_def rejectImage_def publicFailureCode_def registered_rejects)

lemma candidateMismatch_failure_ok: "failure_ok (candidateMismatchFailure candidate snapshot)"
  by (simp add: candidateMismatchFailure_def failure_ok_def Let_def publicFailureCode_def
      registered_rejects)

text \<open>What a validated image promises about itself.\<close>

definition valid_image :: "environment \<Rightarrow> byte list \<Rightarrow> int \<Rightarrow> string \<Rightarrow> validatedImage \<Rightarrow> bool" where
  "valid_image E encoded declaredSize ctype v =
     (vi_Bytes v = encoded \<and> vi_SHA256 v = Sum256 encoded \<and>
      vi_SizeBytes v = int (length encoded) \<and> vi_SizeBytes v = declaredSize \<and>
      vi_SizeBytes v \<le> maxUploadSizeBytes \<and>
      vi_ContentType v = ctype \<and> ctype = contentTypeForImageFormat (vi_Format v) \<and> ctype \<noteq> '''' \<and>
      1 \<le> vi_Width v \<and> vi_Width v \<le> maxImageAxis \<and> 1 \<le> vi_Height v \<and> vi_Height v \<le> maxImageAxis \<and>
      vi_Width v * vi_Height v \<le> maxImagePixels \<and>
      env_DecodeConfig E encoded = Inr (vi_Format v, vi_Width v, vi_Height v) \<and>
      env_Decode E encoded = Inr (vi_Format v, vi_Width v, vi_Height v))"

definition outcome_ok ::
  "(validatedImage \<Rightarrow> bool) \<Rightarrow> go_error + validationFailure + validatedImage \<Rightarrow> bool" where
  "outcome_ok Q r = ((\<forall>f. r = Inr (Inl f) \<longrightarrow> failure_ok f) \<and> (\<forall>v. r = Inr (Inr v) \<longrightarrow> Q v))"

lemma outcome_rules:
  "outcome_ok Q (Inl err)"
  "failure_ok f \<Longrightarrow> outcome_ok Q (Inr (Inl f))"
  "Q v \<Longrightarrow> outcome_ok Q (Inr (Inr v))"
  "(b \<Longrightarrow> outcome_ok Q x) \<Longrightarrow> (\<not> b \<Longrightarrow> outcome_ok Q y) \<Longrightarrow> outcome_ok Q (if b then x else y)"
  "(\<And>e. s = Inl e \<Longrightarrow> outcome_ok Q (h e)) \<Longrightarrow> (\<And>z. s = Inr z \<Longrightarrow> outcome_ok Q (k z)) \<Longrightarrow>
     outcome_ok Q (case s of Inl e \<Rightarrow> h e | Inr z \<Rightarrow> k z)"
  "(\<And>c d. p = (c, d) \<Longrightarrow> outcome_ok Q (g c d)) \<Longrightarrow> outcome_ok Q (case p of (c, d) \<Rightarrow> g c d)"
  by (auto simp: outcome_ok_def split: sum.splits prod.splits)

lemma validateImageBytes_outcome:
  "outcome_ok (valid_image E encoded declaredSize ctype)
     (validateImageBytes E encoded contentLength declaredSize ctype)"
  unfolding validateImageBytes_def object_too_large_def Let_def
  by (intro outcome_rules failure_ok_table) (simp add: valid_image_def)

lemma validateImageBytes_Inl: "validateImageBytes E encoded len declared ctype = Inr (Inl f) \<Longrightarrow> failure_ok f"
  using validateImageBytes_outcome [of E encoded declared ctype len] by (simp add: outcome_ok_def)

lemma validateImageBytes_Inr:
  "validateImageBytes E encoded len declared ctype = Inr (Inr v) \<Longrightarrow> valid_image E encoded declared ctype v"
  using validateImageBytes_outcome [of E encoded declared ctype len] by (simp add: outcome_ok_def)

lemma contentTypeForImageFormat_known:
  "contentTypeForImageFormat format \<noteq> '''' \<longleftrightarrow> format \<in> {''jpeg'', ''png''}"
  by (simp add: contentTypeForImageFormat_def)

text \<open>Exactly the objects that pass every check are accepted.\<close>

lemma contentTypeForImageFormat_iff:
  "ctype = contentTypeForImageFormat format \<and> ctype \<noteq> '''' \<longleftrightarrow>
     format = ''jpeg'' \<and> ctype = ''image/jpeg'' \<or> format = ''png'' \<and> ctype = ''image/png''"
  by (auto simp: contentTypeForImageFormat_def)

lemma validateImageBytes_accepts:
  assumes "valid_image E encoded declaredSize ctype v" and "contentLength < 0 \<or> contentLength = int (length encoded)"
  shows "validateImageBytes E encoded contentLength declaredSize ctype = Inr (Inr v)"
  using assms by (auto simp: valid_image_def validateImageBytes_def Let_def limits)

lemma validateImageBytes_iff:
  "validateImageBytes E encoded contentLength declaredSize ctype = Inr (Inr v) \<longleftrightarrow>
     (contentLength < 0 \<or> contentLength = int (length encoded)) \<and>
     v = \<lparr>vi_Bytes = encoded, vi_SHA256 = Sum256 encoded, vi_SizeBytes = int (length encoded),
          vi_ContentType = ctype, vi_Format = vi_Format v, vi_Width = vi_Width v, vi_Height = vi_Height v\<rparr> \<and>
     int (length encoded) = declaredSize \<and> declaredSize \<le> 10485760 \<and>
     (vi_Format v = ''jpeg'' \<and> ctype = ''image/jpeg'' \<or> vi_Format v = ''png'' \<and> ctype = ''image/png'') \<and>
     1 \<le> vi_Width v \<and> vi_Width v \<le> 8192 \<and> 1 \<le> vi_Height v \<and> vi_Height v \<le> 8192 \<and>
     vi_Width v * vi_Height v \<le> 8388608 \<and>
     env_DecodeConfig E encoded = Inr (vi_Format v, vi_Width v, vi_Height v) \<and>
     env_Decode E encoded = Inr (vi_Format v, vi_Width v, vi_Height v)" (is "?L \<longleftrightarrow> ?R")
proof
  assume L: ?L
  from validateImageBytes_Inr [OF L] have v: "valid_image E encoded declaredSize ctype v" .
  moreover have "contentLength < 0 \<or> contentLength = int (length encoded)"
    using L by (auto simp: validateImageBytes_def Let_def split: if_splits)
  ultimately show ?R
    using contentTypeForImageFormat_iff [of ctype "vi_Format v"] by (auto simp: valid_image_def limits)
next
  assume R: ?R
  then have fields: "vi_Bytes v = encoded" "vi_SHA256 v = Sum256 encoded" "vi_SizeBytes v = int (length encoded)"
    "vi_ContentType v = ctype" by (metis validatedImage.select_convs)+
  have "ctype = contentTypeForImageFormat (vi_Format v) \<and> ctype \<noteq> ''''"
    using R unfolding contentTypeForImageFormat_iff by blast
  then have "ctype = contentTypeForImageFormat (vi_Format v)" and "ctype \<noteq> ''''" by blast+
  with R fields have "valid_image E encoded declaredSize ctype v" by (simp add: valid_image_def limits)
  with R show ?L by (intro validateImageBytes_accepts) blast+
qed

end
