(* ===== verification/Http.thy ===== *)
theory Http
  imports Json Completion Validate
begin

section \<open>The HTTP interface\<close>

text \<open>
  Models \<^verbatim>\<open>http.go\<close>: routing, the response recorder, the handlers and \<^verbatim>\<open>ServeHTTP\<close>.  A response is
  built by explicit state passing; a JSON body is kept as the value that is encoded (its text is in \<^verbatim>\<open>Responses.thy\<close>).  The operations
  that the handlers call are the fields of the record \<open>application\<close>, as in the source; the locale
  \<open>upload_operations\<close> states what the handlers rely on in them, and is interpreted by the wiring of
  \<^verbatim>\<open>run.go\<close>.
\<close>

subsection \<open>Requests and responses\<close>

record http_request =
  hr_Method :: string
  hr_Path :: string
  hr_Header :: "(string \<times> string list) list"
  hr_Body :: string
  hr_BodyErr :: "go_error option"

datatype payload =
    ErrorPayload string string
  | UploadPayload uploadRepresentation
  | StatusPayload string
  | ReadyPayload string string string
  | ExpvarPayload

text \<open>\<^verbatim>\<open>statusRecorder\<close> around a \<^verbatim>\<open>ResponseWriter\<close>, which sends the header it has at the first
  \<^verbatim>\<open>WriteHeader\<close> or \<^verbatim>\<open>Write\<close>.\<close>

record recorder =
  rc_status :: int
  rc_header :: "string \<rightharpoonup> string"
  rc_sent :: "(int \<times> (string \<rightharpoonup> string)) option"
  rc_body :: "payload list"

definition new_recorder :: recorder where
  "new_recorder = \<lparr>rc_status = 0, rc_header = Map.empty, rc_sent = None, rc_body = []\<rparr>"

definition Header_Set :: "string \<Rightarrow> string \<Rightarrow> recorder \<Rightarrow> recorder" where
  "Header_Set k v w = w\<lparr>rc_header := (rc_header w)(k \<mapsto> v)\<rparr>"

definition send_header :: "int \<Rightarrow> recorder \<Rightarrow> recorder" where
  "send_header status w =
     (if rc_sent w = None then w\<lparr>rc_sent := Some (status, rc_header w)\<rparr> else w)"

definition WriteHeader :: "int \<Rightarrow> recorder \<Rightarrow> recorder" where
  "WriteHeader status w =
     (if rc_status w \<noteq> 0 then w else send_header status (w\<lparr>rc_status := status\<rparr>))"

definition WriteBody :: "payload \<Rightarrow> recorder \<Rightarrow> recorder" where
  "WriteBody body w =
     (let w = (if rc_status w = 0 then w\<lparr>rc_status := 200\<rparr> else w);
          w = send_header 200 w
      in w\<lparr>rc_body := rc_body w @ [body]\<rparr>)"

definition writeJSON :: "recorder \<Rightarrow> int \<Rightarrow> payload \<Rightarrow> recorder" where
  "writeJSON w status body =
     WriteBody body (WriteHeader status (Header_Set ''Cache-Control'' ''no-store''
       (Header_Set ''Content-Type'' ''application/json'' w)))"

definition writeError :: "recorder \<Rightarrow> int \<Rightarrow> string \<Rightarrow> string \<Rightarrow> recorder" where
  "writeError w status code message = writeJSON w status (ErrorPayload code message)"

subsection \<open>Routes\<close>

definition operationalRoute :: "string \<Rightarrow> string" where
  "operationalRoute path =
     (if path = ''/livez'' \<or> path = ''/readyz'' \<or> path = ''/debug/vars'' then path else '''')"

definition applicationRoute :: "string \<Rightarrow> string \<times> string" where
  "applicationRoute path =
     (let route = operationalRoute path in
      if route \<noteq> '''' then (route, '''')
      else if path = ''/uploads'' then (path, '''')
      else if HasPrefix path ''/uploads/'' then
        (let uploadID = TrimPrefix path ''/uploads/'' in
         if HasSuffix uploadID ''/content'' then
           (let uploadID = TrimSuffix uploadID ''/content'' in
            if uploadID \<noteq> '''' \<and> \<not> strings_Contains uploadID ''/''
            then (''/uploads/{upload_id}/content'', uploadID) else ('''', ''''))
         else if HasSuffix uploadID ''/complete'' then
           (let uploadID = TrimSuffix uploadID ''/complete'' in
            if uploadID \<noteq> '''' \<and> \<not> strings_Contains uploadID ''/''
            then (''/uploads/{upload_id}/complete'', uploadID) else ('''', ''''))
         else if uploadID \<noteq> '''' \<and> \<not> strings_Contains uploadID ''/''
         then (''/uploads/{upload_id}'', uploadID)
         else ('''', ''''))
      else ('''', ''''))"

definition routeLabel :: "string \<Rightarrow> string" where
  "routeLabel route = (if route = '''' then ''unknown'' else route)"

definition methodLabel :: "string \<Rightarrow> string" where
  "methodLabel m =
     (if m \<in> {''GET'', ''HEAD'', ''POST'', ''PUT'', ''PATCH'', ''DELETE'', ''OPTIONS''} then m else ''other'')"

text \<open>\<^verbatim>\<open>idempotencyKeyPattern\<close>: one class of characters for each position.\<close>

definition lower_hex :: "char \<Rightarrow> bool" where
  "lower_hex c = ((CHR ''0'' \<le> c \<and> c \<le> CHR ''9'') \<or> (CHR ''a'' \<le> c \<and> c \<le> CHR ''f''))"

definition key_classes :: "(char \<Rightarrow> bool) list" where
  "key_classes =
     replicate 8 lower_hex @ [(=) (CHR ''-'')] @ replicate 4 lower_hex @ [(=) (CHR ''-'')] @
     [(=) (CHR ''4'')] @ replicate 3 lower_hex @ [(=) (CHR ''-'')] @
     [\<lambda>c. c \<in> {CHR ''8'', CHR ''9'', CHR ''a'', CHR ''b''}] @ replicate 3 lower_hex @ [(=) (CHR ''-'')] @
     replicate 12 lower_hex"

definition idempotencyKeyPattern :: "string \<Rightarrow> bool" where
  "idempotencyKeyPattern s = list_all2 (\<lambda>p c. p c) key_classes s"

subsection \<open>Reading a body\<close>

definition maxCreateUploadBodyBytes :: nat where "maxCreateUploadBodyBytes = 16384"

datatype body_error = MaxBytesError | ReadError go_error

text \<open>\<^verbatim>\<open>io.ReadAll(http.MaxBytesReader(writer, request.Body, limit))\<close>.\<close>

definition read_limited :: "nat \<Rightarrow> http_request \<Rightarrow> body_error + string" where
  "read_limited limit request =
     (if limit < length (hr_Body request) then Inl MaxBytesError
      else case hr_BodyErr request of
        Some err \<Rightarrow> Inl (ReadError err)
      | None \<Rightarrow> Inr (hr_Body request))"

subsection \<open>The application\<close>

record application =
  ap_postgresPing :: "(world, go_error option) state"
  ap_s3HeadBucket :: "(world, go_error option) state"
  ap_createUpload :: "createUploadCommand \<Rightarrow> (world, go_error + createUploadResult) state"
  ap_completeUpload :: "string \<Rightarrow> (world, go_error + completeUploadResult) state"
  ap_getUpload :: "string \<Rightarrow> (world, go_error + uploadRepresentation) state"
  ap_getContent :: "string \<Rightarrow> (world, go_error + contentReadResult) state"
  ap_stopping :: bool

text \<open>A handler's answer: the response, the upload to log and the error code (empty if there is none).\<close>

type_synonym answer = "recorder \<times> string \<times> string"

definition refuse :: "recorder \<Rightarrow> int \<Rightarrow> string \<Rightarrow> string \<Rightarrow> (world, answer) state" where
  "refuse w status code message = State_Monad.return (writeError w status code message, '''', code)"

definition internal_error :: "recorder \<Rightarrow> string \<Rightarrow> (world, answer) state" where
  "internal_error w uploadID =
     State_Monad.return (writeError w 500 ''internal_error'' ''internal server error'', uploadID, ''internal_error'')"

text \<open>The \<^verbatim>\<open>switch\<close> on the error of an operation on one upload.\<close>

definition upload_error :: "recorder \<Rightarrow> go_error \<Rightarrow> (world, answer) state" where
  "upload_error w err =
     (if errors_Is err ErrUploadNotFound then refuse w 404 ''upload_not_found'' ''upload not found''
      else if errors_Is err ErrServiceUnavailable
      then refuse w 503 ''service_unavailable'' ''service unavailable''
      else internal_error w '''')"

subsection \<open>Creating\<close>

definition create_error :: "recorder \<Rightarrow> go_error \<Rightarrow> (world, answer) state" where
  "create_error w err =
     (if errors_Is err ErrIdempotencyKeyReused
      then refuse w 422 ''idempotency_key_reused'' ''idempotency key was reused''
      else if errors_Is err ErrServiceUnavailable
      then refuse w 503 ''service_unavailable'' ''service unavailable''
      else internal_error w '''')"

definition log_created :: "createUploadResult \<Rightarrow> (world, unit) state" where
  "log_created result =
     (if cr_Created result then do {
        metric_add ''upload_transitions_total'' ''none_to_pending'';
        log_info ''upload.transition''
          [(''upload_id'', AStr (up_UploadID (cr_Upload result))), (''state_from'', AStr ''none''),
           (''state_to'', AStr ''pending''), (''trigger'', AStr ''create'')] }
      else State_Monad.return ())"

definition log_capability :: "createUploadResult \<Rightarrow> (world, unit) state" where
  "log_capability result =
     (case up_UploadRequest (cr_Upload result) of
        None \<Rightarrow> State_Monad.return ()
      | Some q \<Rightarrow> log_info ''capability.issued''
          [(''upload_id'', AStr (up_UploadID (cr_Upload result))), (''kind'', AStr ''upload_put''),
           (''source'', AStr (if cr_Created result then ''initial'' else ''replay'')),
           (''expires_at'', ATime (rq_ExpiresAt q))])"

definition created_response :: "recorder \<Rightarrow> createUploadResult \<Rightarrow> recorder" where
  "created_response w result =
     (if cr_Created result
      then writeJSON (Header_Set ''Location'' (''/uploads/'' @ up_UploadID (cr_Upload result)) w) 201
             (UploadPayload (cr_Upload result))
      else writeJSON w 200 (UploadPayload (cr_Upload result)))"

definition valid_declaration :: "createUploadCommand \<Rightarrow> bool" where
  "valid_declaration command =
     (1 \<le> cc_SizeBytes command \<and> cc_SizeBytes command \<le> maxUploadSizeBytes \<and>
      (cc_ContentType command = ''image/jpeg'' \<or> cc_ContentType command = ''image/png''))"

definition perform_create :: "application \<Rightarrow> recorder \<Rightarrow> createUploadCommand \<Rightarrow> (world, answer) state" where
  "perform_create a w command = do {
     created \<leftarrow> ap_createUpload a command;
     case created of
       Inl err \<Rightarrow> create_error w err
     | Inr result \<Rightarrow> do {
         _ \<leftarrow> log_created result;
         _ \<leftarrow> log_capability result;
         State_Monad.return (created_response w result, up_UploadID (cr_Upload result), '''') } }"

definition serveCreateUpload :: "application \<Rightarrow> recorder \<Rightarrow> http_request \<Rightarrow> (world, answer) state" where
  "serveCreateUpload a w request =
     (let idempotencyKeys = header_values (hr_Header request) ''Idempotency-Key'';
          contentTypes = header_values (hr_Header request) ''Content-Type''
      in if length idempotencyKeys \<noteq> 1 \<or> \<not> idempotencyKeyPattern (idempotencyKeys ! 0)
         then refuse w 400 ''invalid_idempotency_key'' ''invalid idempotency key''
         else if length contentTypes \<noteq> 1 \<or> contentTypes ! 0 \<noteq> ''application/json''
         then refuse w 415 ''unsupported_media_type'' ''unsupported media type''
         else case read_limited maxCreateUploadBodyBytes request of
           Inl err \<Rightarrow>
             (if err = MaxBytesError then refuse w 413 ''request_too_large'' ''request body is too large''
              else refuse w 400 ''invalid_request'' ''invalid request body'')
         | Inr encoded \<Rightarrow>
             (case decodeCreateUploadBody encoded of
                None \<Rightarrow> refuse w 400 ''invalid_request'' ''invalid request body''
              | Some command \<Rightarrow>
                  (if \<not> valid_declaration command
                   then refuse w 422 ''invalid_upload_declaration'' ''invalid upload declaration''
                   else perform_create a w (command\<lparr>cc_IdempotencyKey := idempotencyKeys ! 0\<rparr>))))"

subsection \<open>Completing\<close>

definition log_completion :: "completeUploadResult \<Rightarrow> (world, unit) state" where
  "log_completion result =
     (if co_Transition result \<noteq> '''' then do {
        metric_add ''upload_transitions_total'' (co_Transition result);
        log_info ''upload.transition''
          ([(''upload_id'', AStr (up_UploadID (co_Upload result))), (''state_from'', AStr ''pending''),
            (''state_to'', AStr (state_text (up_State (co_Upload result)))), (''trigger'', AStr ''completion'')] @
           (if up_State (co_Upload result) = Expired
            then [(''reason_code'', AStr ''upload_deadline_elapsed'')] else [])) }
      else State_Monad.return ())"

definition impossible_transition :: "completeUploadResult \<Rightarrow> bool" where
  "impossible_transition result =
     (co_Transition result \<noteq> '''' \<and>
      \<not> ((co_Transition result = ''pending_to_finalizing'' \<and> up_State (co_Upload result) = Finalizing) \<or>
         (co_Transition result = ''pending_to_expired'' \<and> up_State (co_Upload result) = Expired)))"

definition perform_complete :: "application \<Rightarrow> recorder \<Rightarrow> string \<Rightarrow> (world, answer) state" where
  "perform_complete a w uploadID = do {
     completed \<leftarrow> ap_completeUpload a uploadID;
     case completed of
       Inl err \<Rightarrow> upload_error w err
     | Inr res \<Rightarrow>
         (let result = res\<lparr>co_Upload := (co_Upload res)\<lparr>up_UploadRequest := None\<rparr>\<rparr>;
              upload = co_Upload result
          in if impossible_transition result then internal_error w ''''
             else if up_State upload \<noteq> Finalizing \<and> \<not> terminal (up_State upload) then internal_error w ''''
             else do {
               _ \<leftarrow> log_completion result;
               State_Monad.return
                 ((if up_State upload = Finalizing
                   then writeJSON (Header_Set ''Location'' (''/uploads/'' @ up_UploadID upload) w) 202
                          (UploadPayload upload)
                   else writeJSON w 200 (UploadPayload upload)),
                  up_UploadID upload, '''') }) }"

definition with_empty_body ::
  "recorder \<Rightarrow> http_request \<Rightarrow> (world, answer) state \<Rightarrow> (world, answer) state" where
  "with_empty_body w request rest =
     (case read_limited 0 request of
        Inl err \<Rightarrow> refuse w 400 ''invalid_request'' ''request body must be empty''
      | Inr _ \<Rightarrow> rest)"

definition serveCompleteUpload ::
  "application \<Rightarrow> recorder \<Rightarrow> http_request \<Rightarrow> string \<Rightarrow> (world, answer) state" where
  "serveCompleteUpload a w request uploadID = with_empty_body w request (perform_complete a w uploadID)"

subsection \<open>Reading\<close>

definition serveGetUpload ::
  "application \<Rightarrow> recorder \<Rightarrow> http_request \<Rightarrow> string \<Rightarrow> (world, answer) state" where
  "serveGetUpload a w request uploadID = with_empty_body w request (do {
     fetched \<leftarrow> ap_getUpload a uploadID;
     case fetched of
       Inl err \<Rightarrow> upload_error w err
     | Inr upload \<Rightarrow> State_Monad.return
         (writeJSON w 200 (UploadPayload (upload\<lparr>up_UploadRequest := None\<rparr>)), up_UploadID upload, '''') })"

definition rejected_content :: "recorder \<Rightarrow> contentReadResult \<Rightarrow> (world, answer) state" where
  "rejected_content w result =
     (let code = cn_FailureCode result; answer = (\<lambda>status message.
            State_Monad.return (writeError w status code message, cn_UploadID result, code))
      in if code = ''image_too_large'' then answer 422 ''image is too large''
         else if code = ''invalid_image'' then answer 422 ''invalid image''
         else if code = ''upload_processing_failed'' then answer 500 ''upload processing failed''
         else internal_error w (cn_UploadID result))"

definition redirect_content :: "recorder \<Rightarrow> contentReadResult \<Rightarrow> (world, answer) state" where
  "redirect_content w result =
     (if cn_URL result = '''' then internal_error w (cn_UploadID result)
      else do {
        log_info ''capability.issued''
          [(''upload_id'', AStr (cn_UploadID result)), (''kind'', AStr ''content_get''),
           (''source'', AStr ''ready_read''), (''expires_at'', ATime (cn_ExpiresAt result))];
        State_Monad.return
          (WriteHeader 307 (Header_Set ''X-Content-Type-Options'' ''nosniff''
             (Header_Set ''Cache-Control'' ''private, no-store'' (Header_Set ''Location'' (cn_URL result) w))),
           cn_UploadID result, '''') })"

definition content_response :: "recorder \<Rightarrow> contentReadResult \<Rightarrow> (world, answer) state" where
  "content_response w result =
     (case cn_State result of
        Ready \<Rightarrow> redirect_content w result
      | Pending \<Rightarrow> State_Monad.return
          (writeError w 409 ''upload_not_ready'' ''upload is not ready'', cn_UploadID result, ''upload_not_ready'')
      | Finalizing \<Rightarrow> State_Monad.return
          (writeError w 409 ''upload_not_ready'' ''upload is not ready'', cn_UploadID result, ''upload_not_ready'')
      | Rejected \<Rightarrow> rejected_content w result
      | Expired \<Rightarrow> State_Monad.return
          (writeError w 410 ''upload_expired'' ''upload expired'', cn_UploadID result, ''upload_expired'')
      | OtherState _ \<Rightarrow> internal_error w (cn_UploadID result))"

definition serveGetContent ::
  "application \<Rightarrow> recorder \<Rightarrow> http_request \<Rightarrow> string \<Rightarrow> (world, answer) state" where
  "serveGetContent a w request uploadID = with_empty_body w request (do {
     read \<leftarrow> ap_getContent a uploadID;
     case read of
       Inl err \<Rightarrow> upload_error w err
     | Inr result \<Rightarrow> content_response w result })"

subsection \<open>Readiness and dispatch\<close>

definition check_dependency ::
  "environment \<Rightarrow> string \<Rightarrow> (world, go_error option) state \<Rightarrow> (world, bool) state" where
  "check_dependency E dependency probe = do {
     started \<leftarrow> time_Now E;
     err \<leftarrow> probe;
     (if err \<noteq> None then do {
        now \<leftarrow> time_Now E;
        log_info ''readiness.failed''
          [(''dependency'', AStr dependency), (''error_class'', AStr ''unavailable''),
           (''duration_ms'', AInt (milliseconds (now - started)))];
        State_Monad.return False }
      else State_Monad.return True) }"

definition status_word :: "bool \<Rightarrow> string" where
  "status_word ok = (if ok then ''ok'' else ''error'')"

text \<open>\<^verbatim>\<open>ready\<close>.\<close>

definition serveReady :: "environment \<Rightarrow> application \<Rightarrow> recorder \<Rightarrow> (world, recorder \<times> bool) state" where
  "serveReady E a w = do {
     postgres \<leftarrow> check_dependency E ''postgres'' (ap_postgresPing a);
     s3 \<leftarrow> check_dependency E ''s3'' (ap_s3HeadBucket a);
     let ok = (postgres \<and> s3);
     State_Monad.return
       (writeJSON w (if ok then 200 else 503)
          (ReadyPayload (status_word ok) (status_word postgres) (status_word s3)), ok) }"

definition allowed_method :: "string \<Rightarrow> string" where
  "allowed_method route =
     (if route = ''/uploads'' \<or> route = ''/uploads/{upload_id}/complete'' then ''POST'' else ''GET'')"

definition serve_livez :: "application \<Rightarrow> recorder \<Rightarrow> (world, answer) state" where
  "serve_livez a w =
     State_Monad.return
       (if ap_stopping a then (writeJSON w 503 (StatusPayload ''stopping''), '''', ''service_unavailable'')
        else (writeJSON w 200 (StatusPayload ''ok''), '''', ''''))"

definition serve_vars :: "recorder \<Rightarrow> (world, answer) state" where
  "serve_vars w =
     State_Monad.return
       (WriteBody ExpvarPayload (Header_Set ''Content-Type'' ''application/json; charset=utf-8''
          (Header_Set ''Cache-Control'' ''no-store'' w)), '''', '''')"

definition dispatch ::
  "environment \<Rightarrow> application \<Rightarrow> recorder \<Rightarrow> http_request \<Rightarrow> string \<Rightarrow> string \<Rightarrow> (world, answer) state" where
  "dispatch E a w request route uploadID =
     (if route = '''' then State_Monad.return (writeError w 404 ''not_found'' ''route not found'', '''', ''not_found'')
      else if hr_Method request \<noteq> allowed_method route then State_Monad.return
        (writeError (Header_Set ''Allow'' (allowed_method route) w) 405 ''method_not_allowed'' ''method not allowed'',
         '''', ''method_not_allowed'')
      else if route = ''/livez'' then serve_livez a w
      else if route = ''/readyz'' then do {
        (w', ok) \<leftarrow> serveReady E a w;
        State_Monad.return (w', '''', if ok then '''' else ''service_unavailable'') }
      else if route = ''/debug/vars'' then serve_vars w
      else if route = ''/uploads'' then serveCreateUpload a w request
      else if route = ''/uploads/{upload_id}/complete'' then serveCompleteUpload a w request uploadID
      else if route = ''/uploads/{upload_id}/content'' then serveGetContent a w request uploadID
      else if route = ''/uploads/{upload_id}'' then serveGetUpload a w request uploadID
      else State_Monad.return (w, '''', ''''))"

definition request_attributes ::
  "string \<Rightarrow> string \<Rightarrow> int \<Rightarrow> duration \<Rightarrow> string \<Rightarrow> string \<Rightarrow> (string \<times> attribute) list" where
  "request_attributes route m status elapsed loggedUploadID errorCode =
     [(''route'', AStr (routeLabel route)), (''method'', AStr (methodLabel m)), (''status'', AInt status),
      (''duration_ms'', AInt (milliseconds elapsed)),
      (''outcome'', AStr (if errorCode \<noteq> '''' then ''error'' else ''ok''))] @
     (if loggedUploadID \<noteq> '''' then [(''upload_id'', AStr loggedUploadID)] else []) @
     (if errorCode \<noteq> '''' then [(''error_code'', AStr errorCode)] else [])"

definition ServeHTTP :: "environment \<Rightarrow> application \<Rightarrow> http_request \<Rightarrow> (world, recorder) state" where
  "ServeHTTP E a request = do {
     started \<leftarrow> time_Now E;
     let (route, uploadID) = applicationRoute (hr_Path request);
     (w, loggedUploadID, errorCode) \<leftarrow> dispatch E a new_recorder request route uploadID;
     now \<leftarrow> time_Now E;
     log_info ''http.request_finished''
       (request_attributes route (hr_Method request) (rc_status w) (now - started) loggedUploadID errorCode);
     State_Monad.return w }"

text \<open>The wiring of \<^verbatim>\<open>run.go\<close>.\<close>

definition probe_with :: "(nat \<Rightarrow> go_error option) \<Rightarrow> (world, go_error option) state" where
  "probe_with f = do { k \<leftarrow> next_tick; State_Monad.return (f k) }"

definition wired :: "environment \<Rightarrow> bool \<Rightarrow> application" where
  "wired E stopping =
     \<lparr>ap_postgresPing = probe_with (env_ping E),
      ap_s3HeadBucket = probe_with (env_head E),
      ap_createUpload = createOrReplayUpload E (presignUploadPUT E True),
      ap_completeUpload = completeUploadByID E,
      ap_getUpload = getUploadByID E,
      ap_getContent = authorizeContentRead E (presignContentGET E True),
      ap_stopping = stopping\<rparr>"

subsection \<open>Responses\<close>

text \<open>A response is complete when its status was sent, and a failed one carries an error code.\<close>

definition answered :: "recorder \<Rightarrow> bool" where
  "answered w = (rc_status w \<noteq> 0 \<and> (\<exists>h. rc_sent w = Some (rc_status w, h)))"

definition coded :: "recorder \<Rightarrow> string \<Rightarrow> bool" where
  "coded w code = (code = '''' \<longleftrightarrow> rc_status w < 400)"

definition fresh :: "recorder \<Rightarrow> bool" where
  "fresh w = (rc_status w = 0 \<and> rc_sent w = None \<and> rc_body w = [])"

lemma fresh_recorder [simp]: "fresh new_recorder" "fresh w \<Longrightarrow> fresh (Header_Set k v w)"
  by (simp_all add: fresh_def new_recorder_def Header_Set_def)

lemma writeJSON_fresh [simp]:
  assumes "fresh w" and "status \<noteq> 0"
  shows "rc_status (writeJSON w status body) = status" "rc_body (writeJSON w status body) = [body]"
    "answered (writeJSON w status body)"
  using assms
  by (simp_all add: writeJSON_def WriteBody_def WriteHeader_def send_header_def Header_Set_def fresh_def
      answered_def Let_def)

lemma writeError_fresh [simp]:
  assumes "fresh w" and "status \<noteq> 0"
  shows "rc_status (writeError w status code message) = status" "answered (writeError w status code message)"
    "rc_body (writeError w status code message) = [ErrorPayload code message]"
  using assms by (simp_all add: writeError_def)

lemma WriteHeader_fresh [simp]:
  assumes "fresh w" and "status \<noteq> 0"
  shows "rc_status (WriteHeader status w) = status" "answered (WriteHeader status w)"
    "rc_sent (WriteHeader status w) = Some (status, rc_header w)"
  using assms by (simp_all add: WriteHeader_def send_header_def fresh_def answered_def)

lemma header_set [simp]: "rc_header (Header_Set k v w) = (rc_header w)(k \<mapsto> v)"
  by (simp add: Header_Set_def)

lemma serve_vars_fresh:
  "fresh w \<Longrightarrow> answered (WriteBody p w) \<and> rc_status (WriteBody p w) = 200"
  by (simp add: WriteBody_def send_header_def fresh_def answered_def Let_def)

subsection \<open>The contract of the operations\<close>

lemma steady_log: "\<not> announces_ready (name, attrs) \<Longrightarrow> steady (log_info name attrs) (\<lambda>_. True)"
  by (auto simp: steady_def log_info_def modify_def wp svc_step_def metrics_ready_def audited_def)

lemma steady_seq:
  assumes "steady m A" and "\<And>r. A r \<Longrightarrow> steady (f r) B"
  shows "steady (State_Monad.bind m f) B"
  unfolding steady_def wp_bind
proof (intro allI impI)
  fix w :: world assume "\<not> tx_open w"
  with assms(1) have "wp m (\<lambda>r w'. svc_step w w' \<and> \<not> tx_open w' \<and> w_db w' = w_db w \<and> A r) w"
    by (simp add: steady_def)
  then show "wp m (\<lambda>r. wp (f r) (\<lambda>r' w'. svc_step w w' \<and> \<not> tx_open w' \<and> w_db w' = w_db w \<and> B r')) w"
  proof (rule wp_mono)
    fix r w' assume w': "svc_step w w' \<and> \<not> tx_open w' \<and> w_db w' = w_db w \<and> A r"
    then have "wp (f r) (\<lambda>r' w''. svc_step w' w'' \<and> \<not> tx_open w'' \<and> w_db w'' = w_db w' \<and> B r') w'"
      using assms(2) unfolding steady_def by blast
    then show "wp (f r) (\<lambda>r' w'. svc_step w w' \<and> \<not> tx_open w' \<and> w_db w' = w_db w \<and> B r') w'"
      by (rule wp_mono) (use w' in \<open>auto intro: svc.trans\<close>)
  qed
qed

lemma steady_return: "P x \<Longrightarrow> steady (State_Monad.return x) P"
  by (simp add: steady_def wp svc.refl)

lemma state_text_ready: "state_text s = ''ready'' \<longleftrightarrow> s = Ready \<or> s = OtherState ''ready''"
  by (cases s) auto

lemma steady_logs:
  "steady (log_created result) (\<lambda>_. True)"
  "steady (log_capability result) (\<lambda>_. True)"
  "\<not> impossible_transition res \<Longrightarrow> steady (log_completion res) (\<lambda>_. True)"
  unfolding log_created_def log_capability_def log_completion_def
  by (auto intro!: steady_seq [OF steady_metric_add] registered_transition steady_log steady_return
      simp: impossible_transition_def state_text_ready split: option.splits)

lemmas steady_log_binds = steady_logs [THEN steady_bind]

text \<open>What each handler's answer says about the database at that moment.\<close>

definition in_state :: "string \<Rightarrow> upload_state set \<Rightarrow> db \<Rightarrow> bool" where
  "in_state uid states d = (\<exists>u\<in>set (uploads d). u_upload_id u = uid \<and> u_state u \<in> states)"

fun create_served :: "(string \<Rightarrow> string \<Rightarrow> uploadRequest \<Rightarrow> bool) \<Rightarrow> http_request \<Rightarrow> answer \<Rightarrow> db \<Rightarrow> bool" where
  "create_served grants request (w, uid, code) d =
     (answered w \<and> coded w code \<and>
      (code = '''' \<longrightarrow>
        (\<exists>c k upload. decodeCreateUploadBody (hr_Body request) = Some c \<and> valid_declaration c \<and>
           header_values (hr_Header request) ''Idempotency-Key'' = [k] \<and> idempotencyKeyPattern k \<and>
           rc_body w = [UploadPayload upload] \<and> up_UploadID upload = uid \<and>
           declared_by (c\<lparr>cc_IdempotencyKey := k\<rparr>) uid d \<and>
           answer_ok grants (c\<lparr>cc_IdempotencyKey := k\<rparr>) upload d)))"

fun complete_served :: "string \<Rightarrow> answer \<Rightarrow> db \<Rightarrow> bool" where
  "complete_served uploadID (w, uid, code) d =
     (answered w \<and> coded w code \<and>
      (code = '''' \<longrightarrow>
        (\<exists>upload. rc_body w = [UploadPayload upload] \<and> up_UploadID upload = uploadID \<and>
           up_UploadRequest upload = None \<and> in_state uploadID {up_State upload} d \<and>
           (rc_status w = 202 \<and> up_State upload = Finalizing \<or>
            rc_status w = 200 \<and> terminal (up_State upload)))))"

fun get_served :: "string \<Rightarrow> answer \<Rightarrow> db \<Rightarrow> bool" where
  "get_served uploadID (w, uid, code) d =
     (answered w \<and> coded w code \<and>
      (code = '''' \<longrightarrow>
        (\<exists>upload. rc_body w = [UploadPayload upload] \<and> up_UploadID upload = uploadID \<and>
           up_UploadRequest upload = None \<and> in_state uploadID {up_State upload} d)))"

fun content_served :: "(string \<Rightarrow> string \<times> time \<Rightarrow> bool) \<Rightarrow> string \<Rightarrow> answer \<Rightarrow> db \<Rightarrow> bool" where
  "content_served grants uploadID (w, uid, code) d =
     (answered w \<and> coded w code \<and>
      (code = '''' \<longrightarrow>
        (\<exists>u\<in>set (uploads d). \<exists>key url expiresAt h. u_upload_id u = uploadID \<and> u_state u = Ready \<and>
           u_final_key u = Some key \<and> grants key (url, expiresAt) \<and>
           rc_sent w = Some (307, h) \<and> h ''Location'' = Some url)) \<and>
      (rc_status w = 409 \<longrightarrow> in_state uploadID {Pending, Finalizing} d) \<and>
      (rc_status w = 422 \<longrightarrow> in_state uploadID {Rejected} d) \<and>
      (rc_status w = 410 \<longrightarrow> in_state uploadID {Expired} d))"

text \<open>Every request is answered, once, and an answer that fails carries an error code.\<close>

fun well_served :: "answer \<Rightarrow> db \<Rightarrow> bool" where
  "well_served (w, uid, code) d = (answered w \<and> coded w code)"

locale upload_operations =
  fixes a :: application
    and upload_grants :: "string \<Rightarrow> string \<Rightarrow> uploadRequest \<Rightarrow> bool"
    and content_grants :: "string \<Rightarrow> string \<times> time \<Rightarrow> bool"
    and env_ok :: bool
  assumes create: "env_ok \<Longrightarrow> service (ap_createUpload a c) (create_contract upload_grants c)"
    and complete: "env_ok \<Longrightarrow> db_inv d \<Longrightarrow>
      triple (idle w\<^sub>0 d) (ap_completeUpload a uid) (closed w\<^sub>0 (attempt_ok uid))"
    and get: "env_ok \<Longrightarrow> service (ap_getUpload a uid)
      (\<lambda>r d. \<forall>upload. r = Inr upload \<longrightarrow> up_UploadID upload = uid \<and> in_state uid {up_State upload} d)"
    and content: "env_ok \<Longrightarrow> service (ap_getContent a uid)
      (\<lambda>r d. \<forall>res. r = Inr res \<longrightarrow> content_ok content_grants uid res d)"
    and probes: "quiet (ap_postgresPing a) (\<lambda>_. True)" "quiet (ap_s3HeadBucket a) (\<lambda>_. True)"
begin

lemma refuse_rule:
  assumes "P (writeError w status code message, '''', code) d"
  shows "triple (idle w\<^sub>0 d) (refuse w status code message) (closed w\<^sub>0 P)"
  unfolding refuse_def by (intro vcg assms)

lemma internal_rule:
  assumes "P (writeError w 500 ''internal_error'' ''internal server error'', uid, ''internal_error'') d"
  shows "triple (idle w\<^sub>0 d) (internal_error w uid) (closed w\<^sub>0 P)"
  unfolding internal_error_def by (intro vcg assms)

lemma upload_error_rule:
  assumes "P (writeError w 404 ''upload_not_found'' ''upload not found'', '''', ''upload_not_found'') d"
    and "P (writeError w 503 ''service_unavailable'' ''service unavailable'', '''', ''service_unavailable'') d"
    and "P (writeError w 500 ''internal_error'' ''internal server error'', '''', ''internal_error'') d"
  shows "triple (idle w\<^sub>0 d) (upload_error w err) (closed w\<^sub>0 P)"
  unfolding upload_error_def by (intro vcg refuse_rule internal_rule assms)

lemma create_error_rule:
  assumes "P (writeError w 422 ''idempotency_key_reused'' ''idempotency key was reused'', '''',
      ''idempotency_key_reused'') d"
    and "P (writeError w 503 ''service_unavailable'' ''service unavailable'', '''', ''service_unavailable'') d"
    and "P (writeError w 500 ''internal_error'' ''internal server error'', '''', ''internal_error'') d"
  shows "triple (idle w\<^sub>0 d) (create_error w err) (closed w\<^sub>0 P)"
  unfolding create_error_def by (intro vcg refuse_rule internal_rule assms)

lemmas answer_rules = refuse_rule internal_rule upload_error_rule create_error_rule

lemma case_body_rule:
  "(\<And>e. r = Inl e \<Longrightarrow> triple pre (h e) Q) \<Longrightarrow> (\<And>s. r = Inr s \<Longrightarrow> triple pre (g s) Q) \<Longrightarrow>
     triple pre (case r of Inl e \<Rightarrow> h e | Inr s \<Rightarrow> g s) Q"
  by (cases r) auto

lemma serve_create:
  assumes "env_ok" and "fresh w"
  shows "service (serveCreateUpload a w request) (create_served upload_grants request)"
  unfolding serveCreateUpload_def perform_create_def Let_def
  by (intro vcg answer_rules case_body_rule service_bind [OF create [OF assms(1)]] steady_log_binds)
     (use assms(2) in \<open>auto simp: coded_def created_response_def read_limited_def
        length_Suc_conv split: if_splits option.splits\<close>)

lemma empty_body_rule:
  assumes "triple (idle w\<^sub>0 d) rest (closed w\<^sub>0 P)"
    and "P (writeError w 400 ''invalid_request'' ''request body must be empty'', '''', ''invalid_request'') d"
  shows "triple (idle w\<^sub>0 d) (with_empty_body w request rest) (closed w\<^sub>0 P)"
  unfolding with_empty_body_def by (intro case_body_rule refuse_rule assms)

lemma completed_possible:
  "completed uid res d \<Longrightarrow> \<not> impossible_transition (res\<lparr>co_Upload := (co_Upload res)\<lparr>up_UploadRequest := None\<rparr>\<rparr>)"
  by (auto simp: completed_def transition_ok_def impossible_transition_def)

lemma serve_complete:
  assumes "env_ok" and "fresh w" and "db_inv d"
  shows "triple (idle w\<^sub>0 d) (serveCompleteUpload a w request uid) (closed w\<^sub>0 (complete_served uid))"
  unfolding serveCompleteUpload_def perform_complete_def Let_def
  by (intro empty_body_rule vcg answer_rules triple_bind [OF complete [OF assms(1,3)]] steady_log_binds)
     (use assms(2) in \<open>auto simp: coded_def completed_def in_state_def terminal_def\<close>)

lemma serve_get:
  assumes "env_ok" and "fresh w"
  shows "service (serveGetUpload a w request uid) (get_served uid)"
  unfolding serveGetUpload_def
  by (intro serviceI empty_body_rule vcg answer_rules service_bind [OF get [OF assms(1)]])
     (use assms(2) in \<open>auto simp: coded_def in_state_def\<close>)

lemma redirect_rule:
  assumes "P (WriteHeader 307 (Header_Set ''X-Content-Type-Options'' ''nosniff''
      (Header_Set ''Cache-Control'' ''private, no-store'' (Header_Set ''Location'' (cn_URL res) w))),
      cn_UploadID res, '''') d"
    and "P (writeError w 500 ''internal_error'' ''internal server error'', cn_UploadID res, ''internal_error'') d"
  shows "triple (idle w\<^sub>0 d) (redirect_content w res) (closed w\<^sub>0 P)"
  unfolding redirect_content_def by (intro vcg internal_rule assms steady_bind [OF steady_log]) simp

lemma serve_content:
  assumes "env_ok" and "fresh w"
  shows "service (serveGetContent a w request uid) (content_served content_grants uid)"
  unfolding serveGetContent_def content_response_def rejected_content_def Let_def
  by (intro serviceI empty_body_rule vcg answer_rules redirect_rule service_bind [OF content [OF assms(1)]])
     (use assms(2) in \<open>auto simp: coded_def content_ok_def in_state_def intro!: bexI\<close>)

lemma served_well:
  "create_served g request x d \<Longrightarrow> well_served x d" "complete_served uid x d \<Longrightarrow> well_served x d"
  "get_served uid x d \<Longrightarrow> well_served x d" "content_served h uid x d \<Longrightarrow> well_served x d"
  by (cases x; simp)+

lemma check_dependency_rule:
  assumes "quiet probe (\<lambda>_. True)"
    and "\<And>ok. triple (idle w\<^sub>0 d) (f ok) Q"
  shows "triple (idle w\<^sub>0 d) (State_Monad.bind (check_dependency E dependency probe) f) Q"
  unfolding check_dependency_def
  by (simp only: State_Monad.bind_assoc if_distrib [of "\<lambda>m. State_Monad.bind m f"] State_Monad.bind_left_identity)
     (intro vcg quiet_bind [OF assms(1)] steady_bind [OF steady_log] assms(2); simp)

lemma serve_ready:
  assumes "fresh w" and "\<And>w' ok. answered w' \<Longrightarrow> rc_status w' = (if ok then 200 else 503) \<Longrightarrow>
      triple (idle w\<^sub>0 d) (f (w', ok)) Q"
  shows "triple (idle w\<^sub>0 d) (State_Monad.bind (serveReady E a w) f) Q"
  unfolding serveReady_def State_Monad.bind_assoc Let_def State_Monad.bind_left_identity
  by (intro check_dependency_rule probes assms(2)) (use assms(1) in auto)

lemma dispatch_well:
  assumes "env_ok" and "fresh w" and "db_inv d" and route: "applicationRoute path = (route, uid)"
  shows "triple (idle w\<^sub>0 d) (dispatch E a w request route uid) (closed w\<^sub>0 well_served)"
proof -
  have "route \<in> {'''', ''/livez'', ''/readyz'', ''/debug/vars'', ''/uploads'',
      ''/uploads/{upload_id}/complete'', ''/uploads/{upload_id}/content'', ''/uploads/{upload_id}''}"
    using route by (auto simp: applicationRoute_def operationalRoute_def Let_def split: if_splits)
  then show ?thesis
    unfolding dispatch_def serve_livez_def serve_vars_def
    by (intro vcg serve_ready service_tail(1) [OF serve_create [OF assms(1,2)]]
        service_tail(1) [OF serve_get [OF assms(1,2)]] service_tail(1) [OF serve_content [OF assms(1,2)]]
        triple_tail(1) [OF serve_complete [OF assms(1-3)]])
       (use assms(2) serve_vars_fresh in \<open>auto simp: coded_def intro: served_well\<close>)
qed

lemma serve_http:
  assumes "env_ok" and "db_inv d"
  shows "triple (idle w\<^sub>0 d) (ServeHTTP E a request) (closed w\<^sub>0 (\<lambda>w _. answered w))"
  unfolding ServeHTTP_def Let_def
  by (intro vcg triple_bind [OF dispatch_well [OF assms(1) fresh_recorder(1) assms(2)]]
      steady_bind [OF steady_log])
     (auto simp: request_attributes_def)

end

subsection \<open>The service's own operations\<close>

lemma answer_in_state: "answer_ok g c upload d \<Longrightarrow> in_state (up_UploadID upload) {up_State upload} d"
  by (auto simp: answer_ok_def in_state_def)

lemma service_get_in_state:
  assumes "peers_ok E"
  shows "service (getUploadByID E uid) (\<lambda>r d. \<forall>upload. r = Inr upload \<longrightarrow>
    up_UploadID upload = uid \<and> in_state uid {up_State upload} d)"
  by (rule service_mono [OF service_getUploadByID [OF assms]]) (auto dest: answer_in_state)

interpretation service_api: upload_operations "wired E stopping" "upload_granted E" "content_granted E" "peers_ok E"
  for E stopping
proof
  fix c uid and w\<^sub>0 d
  show "service (ap_createUpload (wired E stopping) c) (create_contract (upload_granted E) c)" if "peers_ok E"
    using put_signer.service_create [OF that] by (simp add: wired_def)
  show "triple (idle w\<^sub>0 d) (ap_completeUpload (wired E stopping) uid) (closed w\<^sub>0 (attempt_ok uid))"
    if "peers_ok E" "db_inv d"
    using completeUploadByID_triple [OF that] by (simp add: wired_def)
  show "service (ap_getUpload (wired E stopping) uid) (\<lambda>r d. \<forall>upload. r = Inr upload \<longrightarrow>
      up_UploadID upload = uid \<and> in_state uid {up_State upload} d)" if "peers_ok E"
    using service_get_in_state [OF that] by (simp add: wired_def)
  show "service (ap_getContent (wired E stopping) uid)
      (\<lambda>r d. \<forall>res. r = Inr res \<longrightarrow> content_ok (content_granted E) uid res d)" if "peers_ok E"
    using get_signer.service_content [OF that] by (simp add: wired_def)
  have "quiet (probe_with f) (\<lambda>_. True)" for f
    unfolding probe_with_def by (rule quiet_tick) simp
  then show "quiet (ap_postgresPing (wired E stopping)) (\<lambda>_. True)"
    "quiet (ap_s3HeadBucket (wired E stopping)) (\<lambda>_. True)"
    by (simp_all add: wired_def)
qed

end
