(* ===== verification/Claims.thy ===== *)
theory Claims
  imports Validate Expiry
begin

section \<open>Claims and the transactions of the finalizer\<close>

text \<open>
  Models the database half of \<^verbatim>\<open>reconcile.go\<close> and of the missing-object expiry in \<^verbatim>\<open>expiry.go\<close>:
  claiming and renewing a row, loading and registering candidates, the three terminal transitions,
  scheduling a retry, and the confirmation that follows each commit whose outcome is unknown.
\<close>

subsection \<open>Data\<close>

record finalizeClaim =
  fc_UploadID :: string
  fc_StagingKey :: string
  fc_DeclaredSize :: int
  fc_DeclaredContentType :: string
  fc_UploadDeadline :: time
  fc_MaxWriteExpiresAt :: time
  fc_Token :: string
  fc_ExpiresAt :: time
  fc_FailureStreak :: int

record retryUpdate =
  ru_FailureStreak :: int
  ru_Delay :: duration
  ru_NextAttemptAt :: time

definition claim_of_row :: "upload_row \<Rightarrow> string \<Rightarrow> time \<Rightarrow> finalizeClaim" where
  "claim_of_row u token expiresAt =
     \<lparr>fc_UploadID = u_upload_id u, fc_StagingKey = u_staging_key u, fc_DeclaredSize = u_declared_size u,
      fc_DeclaredContentType = u_declared_content_type u, fc_UploadDeadline = u_upload_deadline u,
      fc_MaxWriteExpiresAt = u_max_write_expires_at u, fc_Token = token, fc_ExpiresAt = expiresAt,
      fc_FailureStreak = u_failure_streak u\<rparr>"

text \<open>Scanning a null column into a Go \<^verbatim>\<open>time.Time\<close> or \<^verbatim>\<open>string\<close> is an error.\<close>

definition scan_null :: "'a option \<Rightarrow> go_error + 'a" where
  "scan_null x = (case x of None \<Rightarrow> Inl (errors_New (ErrText ''cannot scan NULL'')) | Some y \<Rightarrow> Inr y)"

text \<open>\<^verbatim>\<open>if errors.Is(err, pgx.ErrNoRows) { return ..., false, nil }\<close>.\<close>

definition row_or_absent :: "go_error + 'a \<Rightarrow> go_error + 'a option" where
  "row_or_absent r =
     (case r of
        Inl err \<Rightarrow> if errors_Is err ErrNoRows then Inr None else Inl err
      | Inr x \<Rightarrow> Inr (Some x))"

lemma row_or_absent_Some [simp]: "row_or_absent r = Inr (Some x) \<longleftrightarrow> r = Inr x"
  by (auto simp: row_or_absent_def split: sum.splits)

subsection \<open>Claiming\<close>

definition lock_next_finalizing :: "environment \<Rightarrow> nat \<Rightarrow> time \<Rightarrow> db \<Rightarrow> go_error + upload_row" where
  "lock_next_finalizing E k now d =
     (case next_finalizing (env_locked E k) now d of None \<Rightarrow> Inl errNoRows | Some u \<Rightarrow> Inr u)"

definition select_claim :: "string \<Rightarrow> string \<Rightarrow> time \<Rightarrow> db \<Rightarrow> go_error + finalizeClaim" where
  "select_claim uid token now d =
     (case find_claimed uid token d of
        None \<Rightarrow> Inl errNoRows
      | Some u \<Rightarrow>
          (case u_claim_expires_at u of
             None \<Rightarrow> Inl errNoRows
           | Some expiresAt \<Rightarrow>
               if now < expiresAt then Inr (claim_of_row u token expiresAt) else Inl errNoRows))"

definition confirmFinalizeClaim ::
  "environment \<Rightarrow> finalizeClaim \<Rightarrow> (world, go_error + finalizeClaim option) state" where
  "confirmFinalizeClaim E expected = do {
     row \<leftarrow> pool_query E (select_claim (fc_UploadID expected) (fc_Token expected));
     State_Monad.return (row_or_absent row) }"

definition claimNextFinalizing ::
  "environment \<Rightarrow> duration \<Rightarrow> (world, go_error + finalizeClaim option) state" where
  "claimNextFinalizing E lease = do {
     generated \<leftarrow> newUploadUUID E;
     case generated of
       Inl err \<Rightarrow> State_Monad.return (Inl err)
     | Inr token \<Rightarrow> deferring_rollback (do {
         began \<leftarrow> beginUploadTransaction E;
         case began of
           Inl err \<Rightarrow> State_Monad.return (Inl err)
         | Inr t0 \<Rightarrow> do {
             row \<leftarrow> query_sql E (lock_next_finalizing E) t0;
             case row of
               Inl err \<Rightarrow> State_Monad.return (if errors_Is err ErrNoRows then Inr None else Inl err)
             | Inr u \<Rightarrow> do {
                 clock \<leftarrow> select_clock E t0;
                 case clock of
                   Inl err \<Rightarrow> State_Monad.return (Inl err)
                 | Inr databaseNow \<Rightarrow> do {
                     let claim = claim_of_row u token (databaseNow + lease);
                     updated \<leftarrow> exec_sql E (\<lambda>_. sql_claim (fc_UploadID claim) (fc_Token claim)
                                   (fc_ExpiresAt claim)) t0;
                     case updated of
                       Inl err \<Rightarrow> State_Monad.return (Inl err)
                     | Inr (n, t1) \<Rightarrow>
                         (if n \<noteq> 1 then State_Monad.return (Inr None)
                          else do {
                            committed \<leftarrow> commit_tx E t1;
                            case committed of
                              None \<Rightarrow> State_Monad.return (Inr (Some claim))
                            | Some err \<Rightarrow> confirmFinalizeClaim E claim }) } } } }) }"

definition select_renewal :: "string \<Rightarrow> string \<Rightarrow> time \<Rightarrow> time \<Rightarrow> db \<Rightarrow> go_error + time" where
  "select_renewal uid token expectedExpiry now d =
     (case find_claimed uid token d of
        None \<Rightarrow> Inl errNoRows
      | Some u \<Rightarrow>
          (case u_claim_expires_at u of
             None \<Rightarrow> Inl errNoRows
           | Some expiresAt \<Rightarrow>
               if timestamptz expectedExpiry \<le> expiresAt \<and> now < expiresAt then Inr expiresAt
               else Inl errNoRows))"

definition confirmFinalizeRenewal ::
  "environment \<Rightarrow> finalizeClaim \<Rightarrow> time \<Rightarrow> (world, go_error + time option) state" where
  "confirmFinalizeRenewal E claim expectedExpiry = do {
     row \<leftarrow> pool_query E (select_renewal (fc_UploadID claim) (fc_Token claim) expectedExpiry);
     State_Monad.return (row_or_absent row) }"

definition lock_claim_expiry :: "string \<Rightarrow> string \<Rightarrow> nat \<Rightarrow> time \<Rightarrow> db \<Rightarrow> go_error + time" where
  "lock_claim_expiry uid token k now d =
     (case find_claimed uid token d of None \<Rightarrow> Inl errNoRows | Some u \<Rightarrow> scan_null (u_claim_expires_at u))"

text \<open>The claim is passed by reference: the result carries its new value.\<close>

definition renewFinalizeClaim ::
  "environment \<Rightarrow> finalizeClaim \<Rightarrow> duration \<Rightarrow> (world, finalizeClaim \<times> (go_error + bool)) state" where
  "renewFinalizeClaim E claim lease = deferring_rollback (do {
     began \<leftarrow> beginUploadTransaction E;
     case began of
       Inl err \<Rightarrow> State_Monad.return (claim, Inl err)
     | Inr t0 \<Rightarrow> do {
         row \<leftarrow> query_sql E (lock_claim_expiry (fc_UploadID claim) (fc_Token claim)) t0;
         case row of
           Inl err \<Rightarrow> State_Monad.return (claim, if errors_Is err ErrNoRows then Inr False else Inl err)
         | Inr currentExpiry \<Rightarrow> do {
             clock \<leftarrow> select_clock E t0;
             case clock of
               Inl err \<Rightarrow> State_Monad.return (claim, Inl err)
             | Inr databaseNow \<Rightarrow>
                 (if \<not> databaseNow < currentExpiry then State_Monad.return (claim, Inr False)
                  else do {
                    let nextExpiry = databaseNow + lease;
                    updated \<leftarrow> exec_sql E (\<lambda>_. sql_renew (fc_UploadID claim) (fc_Token claim) nextExpiry) t0;
                    case updated of
                      Inl err \<Rightarrow> State_Monad.return (claim, Inl err)
                    | Inr (n, t1) \<Rightarrow>
                        (if n \<noteq> 1 then State_Monad.return (claim, Inr False)
                         else do {
                           committed \<leftarrow> commit_tx E t1;
                           case committed of
                             None \<Rightarrow> State_Monad.return (claim\<lparr>fc_ExpiresAt := nextExpiry\<rparr>, Inr True)
                           | Some err \<Rightarrow> do {
                               confirmed \<leftarrow> confirmFinalizeRenewal E claim nextExpiry;
                               State_Monad.return (case confirmed of
                                 Inl confirmErr \<Rightarrow> (claim, Inl confirmErr)
                               | Inr None \<Rightarrow> (claim, Inr False)
                               | Inr (Some storedExpiry) \<Rightarrow>
                                   (claim\<lparr>fc_ExpiresAt := storedExpiry\<rparr>, Inr True)) } }) }) } } })"

subsection \<open>The parent row and its candidates\<close>

definition lock_parent_row :: "string \<Rightarrow> string \<Rightarrow> nat \<Rightarrow> time \<Rightarrow> db \<Rightarrow> go_error + upload_row \<times> time" where
  "lock_parent_row uid token k now d =
     (case find_claimed uid token d of
        None \<Rightarrow> Inl errNoRows | Some u \<Rightarrow> map_sum id (Pair u) (scan_null (u_claim_expires_at u)))"

text \<open>\<open>None\<close> when the claim is lost or its lease has run out.\<close>

definition lockFinalizeParent ::
  "environment \<Rightarrow> finalizeClaim \<Rightarrow> db \<Rightarrow> (world, go_error + lockedFinalizeUpload option) state" where
  "lockFinalizeParent E claim t = do {
     row \<leftarrow> query_sql E (lock_parent_row (fc_UploadID claim) (fc_Token claim)) t;
     case row of
       Inl err \<Rightarrow> State_Monad.return (if errors_Is err ErrNoRows then Inr None else Inl err)
     | Inr (u, claimExpiresAt) \<Rightarrow> do {
         clock \<leftarrow> select_clock E t;
         State_Monad.return (case clock of
           Inl err \<Rightarrow> Inl err
         | Inr databaseNow \<Rightarrow>
             if \<not> databaseNow < claimExpiresAt then Inr None else Inr (Some (parent_of u databaseNow))) } }"

definition select_candidates :: "string \<Rightarrow> nat \<Rightarrow> time \<Rightarrow> db \<Rightarrow> go_error + trackedCandidate list" where
  "select_candidates uid k now d = scanTrackedCandidates (candidates_of uid d)"

definition lockAllCandidates ::
  "environment \<Rightarrow> string \<Rightarrow> db \<Rightarrow> (world, go_error + trackedCandidate list) state" where
  "lockAllCandidates E uid t = query_sql E (select_candidates uid) t"

definition select_claimed_candidates ::
  "string \<Rightarrow> string \<Rightarrow> time \<Rightarrow> db \<Rightarrow> go_error + trackedCandidate list" where
  "select_claimed_candidates uid token now d =
     (case find_claimed uid token d of
        None \<Rightarrow> Inr []
      | Some u \<Rightarrow> if after_now (u_claim_expires_at u) now
                  then scanTrackedCandidates (candidates_of uid d) else Inr [])"

definition loadTrackedCandidates ::
  "environment \<Rightarrow> finalizeClaim \<Rightarrow> (world, go_error + trackedCandidate list) state" where
  "loadTrackedCandidates E claim = pool_query E (select_claimed_candidates (fc_UploadID claim) (fc_Token claim))"

subsection \<open>Registering a candidate\<close>

definition new_candidate_row :: "string \<Rightarrow> trackedCandidate \<Rightarrow> time \<Rightarrow> candidate_row" where
  "new_candidate_row uid c now =
     \<lparr>c_upload_id = uid, c_sha256 = tc_SHA256 c, c_object_key = tc_ObjectKey c,
      c_encoded_size = tc_EncodedSize c, c_policy_version = tc_ValidationPolicyVersion c,
      c_image_format = tc_Format c, c_width = tc_Width c, c_height = tc_Height c, c_registered_at = now\<rparr>"

definition sql_register :: "string \<Rightarrow> trackedCandidate \<Rightarrow> time \<Rightarrow> db \<Rightarrow> go_error + nat \<times> db" where
  "sql_register uid c now = insert_candidate (new_candidate_row uid c now)"

definition select_candidate :: "string \<Rightarrow> byte list \<Rightarrow> db \<Rightarrow> go_error + trackedCandidate" where
  "select_candidate uid sha d =
     (case find_candidate uid sha d of None \<Rightarrow> Inl errNoRows | Some row \<Rightarrow> scanTrackedCandidate row)"

text \<open>The closure's captured variables are \<open>active\<close> and \<open>mismatch\<close>.\<close>

definition register_body ::
  "environment \<Rightarrow> finalizeClaim \<Rightarrow> trackedCandidate \<Rightarrow> bool \<times> bool \<Rightarrow> db
     \<Rightarrow> (world, (bool \<times> bool) \<times> (go_error + bool \<times> db)) state" where
  "register_body E claim candidate v t = do {
     locked \<leftarrow> lockFinalizeParent E claim t;
     case locked of
       Inl err \<Rightarrow> State_Monad.return ((False, False), Inl err)
     | Inr parent \<Rightarrow>
         (case parent of
            None \<Rightarrow> State_Monad.return ((False, False), Inr (False, t))
          | Some _ \<Rightarrow> do {
              inserted \<leftarrow> exec_sql E (sql_register (fc_UploadID claim) candidate) t;
              case inserted of
                Inl err \<Rightarrow> State_Monad.return ((True, False), Inl err)
              | Inr (_, t1) \<Rightarrow> do {
                  row \<leftarrow> query_sql E (\<lambda>_ _. select_candidate (fc_UploadID claim) (tc_SHA256 candidate)) t1;
                  case row of
                    Inl err \<Rightarrow> State_Monad.return ((True, False), Inl err)
                  | Inr stored \<Rightarrow>
                      (let mismatch = \<not> sameCandidate stored candidate
                       in State_Monad.return ((True, mismatch), Inr (\<not> mismatch, t1))) } }) }"

definition candidateTracked ::
  "environment \<Rightarrow> string \<Rightarrow> trackedCandidate \<Rightarrow> (world, go_error + bool) state" where
  "candidateTracked E uid expected = do {
     row \<leftarrow> pool_query E (\<lambda>_. select_candidate uid (tc_SHA256 expected));
     State_Monad.return (case row of
       Inl err \<Rightarrow> if errors_Is err ErrNoRows then Inr False else Inl err
     | Inr stored \<Rightarrow> Inr (sameCandidate stored expected)) }"

text \<open>The result is (active, mismatch).\<close>

definition registerCandidate ::
  "environment \<Rightarrow> finalizeClaim \<Rightarrow> trackedCandidate \<Rightarrow> (world, go_error + bool \<times> bool) state" where
  "registerCandidate E claim candidate = do {
     ((active, mismatch), committed, outcomeUnknown, err) \<leftarrow>
       retryUploadTransaction E (register_body E claim candidate) (False, False);
     (if outcomeUnknown then do {
        exact \<leftarrow> candidateTracked E (fc_UploadID claim) candidate;
        State_Monad.return (case exact of
          Inl confirmErr \<Rightarrow> Inl confirmErr
        | Inr ok \<Rightarrow> if \<not> ok then Inl errCandidateRegistrationOutcomeUnknown else Inr (True, False)) }
      else State_Monad.return (case err of
        Some e \<Rightarrow> Inl e
      | None \<Rightarrow> if mismatch then Inr (True, True) else Inr (active \<and> committed, False))) }"

subsection \<open>Terminal transitions\<close>

definition terminal_update :: "go_error + nat \<times> db \<Rightarrow> go_error + bool \<times> db" where
  "terminal_update updated =
     (case updated of Inl err \<Rightarrow> Inl err | Inr (n, t) \<Rightarrow> Inr (n = 1, t))"

text \<open>The closure of \<^verbatim>\<open>transitionFinalizeReady\<close>; it captures nothing.\<close>

definition ready_body ::
  "environment \<Rightarrow> finalizeClaim \<Rightarrow> trackedCandidate \<Rightarrow> unit \<Rightarrow> db
     \<Rightarrow> (world, unit \<times> (go_error + bool \<times> db)) state" where
  "ready_body E claim selected v t = do {
     locked \<leftarrow> lockFinalizeParent E claim t;
     case locked of
       Inl err \<Rightarrow> State_Monad.return ((), Inl err)
     | Inr active \<Rightarrow>
         (case active of
            None \<Rightarrow> State_Monad.return ((), Inr (False, t))
          | Some parent \<Rightarrow> do {
              rows \<leftarrow> lockAllCandidates E (fc_UploadID claim) t;
              case rows of
                Inl err \<Rightarrow> State_Monad.return ((), Inl err)
              | Inr cands \<Rightarrow>
                  (if \<not> list_ex (\<lambda>c. sameCandidate c selected) cands
                   then State_Monad.return ((), Inl (errors_New (ErrText ''selected candidate is not tracked'')))
                   else do {
                     tombstoned \<leftarrow> query_sql E
                       (\<lambda>_ _ d. Inr (find_tombstone (tc_ObjectKey selected) d \<noteq> None)) t;
                     case tombstoned of
                       Inl err \<Rightarrow> State_Monad.return ((), Inl err)
                     | Inr selectedTombstoned \<Rightarrow>
                         (if selectedTombstoned
                          then State_Monad.return ((), Inl (errors_New (ErrText ''selected candidate is tombstoned'')))
                          else do {
                            recorded \<leftarrow> ensureTombstones E (fc_UploadID claim)
                              (terminalTombstones parent cands (tc_ObjectKey selected)) t;
                            case recorded of
                              Inl err \<Rightarrow> State_Monad.return ((), Inl err)
                            | Inr t1 \<Rightarrow> do {
                                updated \<leftarrow> exec_sql E (\<lambda>_. sql_ready (fc_UploadID claim) (fc_Token claim)
                                  (lf_DatabaseNow parent) (tc_ObjectKey selected)) t1;
                                State_Monad.return ((), terminal_update updated) } }) }) }) }"

definition select_final_key :: "string \<Rightarrow> time \<Rightarrow> db \<Rightarrow> go_error + string" where
  "select_final_key uid now d =
     (case find (\<lambda>u. u_upload_id u = uid \<and> u_state u = Ready) (uploads d) of
        None \<Rightarrow> Inl errNoRows | Some u \<Rightarrow> scan_null (u_final_key u))"

definition confirmReady :: "environment \<Rightarrow> string \<Rightarrow> string \<Rightarrow> (world, go_error + bool) state" where
  "confirmReady E uid finalKey = do {
     row \<leftarrow> pool_query E (select_final_key uid);
     State_Monad.return (confirmed_or_absent (map_sum id (\<lambda>storedKey. storedKey = finalKey) row)) }"

definition select_rejection_reason :: "string \<Rightarrow> time \<Rightarrow> db \<Rightarrow> go_error + string" where
  "select_rejection_reason uid now d =
     (case find (\<lambda>u. u_upload_id u = uid \<and> u_state u = Rejected) (uploads d) of
        None \<Rightarrow> Inl errNoRows | Some u \<Rightarrow> scan_null (u_rejection_reason u))"

definition confirmRejected :: "environment \<Rightarrow> string \<Rightarrow> string \<Rightarrow> (world, go_error + bool) state" where
  "confirmRejected E uid reason = do {
     row \<leftarrow> pool_query E (select_rejection_reason uid);
     State_Monad.return (confirmed_or_absent (map_sum id (\<lambda>storedReason. storedReason = reason) row)) }"

definition resolveTerminalCommit :: "go_error option \<Rightarrow> go_error + bool \<Rightarrow> go_error + bool" where
  "resolveTerminalCommit commitErr confirmed =
     (case confirmed of
        Inl confirmErr \<Rightarrow> Inl confirmErr
      | Inr ok \<Rightarrow> if ok then Inr True
                 else (case commitErr of None \<Rightarrow> Inr False | Some err \<Rightarrow> Inl err))"

definition commit_result :: "bool \<Rightarrow> go_error option \<Rightarrow> go_error + bool" where
  "commit_result committed err = (case err of None \<Rightarrow> Inr committed | Some e \<Rightarrow> Inl e)"

definition transitionFinalizeReady ::
  "environment \<Rightarrow> finalizeClaim \<Rightarrow> trackedCandidate \<Rightarrow> (world, go_error + bool) state" where
  "transitionFinalizeReady E claim selected = do {
     (_, committed, outcomeUnknown, err) \<leftarrow>
       retryUploadTransaction E (ready_body E claim selected) ();
     (if outcomeUnknown then do {
        confirmed \<leftarrow> confirmReady E (fc_UploadID claim) (tc_ObjectKey selected);
        State_Monad.return (resolveTerminalCommit err confirmed) }
      else State_Monad.return (commit_result committed err)) }"

definition rejected_body ::
  "environment \<Rightarrow> finalizeClaim \<Rightarrow> validationFailure \<Rightarrow> unit \<Rightarrow> db
     \<Rightarrow> (world, unit \<times> (go_error + bool \<times> db)) state" where
  "rejected_body E claim failure v t = do {
     locked \<leftarrow> lockFinalizeParent E claim t;
     case locked of
       Inl err \<Rightarrow> State_Monad.return ((), Inl err)
     | Inr active \<Rightarrow>
         (case active of
            None \<Rightarrow> State_Monad.return ((), Inr (False, t))
          | Some parent \<Rightarrow> do {
              rows \<leftarrow> lockAllCandidates E (fc_UploadID claim) t;
              case rows of
                Inl err \<Rightarrow> State_Monad.return ((), Inl err)
              | Inr cands \<Rightarrow> do {
                  recorded \<leftarrow> ensureTombstones E (fc_UploadID claim) (terminalTombstones parent cands '''') t;
                  case recorded of
                    Inl err \<Rightarrow> State_Monad.return ((), Inl err)
                  | Inr t1 \<Rightarrow> do {
                      updated \<leftarrow> exec_sql E (\<lambda>_. sql_rejected (fc_UploadID claim) (fc_Token claim)
                        (lf_DatabaseNow parent) (vf_Class failure) (vf_Reason failure) (vf_Phase failure)
                        (vf_Evidence failure)) t1;
                      State_Monad.return ((), terminal_update updated) } } }) }"

definition transitionFinalizeRejected ::
  "environment \<Rightarrow> finalizeClaim \<Rightarrow> validationFailure \<Rightarrow> (world, go_error + bool) state" where
  "transitionFinalizeRejected E claim failure =
     (if vf_Evidence failure = []
      then State_Monad.return (Inl (errors_New (ErrText ''invalid rejection evidence'')))
      else do {
        (_, committed, outcomeUnknown, err) \<leftarrow>
          retryUploadTransaction E (rejected_body E claim failure) ();
        (if outcomeUnknown then do {
           confirmed \<leftarrow> confirmRejected E (fc_UploadID claim) (vf_Reason failure);
           State_Monad.return (resolveTerminalCommit err confirmed) }
         else State_Monad.return (commit_result committed err)) })"

subsection \<open>Expiry of a missing object\<close>

definition prepareMissingObservation ::
  "environment \<Rightarrow> finalizeClaim \<Rightarrow> (world, go_error + (time \<times> bool) option) state" where
  "prepareMissingObservation E claim = deferring_rollback (do {
     began \<leftarrow> beginUploadTransaction E;
     case began of
       Inl err \<Rightarrow> State_Monad.return (Inl err)
     | Inr t0 \<Rightarrow> do {
         locked \<leftarrow> lockFinalizeParent E claim t0;
         State_Monad.return (map_sum id (map_option (\<lambda>parent.
           (lf_MaxWriteExpiresAt parent,
            \<not> lf_DatabaseNow parent < lf_UploadDeadline parent \<and>
            \<not> lf_DatabaseNow parent < lf_MaxWriteExpiresAt parent))) locked) } })"

fun sameCandidateList :: "trackedCandidate list \<Rightarrow> trackedCandidate list \<Rightarrow> bool" where
  "sameCandidateList [] [] = True"
| "sameCandidateList (l # left) (r # right) = (sameCandidate l r \<and> sameCandidateList left right)"
| "sameCandidateList _ _ = False"

definition missing_body ::
  "environment \<Rightarrow> finalizeClaim \<Rightarrow> time \<Rightarrow> trackedCandidate list \<Rightarrow> unit \<Rightarrow> db
     \<Rightarrow> (world, unit \<times> (go_error + bool \<times> db)) state" where
  "missing_body E claim observedHorizon observedCandidates v t = do {
     locked \<leftarrow> lockFinalizeParent E claim t;
     case locked of
       Inl err \<Rightarrow> State_Monad.return ((), Inl err)
     | Inr active \<Rightarrow>
         (case active of
            None \<Rightarrow> State_Monad.return ((), Inr (False, t))
          | Some parent \<Rightarrow>
              (if lf_MaxWriteExpiresAt parent \<noteq> observedHorizon \<or>
                  lf_DatabaseNow parent < lf_UploadDeadline parent \<or>
                  lf_DatabaseNow parent < lf_MaxWriteExpiresAt parent
               then State_Monad.return ((), Inr (False, t))
               else do {
                 rows \<leftarrow> lockAllCandidates E (fc_UploadID claim) t;
                 case rows of
                   Inl err \<Rightarrow> State_Monad.return ((), Inl err)
                 | Inr cands \<Rightarrow>
                     (if \<not> sameCandidateList cands observedCandidates
                      then State_Monad.return ((), Inr (False, t))
                      else do {
                        recorded \<leftarrow> ensureTombstones E (fc_UploadID claim)
                          (terminalTombstones parent cands '''') t;
                        case recorded of
                          Inl err \<Rightarrow> State_Monad.return ((), Inl err)
                        | Inr t1 \<Rightarrow> do {
                            updated \<leftarrow> exec_sql E (\<lambda>_. sql_expire_missing (fc_UploadID claim) (fc_Token claim)
                              (lf_DatabaseNow parent) observedHorizon) t1;
                            State_Monad.return ((), terminal_update updated) } }) })) }"

definition missing_confirmed :: "time \<Rightarrow> nat \<Rightarrow> upload_row \<Rightarrow> db \<Rightarrow> bool" where
  "missing_confirmed horizon count u d =
     (u_state u = Expired \<and> u_expiry_reason u = Some ''staging_missing_after_write_window'' \<and>
      u_completion_requested_at u \<noteq> None \<and> u_max_write_expires_at u = timestamptz horizon \<and>
      (case u_terminal_at u of None \<Rightarrow> False
       | Some t \<Rightarrow> max (u_upload_deadline u) (u_max_write_expires_at u) \<le> t) \<and>
      length (candidates_of (u_upload_id u) d) = count \<and>
      list_ex (\<lambda>t. t_upload_id t = u_upload_id u \<and> t_object_key t = u_staging_key u \<and>
                   t_candidate_sha256 t = None \<and> t_delete_not_before t = timestamptz horizon)
        (tombstones d) \<and>
      list_all (\<lambda>c. list_ex (\<lambda>t. t_object_key t = c_object_key c \<and> t_upload_id t = c_upload_id c \<and>
                                t_candidate_sha256 t = Some (c_sha256 c)) (tombstones d))
        (candidates_of (u_upload_id u) d))"

definition select_missing :: "string \<Rightarrow> time \<Rightarrow> nat \<Rightarrow> time \<Rightarrow> db \<Rightarrow> go_error + bool" where
  "select_missing uid horizon count now d =
     (case find_upload_by_id uid d of
        None \<Rightarrow> Inl errNoRows | Some u \<Rightarrow> Inr (missing_confirmed horizon count u d))"

definition confirmFinalizeExpiredMissing ::
  "environment \<Rightarrow> string \<Rightarrow> time \<Rightarrow> nat \<Rightarrow> (world, go_error + bool) state" where
  "confirmFinalizeExpiredMissing E uid expectedHorizon expectedCandidates = do {
     row \<leftarrow> pool_query E (select_missing uid expectedHorizon expectedCandidates);
     State_Monad.return (confirmed_or_absent row) }"

definition transitionFinalizeExpiredMissing ::
  "environment \<Rightarrow> finalizeClaim \<Rightarrow> time \<Rightarrow> trackedCandidate list \<Rightarrow> (world, go_error + bool) state" where
  "transitionFinalizeExpiredMissing E claim observedHorizon observedCandidates = do {
     (_, committed, outcomeUnknown, err) \<leftarrow>
       retryUploadTransaction E (missing_body E claim observedHorizon observedCandidates) ();
     (if outcomeUnknown
      then confirmFinalizeExpiredMissing E (fc_UploadID claim) observedHorizon (length observedCandidates)
      else State_Monad.return (commit_result committed err)) }"

subsection \<open>Retries\<close>

definition retry_confirmed :: "retryUpdate \<Rightarrow> string \<Rightarrow> upload_row \<Rightarrow> go_error + bool" where
  "retry_confirmed expected errorClass u =
     (case (u_last_failure_class u, u_reconcile_after u) of
        (Some storedClass, Some nextAttempt) \<Rightarrow>
          Inr (u_failure_streak u = ru_FailureStreak expected \<and> storedClass = errorClass \<and>
               nextAttempt = ru_NextAttemptAt expected \<and> u_claim_token u = None)
      | _ \<Rightarrow> Inl (errors_New (ErrText ''cannot scan NULL'')))"

definition select_retry :: "string \<Rightarrow> retryUpdate \<Rightarrow> string \<Rightarrow> time \<Rightarrow> db \<Rightarrow> go_error + bool" where
  "select_retry uid expected errorClass now d =
     (case find (\<lambda>u. u_upload_id u = uid \<and> u_state u = Finalizing) (uploads d) of
        None \<Rightarrow> Inl errNoRows | Some u \<Rightarrow> retry_confirmed expected errorClass u)"

definition confirmRetry ::
  "environment \<Rightarrow> string \<Rightarrow> retryUpdate \<Rightarrow> string \<Rightarrow> (world, go_error + bool) state" where
  "confirmRetry E uid expected errorClass = do {
     row \<leftarrow> pool_query E (select_retry uid expected errorClass);
     State_Monad.return (confirmed_or_absent row) }"

text \<open>\<open>Some\<close> update when it was applied.\<close>

definition scheduleFinalizeRetry ::
  "environment \<Rightarrow> finalizeClaim \<Rightarrow> string \<Rightarrow> (world, go_error + retryUpdate option) state" where
  "scheduleFinalizeRetry E claim errorClass = deferring_rollback (do {
     began \<leftarrow> beginUploadTransaction E;
     case began of
       Inl err \<Rightarrow> State_Monad.return (Inl err)
     | Inr t0 \<Rightarrow> do {
         locked \<leftarrow> lockFinalizeParent E claim t0;
         case locked of
           Inl err \<Rightarrow> State_Monad.return (Inl err)
         | Inr active \<Rightarrow>
             (case active of
                None \<Rightarrow> State_Monad.return (Inr None)
              | Some parent \<Rightarrow> do {
                  let streak = lf_FailureStreak parent + 1;
                  let delay = finalizerRetryDelay streak errorClass;
                  let nextAttempt = lf_DatabaseNow parent + delay;
                  updated \<leftarrow> exec_sql E (\<lambda>_. sql_retry (fc_UploadID claim) (fc_Token claim) nextAttempt
                    streak errorClass (lf_DatabaseNow parent)) t0;
                  case updated of
                    Inl err \<Rightarrow> State_Monad.return (Inl err)
                  | Inr (n, t1) \<Rightarrow>
                      (if n \<noteq> 1 then State_Monad.return (Inr None)
                       else do {
                         let upd = \<lparr>ru_FailureStreak = streak, ru_Delay = delay,
                                    ru_NextAttemptAt = nextAttempt\<rparr>;
                         committed \<leftarrow> commit_tx E t1;
                         case committed of
                           None \<Rightarrow> State_Monad.return (Inr (Some upd))
                         | Some err \<Rightarrow> do {
                             confirmed \<leftarrow> confirmRetry E (fc_UploadID claim) upd errorClass;
                             State_Monad.return (map_sum id (\<lambda>ok. if ok then Some upd else None)
                               confirmed) } }) }) } })"

subsection \<open>What each transition leaves behind\<close>

definition claim_held :: "finalizeClaim \<Rightarrow> db \<Rightarrow> bool" where
  "claim_held claim d =
     (\<exists>u\<in>set (uploads d). u_upload_id u = fc_UploadID claim \<and> u_state u = Finalizing \<and>
        u_claim_token u = Some (fc_Token claim) \<and>
        (\<exists>e. u_claim_expires_at u = Some e \<and> timestamptz e = timestamptz (fc_ExpiresAt claim)))"

definition published :: "string \<Rightarrow> string \<Rightarrow> db \<Rightarrow> bool" where
  "published uid key d =
     (\<exists>u\<in>set (uploads d). u_upload_id u = uid \<and> u_state u = Ready \<and> u_final_key u = Some key)"

definition refused :: "string \<Rightarrow> string \<Rightarrow> db \<Rightarrow> bool" where
  "refused uid reason d =
     (\<exists>u\<in>set (uploads d). u_upload_id u = uid \<and> u_state u = Rejected \<and> u_rejection_reason u = Some reason)"

definition missing_expired :: "string \<Rightarrow> time \<Rightarrow> db \<Rightarrow> bool" where
  "missing_expired uid horizon d =
     (\<exists>u\<in>set (uploads d). u_upload_id u = uid \<and> u_state u = Expired \<and>
        u_expiry_reason u = Some ''staging_missing_after_write_window'' \<and>
        u_max_write_expires_at u = timestamptz horizon \<and>
        (\<exists>t. u_terminal_at u = Some t \<and> u_upload_deadline u \<le> t \<and> u_max_write_expires_at u \<le> t))"

definition retry_scheduled :: "string \<Rightarrow> retryUpdate \<Rightarrow> string \<Rightarrow> db \<Rightarrow> bool" where
  "retry_scheduled uid upd errorClass d =
     (\<exists>u\<in>set (uploads d). u_upload_id u = uid \<and> u_state u = Finalizing \<and> u_claim_token u = None \<and>
        u_failure_streak u = ru_FailureStreak upd \<and> u_last_failure_class u = Some errorClass \<and>
        u_reconcile_after u = Some (ru_NextAttemptAt upd))"

definition candidate_stored :: "string \<Rightarrow> trackedCandidate \<Rightarrow> db \<Rightarrow> bool" where
  "candidate_stored uid c d =
     (\<exists>row\<in>set (candidates d). c_upload_id row = uid \<and> candidate_of_row row = c)"

lemma update_uploads_one:
  assumes "update_uploads p f d = Inr (Suc 0, d')"
  obtains u where "u \<in> set (uploads d)" and "p u" and "f u \<in> set (uploads d')" and "upload_ok (f u)"
proof -
  have "length (filter p (uploads d)) = Suc 0"
    using update_uploads_Inr(1) [OF assms] by simp
  then obtain u where "u \<in> set (filter p (uploads d))"
    by (cases "filter p (uploads d)") auto
  then have u: "u \<in> set (uploads d)" "p u" by auto
  then have "f u \<in> set (uploads d')"
    using update_uploads_Inr(2) [OF assms] by (auto simp: image_iff intro!: bexI [of _ u])
  with u update_uploads_Inr(3) [OF assms] show thesis by (blast intro: that)
qed

lemma update_uploads_ex:
  assumes "update_uploads p f d = Inr (Suc 0, d')"
    and "\<And>u. u \<in> set (uploads d) \<Longrightarrow> p u \<Longrightarrow> upload_ok (f u) \<Longrightarrow> Q (f u)"
  shows "\<exists>u\<in>set (uploads d'). Q u"
  by (rule update_uploads_one [OF assms(1)]) (blast intro: assms(2))

text \<open>The parent a transaction has locked.\<close>

definition claimed_parent :: "finalizeClaim \<Rightarrow> db \<Rightarrow> lockedFinalizeUpload \<Rightarrow> bool" where
  "claimed_parent claim t p =
     (\<exists>u. find_claimed (fc_UploadID claim) (fc_Token claim) t = Some u \<and>
        after_now (u_claim_expires_at u) (lf_DatabaseNow p) \<and> p = parent_of u (lf_DatabaseNow p) \<and>
        timestamptz (lf_DatabaseNow p) = lf_DatabaseNow p)"

lemma lock_parent_row_Inr:
  "lock_parent_row uid token k now t = Inr (u, expiresAt) \<Longrightarrow>
     find_claimed uid token t = Some u \<and> u_claim_expires_at u = Some expiresAt"
  by (auto simp: lock_parent_row_def scan_null_def split: option.splits)

lemma parent_of_simps [simp]:
  "lf_DatabaseNow (parent_of u now) = now"
  "lf_UploadDeadline (parent_of u now) = u_upload_deadline u"
  "lf_MaxWriteExpiresAt (parent_of u now) = u_max_write_expires_at u"
  "lf_StagingKey (parent_of u now) = u_staging_key u"
  "lf_FailureStreak (parent_of u now) = u_failure_streak u"
  by (simp_all add: parent_of_def)

lemma quiet_lockFinalizeParent:
  "quiet (lockFinalizeParent E claim t) (\<lambda>r. \<forall>p. r = Inr (Some p) \<longrightarrow> claimed_parent claim t p)"
  unfolding lockFinalizeParent_def
  by (intro vcg quiet_bind [OF quiet_clock])
     (auto simp: claimed_parent_def after_now_def dest!: lock_parent_row_Inr split: sum.splits)

lemma lock_parent_rule [vcg]:
  assumes "readable pre"
    and "\<And>r. (\<And>p. r = Inr (Some p) \<Longrightarrow> claimed_parent claim t p) \<Longrightarrow> triple pre (f r) Q"
  shows "triple pre (State_Monad.bind (lockFinalizeParent E claim t) f) Q"
  by (rule quiet_bind [OF quiet_lockFinalizeParent assms(1)]) (simp add: assms(2))

lemma lock_candidates_rule [vcg]:
  assumes "readable pre" and "\<And>err. triple pre (A err) Q"
    and "triple pre (B (map candidate_of_row (candidates_of uid t))) Q"
  shows "triple pre (State_Monad.bind (lockAllCandidates E uid t) (case_sum A B)) Q"
  unfolding lockAllCandidates_def
  by (rule query_rule [OF assms(1,2)])
     (use assms(3) scanTrackedCandidates_Inr in \<open>auto simp: select_candidates_def\<close>)

lemma terminal_targets_locked:
  assumes "find_claimed uid token t = Some u" and "p = parent_of u now"
  shows "terminalTombstones p (map candidate_of_row (candidates_of uid t)) key = terminal_targets u now t key"
  using find_claimed_SomeD [OF assms(1)] by (simp add: terminal_targets_def assms(2))

lemma claimed_parentE:
  assumes "claimed_parent claim t p"
  obtains u where "find_claimed (fc_UploadID claim) (fc_Token claim) t = Some u"
    "after_now (u_claim_expires_at u) (lf_DatabaseNow p)" "p = parent_of u (lf_DatabaseNow p)"
    "\<forall>key. terminalTombstones p (map candidate_of_row (candidates_of (fc_UploadID claim) t)) key
       = terminal_targets u (lf_DatabaseNow p) t key"
proof -
  from assms obtain u where u: "find_claimed (fc_UploadID claim) (fc_Token claim) t = Some u"
    "after_now (u_claim_expires_at u) (lf_DatabaseNow p)" "p = parent_of u (lf_DatabaseNow p)"
    unfolding claimed_parent_def by blast
  show thesis
    by (rule that [OF u]) (simp add: terminal_targets_locked [OF u(1,3)])
qed

lemma ready_step:
  assumes "claimed_parent claim t p"
    and sel: "list_ex (\<lambda>c. c = selected) (map candidate_of_row (candidates_of (fc_UploadID claim) t))"
    and free: "find_tombstone (tc_ObjectKey selected) t = None"
    and ens: "ensured (fc_UploadID claim) (terminalTombstones p
        (map candidate_of_row (candidates_of (fc_UploadID claim) t)) (tc_ObjectKey selected)) t t1"
    and upd: "sql_ready (fc_UploadID claim) (fc_Token claim) (lf_DatabaseNow p) (tc_ObjectKey selected) t1
      = Inr (Suc 0, t')"
  shows "db_steps t t' \<and> published (fc_UploadID claim) (tc_ObjectKey selected) t'"
proof -
  from assms(1) obtain u where u: "find_claimed (fc_UploadID claim) (fc_Token claim) t = Some u"
    "after_now (u_claim_expires_at u) (lf_DatabaseNow p)" "p = parent_of u (lf_DatabaseNow p)"
    and targets: "\<forall>key. terminalTombstones p (map candidate_of_row (candidates_of (fc_UploadID claim) t)) key
       = terminal_targets u (lf_DatabaseNow p) t key"
    by (rule claimed_parentE)
  from sel obtain row where row: "row \<in> set (candidates_of (fc_UploadID claim) t)"
    "selected = candidate_of_row row"
    by (auto simp: list_ex_iff)
  then have key: "c_object_key row = tc_ObjectKey selected" by (simp add: candidate_of_row_def)
  have "db_step t t'"
    using step_ready [OF u(1,2) row(1), unfolded key, OF free ens [unfolded targets [rule_format]] upd [folded One_nat_def]] .
  moreover from upd [unfolded sql_ready_def] have "published (fc_UploadID claim) (tc_ObjectKey selected) t'"
    unfolding published_def by (rule update_uploads_ex) (simp add: settle_def)
  ultimately show ?thesis by blast
qed

lemma rejected_step:
  assumes "claimed_parent claim t p"
    and ens: "ensured (fc_UploadID claim) (terminalTombstones p
        (map candidate_of_row (candidates_of (fc_UploadID claim) t)) '''') t t1"
    and upd: "sql_rejected (fc_UploadID claim) (fc_Token claim) (lf_DatabaseNow p) cls reason phase ev t1
      = Inr (Suc 0, t')"
  shows "db_steps t t' \<and> refused (fc_UploadID claim) reason t'"
proof -
  from assms(1) obtain u where u: "find_claimed (fc_UploadID claim) (fc_Token claim) t = Some u"
    "after_now (u_claim_expires_at u) (lf_DatabaseNow p)" "p = parent_of u (lf_DatabaseNow p)"
    and targets: "\<forall>key. terminalTombstones p (map candidate_of_row (candidates_of (fc_UploadID claim) t)) key
       = terminal_targets u (lf_DatabaseNow p) t key"
    by (rule claimed_parentE)
  have "db_step t t'"
    using step_rejected [OF u(1,2) ens [unfolded targets [rule_format]] upd [folded One_nat_def]] .
  moreover from upd [unfolded sql_rejected_def] have "refused (fc_UploadID claim) reason t'"
    unfolding refused_def by (rule update_uploads_ex) (simp add: settle_def)
  ultimately show ?thesis by blast
qed

lemma missing_step:
  assumes "claimed_parent claim t p" and horizon: "lf_MaxWriteExpiresAt p = horizon"
    and due: "\<not> lf_DatabaseNow p < lf_UploadDeadline p" "\<not> lf_DatabaseNow p < lf_MaxWriteExpiresAt p"
    and ens: "ensured (fc_UploadID claim) (terminalTombstones p
        (map candidate_of_row (candidates_of (fc_UploadID claim) t)) '''') t t1"
    and upd: "sql_expire_missing (fc_UploadID claim) (fc_Token claim) (lf_DatabaseNow p) horizon t1
      = Inr (Suc 0, t')"
  shows "db_steps t t' \<and> missing_expired (fc_UploadID claim) horizon t'"
proof -
  from assms(1) obtain u where u: "find_claimed (fc_UploadID claim) (fc_Token claim) t = Some u"
    "after_now (u_claim_expires_at u) (lf_DatabaseNow p)" and p: "p = parent_of u (lf_DatabaseNow p)"
    and targets: "\<forall>key. terminalTombstones p (map candidate_of_row (candidates_of (fc_UploadID claim) t)) key
       = terminal_targets u (lf_DatabaseNow p) t key"
    by (rule claimed_parentE)
  have row: "lf_UploadDeadline p = u_upload_deadline u" "lf_MaxWriteExpiresAt p = u_max_write_expires_at u"
    by (subst p, simp)+
  have "db_step t t'"
    by (rule step_expire_missing [OF u(1,2) _ _ _ ens [unfolded targets [rule_format]] upd [folded One_nat_def]])
       (use due horizon row in \<open>simp_all add: not_less\<close>)
  moreover from upd [unfolded sql_expire_missing_def] have "missing_expired (fc_UploadID claim) horizon t'"
    unfolding missing_expired_def
    by (rule update_uploads_ex) (auto simp: settle_def upload_ok_def state_shape_ok_def)
  ultimately show ?thesis by blast
qed

subsection \<open>The bodies of the retried transactions\<close>

lemma terminal_update_True [simp]:
  "terminal_update r = Inr (True, t) \<longleftrightarrow> r = Inr (Suc 0, t)"
  by (auto simp: terminal_update_def split: sum.splits)

definition commits :: "(db \<Rightarrow> bool) \<Rightarrow> 'v \<Rightarrow> db \<Rightarrow> go_error + bool \<times> db \<Rightarrow> bool" where
  "commits Q v d r = (\<forall>t. r = Inr (True, t) \<longrightarrow> db_steps d t \<and> Q t)"

lemma commits_simps [simp]:
  "commits Q v d (Inl err)" "commits Q v d (Inr (False, t))"
  by (simp_all add: commits_def)

lemma quiet_ready_body:
  "quiet (ready_body E claim selected v t)
     (\<lambda>(v', r). commits (published (fc_UploadID claim) (tc_ObjectKey selected)) v' t r)"
  unfolding ready_body_def
  by (intro vcg quiet_bind [OF quiet_exec]) (auto simp: commits_def intro: ready_step [THEN conjunct1] ready_step [THEN conjunct2])

lemma quiet_rejected_body:
  "quiet (rejected_body E claim failure v t)
     (\<lambda>(v', r). commits (refused (fc_UploadID claim) (vf_Reason failure)) v' t r)"
  unfolding rejected_body_def
  by (intro vcg quiet_bind [OF quiet_exec]) (auto simp: commits_def intro: rejected_step [THEN conjunct1] rejected_step [THEN conjunct2])

lemma quiet_missing_body:
  "quiet (missing_body E claim horizon observed v t)
     (\<lambda>(v', r). commits (missing_expired (fc_UploadID claim) horizon) v' t r)"
  unfolding missing_body_def
  by (intro vcg quiet_bind [OF quiet_exec]) (auto simp: commits_def intro: missing_step [THEN conjunct1] missing_step [THEN conjunct2])

lemma register_step:
  assumes "claimed_parent claim t p"
    and ins: "sql_register (fc_UploadID claim) c now t = Inr (n, t1)"
    and sel: "select_candidate (fc_UploadID claim) (tc_SHA256 c) t1 = Inr c"
  shows "db_steps t t1 \<and> candidate_stored (fc_UploadID claim) c t1"
proof -
  from assms(1) obtain u where u: "find_claimed (fc_UploadID claim) (fc_Token claim) t = Some u"
    "after_now (u_claim_expires_at u) (lf_DatabaseNow p)"
    unfolding claimed_parent_def by blast
  have "db_step t t1"
    by (rule step_register [OF u _ ins [unfolded sql_register_def]]) (simp add: new_candidate_row_def)
  moreover from sel obtain row where "find_candidate (fc_UploadID claim) (tc_SHA256 c) t1 = Some row"
    "scanTrackedCandidate row = Inr c"
    by (auto simp: select_candidate_def split: option.splits)
  then have "row \<in> set (candidates t1)" "c_upload_id row = fc_UploadID claim" "candidate_of_row row = c"
    by (auto simp: find_candidate_def scanTrackedCandidate_def dest: find_SomeD split: if_splits)
  ultimately show ?thesis unfolding candidate_stored_def by blast
qed

lemma quiet_register_body:
  "quiet (register_body E claim c v t)
     (\<lambda>(v', r). commits (candidate_stored (fc_UploadID claim) c) v' t r)"
  unfolding register_body_def Let_def
  by (intro vcg) (auto simp: commits_def intro: register_step [THEN conjunct1] register_step [THEN conjunct2])

lemma retry_commits:
  assumes "peers_ok E" and "\<And>v d. quiet (body v d) (\<lambda>(v', r). commits Q v' d r)"
  shows "service (retryUploadTransaction E body v)
    (\<lambda>(v', committed, outcomeUnknown, err) d. (committed \<longrightarrow> Q d \<and> err = None) \<and>
       (outcomeUnknown \<longrightarrow> err \<noteq> None))"
proof -
  have "service (retryUploadTransaction E body v) (retried (commits Q))"
  proof (rule retry_service [OF assms(1)])
    fix v d
    show "quiet (body v d) (\<lambda>(v', r). commits Q v' d r \<and> (\<forall>t. r = Inr (True, t) \<longrightarrow> db_steps d t))"
      by (rule quietI, rule quiet_tail [OF assms(2)]) (auto simp: commits_def)
  qed
  then show ?thesis
    by (rule service_mono) (auto simp: retried_def commits_def)
qed

subsection \<open>Confirmations\<close>

lemma map_sum_Inr_iff [simp]: "map_sum f g r = Inr y \<longleftrightarrow> (\<exists>x. r = Inr x \<and> y = g x)"
  by (cases r) auto

lemma confirmed_True [simp]: "confirmed_or_absent r = Inr True \<longleftrightarrow> r = Inr True"
  by (cases r) (auto simp: confirmed_or_absent_def)

lemma service_confirmReady:
  assumes "peers_ok E"
  shows "service (confirmReady E uid key) (\<lambda>r d. r = Inr True \<longrightarrow> published uid key d)"
  unfolding confirmReady_def
  by (intro vcg service_bind [OF service_pool_query [OF assms]])
     (auto simp: select_final_key_def scan_null_def published_def split: option.splits dest!: find_SomeD)

lemma service_confirmRejected:
  assumes "peers_ok E"
  shows "service (confirmRejected E uid reason) (\<lambda>r d. r = Inr True \<longrightarrow> refused uid reason d)"
  unfolding confirmRejected_def
  by (intro vcg service_bind [OF service_pool_query [OF assms]])
     (auto simp: select_rejection_reason_def scan_null_def refused_def split: option.splits dest!: find_SomeD)

lemma service_confirmMissing:
  assumes "peers_ok E"
  shows "service (confirmFinalizeExpiredMissing E uid horizon n)
    (\<lambda>r d. r = Inr True \<longrightarrow> missing_expired uid horizon d)"
  unfolding confirmFinalizeExpiredMissing_def
  by (intro vcg service_bind [OF service_pool_query [OF assms]])
     (auto simp: select_missing_def missing_confirmed_def missing_expired_def split: option.splits
       dest!: find_upload_by_id_SomeD)

lemma service_confirmRetry:
  assumes "peers_ok E"
  shows "service (confirmRetry E uid upd errorClass)
    (\<lambda>r d. r = Inr True \<longrightarrow> retry_scheduled uid upd errorClass d)"
  unfolding confirmRetry_def
  by (intro vcg service_bind [OF service_pool_query [OF assms]])
     (auto simp: select_retry_def retry_confirmed_def retry_scheduled_def split: option.splits
       dest!: find_SomeD)

lemma service_candidateTracked:
  assumes "peers_ok E"
  shows "service (candidateTracked E uid c) (\<lambda>r d. r = Inr True \<longrightarrow> candidate_stored uid c d)"
proof -
  have "candidate_stored uid c d" if "select_candidate uid (tc_SHA256 c) d = Inr c" for d
    using that
    by (auto simp: select_candidate_def find_candidate_def scanTrackedCandidate_def candidate_stored_def
        split: option.splits if_splits dest!: find_SomeD)
  then show ?thesis
    unfolding candidateTracked_def
    by (intro vcg service_bind [OF service_pool_query [OF assms]]) (auto split: sum.splits if_splits)
qed

subsection \<open>The transitions\<close>

lemma resolve_True: "resolveTerminalCommit err r = Inr True \<longleftrightarrow> r = Inr True"
  by (auto simp: resolveTerminalCommit_def split: sum.splits option.splits)

lemma commit_result_True: "commit_result committed err = Inr True \<longleftrightarrow> committed \<and> err = None"
  by (auto simp: commit_result_def split: option.splits)

lemma service_transitionReady:
  assumes "peers_ok E"
  shows "service (transitionFinalizeReady E claim selected)
    (\<lambda>r d. r = Inr True \<longrightarrow> published (fc_UploadID claim) (tc_ObjectKey selected) d)"
  unfolding transitionFinalizeReady_def
  by (intro vcg service_bind [OF retry_commits [OF assms quiet_ready_body]]
      service_bind [OF service_confirmReady [OF assms]])
     (auto simp: resolve_True commit_result_True)

lemma service_transitionRejected:
  assumes "peers_ok E"
  shows "service (transitionFinalizeRejected E claim failure)
    (\<lambda>r d. r = Inr True \<longrightarrow> refused (fc_UploadID claim) (vf_Reason failure) d)"
  unfolding transitionFinalizeRejected_def
  by (intro vcg service_bind [OF retry_commits [OF assms quiet_rejected_body]]
      service_bind [OF service_confirmRejected [OF assms]])
     (auto simp: resolve_True commit_result_True)

lemma service_transitionMissing:
  assumes "peers_ok E"
  shows "service (transitionFinalizeExpiredMissing E claim horizon observed)
    (\<lambda>r d. r = Inr True \<longrightarrow> missing_expired (fc_UploadID claim) horizon d)"
  unfolding transitionFinalizeExpiredMissing_def
  by (intro vcg service_bind [OF retry_commits [OF assms quiet_missing_body]]
      service_tail [OF service_confirmMissing [OF assms]])
     (auto simp: commit_result_True)

lemma case_prod_rule:
  "(\<And>a b. p = (a, b) \<Longrightarrow> triple pre (f a b y) Q) \<Longrightarrow>
     triple pre ((case p of (a, b) \<Rightarrow> f a b) y) Q"
  by (auto split: prod.splits)

lemma service_registerCandidate:
  assumes "peers_ok E"
  shows "service (registerCandidate E claim c)
    (\<lambda>r d. r = Inr (True, False) \<longrightarrow> candidate_stored (fc_UploadID claim) c d)"
  unfolding registerCandidate_def
  by (intro vcg case_prod_rule service_bind [OF retry_commits [OF assms quiet_register_body]]
      service_bind [OF service_candidateTracked [OF assms]])
     (auto split: sum.splits option.splits if_splits)

lemma service_prepareMissing:
  assumes "peers_ok E"
  shows "service (prepareMissingObservation E claim) (\<lambda>_ _. True)"
  unfolding prepareMissingObservation_def by (intro vcg assms) simp_all

lemma retry_step:
  assumes "claimed_parent claim t p"
    and upd: "sql_retry (fc_UploadID claim) (fc_Token claim) next streak errorClass (lf_DatabaseNow p) t
      = Inr (Suc 0, t')"
  shows "db_steps t t'"
    and "timestamptz next = ru_NextAttemptAt r \<Longrightarrow> streak = ru_FailureStreak r \<Longrightarrow>
      retry_scheduled (fc_UploadID claim) r errorClass t'"
proof -
  from assms(1) obtain u where u: "find_claimed (fc_UploadID claim) (fc_Token claim) t = Some u"
    "after_now (u_claim_expires_at u) (lf_DatabaseNow p)"
    unfolding claimed_parent_def by blast
  show "db_steps t t'"
    using step_retry [OF u upd [folded One_nat_def]] by blast
  assume r: "timestamptz next = ru_NextAttemptAt r" "streak = ru_FailureStreak r"
  from upd [unfolded sql_retry_def] show "retry_scheduled (fc_UploadID claim) r errorClass t'"
    unfolding retry_scheduled_def by (rule update_uploads_ex) (simp add: r)
qed

text \<open>A backoff is a whole number of microseconds, so the next attempt is stored as computed.\<close>

lemma timestamptz_whole: "t mod microsecond = 0 \<Longrightarrow> timestamptz t = t"
  unfolding timestamptz_def using div_mult_mod_eq [of t microsecond] by simp

lemma timestamptz_delay:
  "timestamptz now = now \<Longrightarrow>
     timestamptz (now + finalizerRetryDelay streak errorClass) = now + finalizerRetryDelay streak errorClass"
  by (metis timestamptz_add timestamptz_whole finalizer_backoff.delay_whole)

lemma claimed_parent_clock: "claimed_parent claim t p \<Longrightarrow> timestamptz (lf_DatabaseNow p) = lf_DatabaseNow p"
  by (auto simp: claimed_parent_def)

text \<open>What a scheduled retry was computed from: the row that the transaction found under its claim, in a
  database \<open>d\<^sub>0\<close> that came after \<open>d\<close>, and a reading \<open>now\<close> of the server's clock at which the claim was alive.\<close>

definition retry_planned ::
  "environment \<Rightarrow> finalizeClaim \<Rightarrow> retryUpdate \<Rightarrow> string \<Rightarrow> db \<Rightarrow> bool" where
  "retry_planned E claim upd errorClass d =
     (\<exists>d\<^sub>0 u k. db_steps d d\<^sub>0 \<and> find_claimed (fc_UploadID claim) (fc_Token claim) d\<^sub>0 = Some u \<and>
        after_now (u_claim_expires_at u) (server_clock E k) \<and> ru_FailureStreak upd = u_failure_streak u + 1 \<and>
        ru_Delay upd = finalizerRetryDelay (ru_FailureStreak upd) errorClass \<and>
        ru_NextAttemptAt upd = server_clock E k + ru_Delay upd)"

lemma quiet_lockFinalizeParent_clock:
  "quiet (lockFinalizeParent E claim t)
     (\<lambda>r. \<forall>p. r = Inr (Some p) \<longrightarrow> claimed_parent claim t p \<and> (\<exists>k. lf_DatabaseNow p = server_clock E k))"
  unfolding lockFinalizeParent_def
  by (intro vcg quiet_bind [OF quiet_clock_reading])
     (auto simp: claimed_parent_def after_now_def dest!: lock_parent_row_Inr split: sum.splits)

lemma lock_parent_clock_rule:
  assumes "readable pre"
    and "\<And>r. (\<And>p. r = Inr (Some p) \<Longrightarrow> claimed_parent claim t p \<and> (\<exists>k. lf_DatabaseNow p = server_clock E k)) \<Longrightarrow>
      triple pre (f r) Q"
  shows "triple pre (State_Monad.bind (lockFinalizeParent E claim t) f) Q"
  by (rule quiet_bind [OF quiet_lockFinalizeParent_clock assms(1)]) (simp add: assms(2))

lemma retry_plannedI:
  assumes "db_steps d t" and "claimed_parent claim t p" and "lf_DatabaseNow p = server_clock E k"
  shows "retry_planned E claim \<lparr>ru_FailureStreak = lf_FailureStreak p + 1,
    ru_Delay = finalizerRetryDelay (lf_FailureStreak p + 1) errorClass,
    ru_NextAttemptAt = lf_DatabaseNow p + finalizerRetryDelay (lf_FailureStreak p + 1) errorClass\<rparr> errorClass d"
proof -
  from assms(2) obtain u where u: "find_claimed (fc_UploadID claim) (fc_Token claim) t = Some u"
    "after_now (u_claim_expires_at u) (lf_DatabaseNow p)" and p: "p = parent_of u (lf_DatabaseNow p)"
    by (auto simp: claimed_parent_def)
  have "lf_FailureStreak p = u_failure_streak u" by (subst p, simp)
  with u assms(1,3) show ?thesis unfolding retry_planned_def by (intro exI [of _ t] exI [of _ u] exI [of _ k]) simp
qed

lemma triple_scheduleRetry:
  assumes "peers_ok E"
  shows "triple (idle w\<^sub>0 d) (scheduleFinalizeRetry E claim errorClass)
    (closed w\<^sub>0 (\<lambda>r d'. \<forall>upd. r = Inr (Some upd) \<longrightarrow>
       retry_scheduled (fc_UploadID claim) upd errorClass d' \<and> retry_planned E claim upd errorClass d))"
  unfolding scheduleFinalizeRetry_def Let_def
  supply lock_parent_rule [vcg del]
  by (intro vcg lock_parent_clock_rule service_bind [OF service_confirmRetry [OF assms]] assms)
     (auto intro: retry_step retry_plannedI simp: timestamptz_delay claimed_parent_clock split: if_splits)

lemma retry_planned_delay:
  "retry_planned E claim upd errorClass d \<Longrightarrow> ru_Delay upd = finalizerRetryDelay (ru_FailureStreak upd) errorClass"
  by (auto simp: retry_planned_def)

lemma service_scheduleRetry:
  assumes "peers_ok E"
  shows "service (scheduleFinalizeRetry E claim errorClass)
    (\<lambda>r d. \<forall>upd. r = Inr (Some upd) \<longrightarrow> retry_scheduled (fc_UploadID claim) upd errorClass d \<and>
       ru_Delay upd = finalizerRetryDelay (ru_FailureStreak upd) errorClass)"
proof (rule serviceI)
  fix w\<^sub>0 d
  show "triple (idle w\<^sub>0 d) (scheduleFinalizeRetry E claim errorClass)
    (closed w\<^sub>0 (\<lambda>r d. \<forall>upd. r = Inr (Some upd) \<longrightarrow> retry_scheduled (fc_UploadID claim) upd errorClass d \<and>
       ru_Delay upd = finalizerRetryDelay (ru_FailureStreak upd) errorClass))"
    by (rule triple_mono [OF triple_scheduleRetry [OF assms]]) (auto simp: closed_def dest: retry_planned_delay)
qed

subsection \<open>Claims\<close>

lemma claim_of_row_simps [simp]:
  "fc_UploadID (claim_of_row u token e) = u_upload_id u"
  "fc_StagingKey (claim_of_row u token e) = u_staging_key u"
  "fc_Token (claim_of_row u token e) = token" "fc_ExpiresAt (claim_of_row u token e) = e"
  by (simp_all add: claim_of_row_def)

text \<open>A claim as it was taken: the columns it carries are those of the row it holds.\<close>

definition claim_taken :: "finalizeClaim \<Rightarrow> db \<Rightarrow> bool" where
  "claim_taken claim d =
     (\<exists>u\<in>set (uploads d). claim = claim_of_row u (fc_Token claim) (fc_ExpiresAt claim) \<and>
        u_state u = Finalizing \<and> u_claim_token u = Some (fc_Token claim) \<and>
        (\<exists>e. u_claim_expires_at u = Some e \<and> timestamptz e = timestamptz (fc_ExpiresAt claim)))"

lemma claim_taken_held: "claim_taken claim d \<Longrightarrow> claim_held claim d"
  unfolding claim_taken_def claim_held_def
  by (elim bexE conjE, rule bexI, intro conjI) (auto dest: arg_cong [of _ _ fc_UploadID])

lemma update_uploads_row:
  "update_uploads p f d = Inr (n, d') \<Longrightarrow> u \<in> set (uploads d) \<Longrightarrow> p u \<Longrightarrow> f u \<in> set (uploads d')"
  by (drule update_uploads_Inr(2)) force

lemma claim_step:
  assumes "lock_next_finalizing E k now d = Inr u"
    and "sql_claim (u_upload_id u) token expiresAt d = Inr (Suc 0, d')"
  shows "db_steps d d'" and "claim_taken (claim_of_row u token expiresAt) d'"
proof -
  from assms(1) have row: "next_finalizing (env_locked E k) now d = Some u"
    by (auto simp: lock_next_finalizing_def split: option.splits)
  show "db_steps d d'"
    using step_claim [OF row assms(2) [folded One_nat_def]] by blast
  show "claim_taken (claim_of_row u token expiresAt) d'"
    unfolding claim_taken_def
    by (rule bexI [OF _ update_uploads_row [OF assms(2) [unfolded sql_claim_def], of u]])
       (use next_finalizing_SomeD [OF row] in \<open>simp_all add: claim_of_row_def\<close>)
qed

lemma service_confirmFinalizeClaim:
  assumes "peers_ok E"
  shows "service (confirmFinalizeClaim E c) (\<lambda>r d. \<forall>claim. r = Inr (Some claim) \<longrightarrow> claim_taken claim d)"
proof -
  have "claim_taken claim d" if "select_claim uid token now d = Inr claim" for uid token now d claim
    using that unfolding select_claim_def claim_taken_def
    by (auto split: option.splits if_splits dest!: find_claimed_SomeD intro!: bexI)
  then show ?thesis
    unfolding confirmFinalizeClaim_def
    by (intro vcg service_bind [OF service_pool_query [OF assms]]) auto
qed

lemma service_claimNext:
  assumes "peers_ok E"
  shows "service (claimNextFinalizing E lease) (\<lambda>r d. \<forall>claim. r = Inr (Some claim) \<longrightarrow> claim_taken claim d)"
  unfolding claimNextFinalizing_def
  by (intro vcg assms service_tail [OF service_confirmFinalizeClaim [OF assms]])
     (auto intro: claim_step simp: Let_def)

lemma renew_step:
  assumes "lock_claim_expiry uid token k now d = Inr e" and "now' < e"
    and upd: "sql_renew uid token expiresAt d = Inr (Suc 0, d')"
  shows "db_steps d d'"
    and "uid = fc_UploadID claim \<Longrightarrow> token = fc_Token claim \<Longrightarrow> claim_held (claim\<lparr>fc_ExpiresAt := expiresAt\<rparr>) d'"
proof -
  from assms(1,2) obtain u where "find_claimed uid token d = Some u" "after_now (u_claim_expires_at u) now'"
    by (auto simp: lock_claim_expiry_def scan_null_def after_now_def split: option.splits)
  from step_renew [OF this upd [folded One_nat_def]] show "db_steps d d'"
    by blast
  assume "uid = fc_UploadID claim" "token = fc_Token claim"
  with upd [unfolded sql_renew_def] show "claim_held (claim\<lparr>fc_ExpiresAt := expiresAt\<rparr>) d'"
    unfolding claim_held_def by - (erule update_uploads_ex, simp)
qed

lemma service_confirmFinalizeRenewal:
  assumes "peers_ok E"
  shows "service (confirmFinalizeRenewal E claim e)
    (\<lambda>r d. \<forall>x. r = Inr (Some x) \<longrightarrow> claim_held (claim\<lparr>fc_ExpiresAt := x\<rparr>) d)"
proof -
  have "claim_held (claim\<lparr>fc_ExpiresAt := x\<rparr>) d"
    if "select_renewal (fc_UploadID claim) (fc_Token claim) e now d = Inr x" for now d x
    using that unfolding select_renewal_def claim_held_def
    by (auto split: option.splits if_splits dest!: find_claimed_SomeD intro!: bexI)
  then show ?thesis
    unfolding confirmFinalizeRenewal_def
    by (intro vcg service_bind [OF service_pool_query [OF assms]]) auto
qed

text \<open>A renewed claim is held; a claim that is not renewed keeps its value.\<close>

lemma service_renew:
  assumes "peers_ok E"
  shows "service (renewFinalizeClaim E claim lease)
    (\<lambda>(claim', r) d. (r = Inr True \<longrightarrow> claim_held claim' d) \<and>
       claim' = claim\<lparr>fc_ExpiresAt := fc_ExpiresAt claim'\<rparr>)"
  unfolding renewFinalizeClaim_def
  by (intro vcg assms service_bind [OF service_confirmFinalizeRenewal [OF assms]])
     (auto intro: renew_step simp: Let_def split: sum.splits option.splits if_splits)

lemma service_load:
  assumes "peers_ok E"
  shows "service (loadTrackedCandidates E claim)
    (\<lambda>r d. \<forall>cs c. r = Inr cs \<longrightarrow> c \<in> set cs \<longrightarrow> candidate_stored (fc_UploadID claim) c d)"
proof -
  have "candidate_stored uid c d"
    if "select_claimed_candidates uid token now d = Inr cs" and "c \<in> set cs" for uid token now d cs c
    using that scanTrackedCandidates_Inr unfolding select_claimed_candidates_def candidate_stored_def
    by (fastforce split: option.splits if_splits)
  then show ?thesis
    unfolding loadTrackedCandidates_def
    by (intro service_mono [OF service_pool_query [OF assms]]) blast
qed

end
