(* ===== verification/Finalizer.thy ===== *)
theory Finalizer
  imports Claims
begin

section \<open>The finalizer\<close>

text \<open>
  Models \<^verbatim>\<open>processNext\<close> of \<^verbatim>\<open>reconcile.go\<close> with its phases, its retries and its three terminal
  outcomes, and the loop that calls it.  The result of a round is whether a row was processed and
  the error that the loop ignores.
\<close>

subsection \<open>Phases, retries and outcomes\<close>

text \<open>\<^verbatim>\<open>phase\<close> logs the start and returns the closure that logs the finish: \<open>finish\<close>, which
  needs the starting time.\<close>

definition phase :: "environment \<Rightarrow> finalizeClaim \<Rightarrow> string \<Rightarrow> (world, time) state" where
  "phase E claim p = do {
     started \<leftarrow> time_Now E;
     log_info ''finalize.phase''
       [(''upload_id'', AStr (fc_UploadID claim)), (''phase'', AStr p), (''edge'', AStr ''start'')];
     State_Monad.return started }"

definition finish :: "environment \<Rightarrow> finalizeClaim \<Rightarrow> string \<Rightarrow> time \<Rightarrow> string \<Rightarrow> (world, unit) state" where
  "finish E claim p started outcome = do {
     now \<leftarrow> time_Now E;
     log_info ''finalize.phase''
       [(''upload_id'', AStr (fc_UploadID claim)), (''phase'', AStr p), (''edge'', AStr ''finish''),
        (''outcome'', AStr outcome), (''duration_ms'', AInt (milliseconds (now - started))),
        (''failure_streak'', AInt (fc_FailureStreak claim))] }"

definition retry ::
  "environment \<Rightarrow> finalizeClaim \<Rightarrow> string \<Rightarrow> string \<Rightarrow> (world, go_error option) state" where
  "retry E claim p errorClass = do {
     scheduled \<leftarrow> scheduleFinalizeRetry E claim errorClass;
     case scheduled of
       Inl err \<Rightarrow> State_Monad.return (Some err)
     | Inr applied \<Rightarrow>
         (case applied of
            None \<Rightarrow> State_Monad.return None
          | Some upd \<Rightarrow> do {
              metric_add ''retries_scheduled_total'' (''finalizer_'' @ errorClass);
              log_info ''retry.scheduled''
                [(''upload_id'', AStr (fc_UploadID claim)), (''retry_owner'', AStr ''finalizer''),
                 (''phase'', AStr p), (''error_class'', AStr errorClass),
                 (''failure_streak'', AInt (ru_FailureStreak upd)),
                 (''delay_ms'', AInt (milliseconds (ru_Delay upd))),
                 (''next_attempt_at'', ATime (ru_NextAttemptAt upd))];
              State_Monad.return None }) }"

definition transition_attributes :: "finalizeClaim \<Rightarrow> string \<Rightarrow> (string \<times> attribute) list" where
  "transition_attributes claim target =
     [(''upload_id'', AStr (fc_UploadID claim)), (''state_from'', AStr ''finalizing''),
      (''state_to'', AStr target), (''trigger'', AStr ''finalizer'')]"

definition ready ::
  "environment \<Rightarrow> finalizeClaim \<Rightarrow> trackedCandidate \<Rightarrow> (world, go_error option) state" where
  "ready E claim candidate = do {
     started \<leftarrow> phase E claim ''terminal_commit'';
     result \<leftarrow> transitionFinalizeReady E claim candidate;
     case result of
       Inl err \<Rightarrow> do {
         finish E claim ''terminal_commit'' started ''retry'';
         retry E claim ''terminal_commit'' (classifyDatabaseError err True) }
     | Inr committed \<Rightarrow>
         (if \<not> committed then do {
            finish E claim ''terminal_commit'' started ''stale'';
            State_Monad.return None }
          else do {
            finish E claim ''terminal_commit'' started ''ready'';
            metric_add ''upload_transitions_total'' ''finalizing_to_ready'';
            log_info ''upload.transition'' (transition_attributes claim ''ready'');
            State_Monad.return None }) }"

definition reject ::
  "environment \<Rightarrow> finalizeClaim \<Rightarrow> validationFailure \<Rightarrow> (world, go_error option) state" where
  "reject E claim failure = do {
     started \<leftarrow> phase E claim ''terminal_commit'';
     result \<leftarrow> transitionFinalizeRejected E claim failure;
     case result of
       Inl err \<Rightarrow> do {
         finish E claim ''terminal_commit'' started ''retry'';
         retry E claim ''terminal_commit'' (classifyDatabaseError err True) }
     | Inr committed \<Rightarrow>
         (if \<not> committed then do {
            finish E claim ''terminal_commit'' started ''stale'';
            State_Monad.return None }
          else do {
            finish E claim ''terminal_commit'' started ''rejected'';
            metric_add ''upload_transitions_total'' ''finalizing_to_rejected'';
            metric_add ''validation_rejects_total'' (vf_Reason failure);
            log_info ''upload.transition''
              (transition_attributes claim ''rejected'' @ [(''reason_code'', AStr (vf_Reason failure))]);
            State_Monad.return None }) }"

definition expireMissing ::
  "environment \<Rightarrow> finalizeClaim \<Rightarrow> time \<Rightarrow> trackedCandidate list \<Rightarrow> (world, go_error option) state" where
  "expireMissing E claim observedHorizon observedCandidates = do {
     started \<leftarrow> phase E claim ''terminal_commit'';
     result \<leftarrow> transitionFinalizeExpiredMissing E claim observedHorizon observedCandidates;
     case result of
       Inl err \<Rightarrow> do {
         finish E claim ''terminal_commit'' started ''retry'';
         retry E claim ''terminal_commit'' (classifyDatabaseError err True) }
     | Inr committed \<Rightarrow>
         (if \<not> committed then do {
            finish E claim ''terminal_commit'' started ''stale'';
            retry E claim ''staging_observe'' ''transient'' }
          else do {
            finish E claim ''terminal_commit'' started ''expired'';
            metric_add ''upload_transitions_total'' ''finalizing_to_expired'';
            log_info ''upload.transition''
              (transition_attributes claim ''expired'' @
               [(''reason_code'', AStr ''staging_missing_after_write_window'')]);
            State_Monad.return None }) }"

subsection \<open>One round\<close>

text \<open>
  The round is written in the order of the source, one definition for each stretch that the source
  delimits by a renewal of the claim.  \<open>processed m\<close> is
  \<^verbatim>\<open>return true, m\<close>.
\<close>

definition processed :: "(world, go_error option) state \<Rightarrow> (world, bool \<times> go_error option) state" where
  "processed m = do { err \<leftarrow> m; State_Monad.return (True, err) }"

text \<open>A renewal before an S3 call: an error is retried in the named phase, a lost claim ends the round.\<close>

definition renewing ::
  "environment \<Rightarrow> finalizeClaim \<Rightarrow> duration \<Rightarrow> string
     \<Rightarrow> (finalizeClaim \<Rightarrow> (world, bool \<times> go_error option) state)
     \<Rightarrow> (world, bool \<times> go_error option) state" where
  "renewing E claim lease p continue = do {
     (claim', renewed) \<leftarrow> renewFinalizeClaim E claim lease;
     case renewed of
       Inl err \<Rightarrow> processed (retry E claim' p (classifyDatabaseError err True))
     | Inr active \<Rightarrow>
         (if \<not> active then State_Monad.return (True, None) else continue claim') }"

fun verify_candidates ::
  "environment \<Rightarrow> duration \<Rightarrow> finalizeClaim \<Rightarrow> trackedCandidate list
     \<Rightarrow> (finalizeClaim \<Rightarrow> (world, bool \<times> go_error option) state)
     \<Rightarrow> (world, bool \<times> go_error option) state" where
  "verify_candidates E lease claim [] rest = rest claim"
| "verify_candidates E lease claim (candidate # tracked) rest =
     renewing E claim lease ''candidate_verify'' (\<lambda>claim. do {
       started \<leftarrow> phase E claim ''candidate_verify'';
       result \<leftarrow> captureS3Object E (tc_ObjectKey candidate) maxUploadSizeBytes;
       case result of
         Inl readErr \<Rightarrow>
           (if storageObjectMissing readErr then do {
              finish E claim ''candidate_verify'' started ''missing'';
              verify_candidates E lease claim tracked rest }
            else do {
              finish E claim ''candidate_verify'' started ''retry'';
              processed (retry E claim ''candidate_verify'' (classifyStorageError readErr False)) })
       | Inr snapshot \<Rightarrow>
           (if \<not> candidateMatchesSnapshot candidate snapshot then do {
              finish E claim ''candidate_verify'' started ''mismatch'';
              processed (reject E claim (candidateMismatchFailure candidate snapshot)) }
            else do {
              finish E claim ''candidate_verify'' started ''verified'';
              processed (ready E claim candidate) }) })"

text \<open>The last stretch: the stored candidate is read back and compared before it is published.\<close>

definition verify_published ::
  "environment \<Rightarrow> finalizeClaim \<Rightarrow> trackedCandidate \<Rightarrow> go_error option
     \<Rightarrow> (world, bool \<times> go_error option) state" where
  "verify_published E claim candidate putErr = do {
     started \<leftarrow> phase E claim ''candidate_verify'';
     result \<leftarrow> captureS3Object E (tc_ObjectKey candidate) maxUploadSizeBytes;
     case result of
       Inl verifyErr \<Rightarrow> do {
         finish E claim ''candidate_verify'' started ''retry'';
         (case putErr of
            Some err \<Rightarrow> processed (retry E claim ''candidate_put'' (classifyStorageError err True))
          | None \<Rightarrow>
              (if storageObjectMissing verifyErr
               then processed (retry E claim ''candidate_verify'' ''ambiguous'')
               else processed (retry E claim ''candidate_verify'' (classifyStorageError verifyErr False)))) }
     | Inr snapshot \<Rightarrow>
         (if \<not> candidateMatchesSnapshot candidate snapshot then do {
            finish E claim ''candidate_verify'' started ''mismatch'';
            processed (reject E claim (candidateMismatchFailure candidate snapshot)) }
          else do {
            finish E claim ''candidate_verify'' started ''verified'';
            processed (ready E claim candidate) }) }"

definition new_candidate :: "finalizeClaim \<Rightarrow> validatedImage \<Rightarrow> trackedCandidate" where
  "new_candidate claim validated =
     \<lparr>tc_SHA256 = vi_SHA256 validated,
      tc_ObjectKey = ''media/'' @ fc_UploadID claim @ ''/'' @ hex_EncodeToString (vi_SHA256 validated),
      tc_EncodedSize = vi_SizeBytes validated, tc_ValidationPolicyVersion = 1,
      tc_Format = vi_Format validated, tc_Width = vi_Width validated, tc_Height = vi_Height validated\<rparr>"

definition decoder_mismatch :: "validatedImage \<Rightarrow> validationFailure" where
  "decoder_mismatch validated =
     \<lparr>vf_Class = ''internal_invariant'', vf_Reason = ''decoder_invariant_mismatch'', vf_Phase = ''decode'',
      vf_Evidence = [(''policy_version'', JInt 1), (''format'', JStr (vi_Format validated)),
        (''width'', JInt (vi_Width validated)), (''height'', JInt (vi_Height validated))]\<rparr>"

text \<open>Tracking, storing and verifying a freshly validated image.\<close>

definition publish_validated ::
  "environment \<Rightarrow> duration \<Rightarrow> finalizeClaim \<Rightarrow> validatedImage \<Rightarrow> (world, bool \<times> go_error option) state" where
  "publish_validated E lease claim validated = do {
     let candidate = new_candidate claim validated;
     started \<leftarrow> phase E claim ''candidate_track'';
     registration \<leftarrow> registerCandidate E claim candidate;
     case registration of
       Inl err \<Rightarrow> do {
         finish E claim ''candidate_track'' started ''retry'';
         processed (retry E claim ''candidate_track'' (classifyDatabaseError err True)) }
     | Inr (active, mismatch) \<Rightarrow>
         (if \<not> active then do {
            finish E claim ''candidate_track'' started ''stale'';
            State_Monad.return (True, None) }
          else if mismatch then do {
            finish E claim ''candidate_track'' started ''mismatch'';
            processed (reject E claim (decoder_mismatch validated)) }
          else do {
            finish E claim ''candidate_track'' started ''tracked'';
            renewing E claim lease ''candidate_put'' (\<lambda>claim. do {
              started \<leftarrow> phase E claim ''candidate_put'';
              putErr \<leftarrow> putCandidateObject E (tc_ObjectKey candidate) (vi_Bytes validated)
                          (vi_ContentType validated);
              finish E claim ''candidate_put'' started (if putErr \<noteq> None then ''unknown'' else ''stored'');
              renewing E claim lease ''candidate_verify''
                (\<lambda>claim. verify_published E claim candidate putErr) }) }) }"

definition validate_staging ::
  "environment \<Rightarrow> duration \<Rightarrow> finalizeClaim \<Rightarrow> objectSnapshot \<Rightarrow> (world, bool \<times> go_error option) state" where
  "validate_staging E lease claim staging = do {
     started \<leftarrow> phase E claim ''validate'';
     case validateImageBytes E (bytes_of (os_Bytes staging)) (os_ContentLength staging)
            (fc_DeclaredSize claim) (fc_DeclaredContentType claim) of
       Inl validationErr \<Rightarrow> do {
         finish E claim ''validate'' started ''retry'';
         processed (retry E claim ''validate'' ''transient'') }
     | Inr outcome \<Rightarrow>
         (case outcome of
            Inl failure \<Rightarrow> do {
              finish E claim ''validate'' started ''rejected'';
              processed (reject E claim failure) }
          | Inr validated \<Rightarrow> do {
              finish E claim ''validate'' started ''validated'';
              publish_validated E lease claim validated }) }"

definition observe_staging ::
  "environment \<Rightarrow> duration \<Rightarrow> trackedCandidate list \<Rightarrow> finalizeClaim \<Rightarrow> (world, bool \<times> go_error option) state" where
  "observe_staging E lease tracked claim = do {
     prepared \<leftarrow> prepareMissingObservation E claim;
     case prepared of
       Inl err \<Rightarrow> processed (retry E claim ''staging_observe'' (classifyDatabaseError err False))
     | Inr observation \<Rightarrow>
         (case observation of
            None \<Rightarrow> State_Monad.return (True, None)
          | Some (observedHorizon, expiryEligible) \<Rightarrow> do {
              observing \<leftarrow> phase E claim ''staging_observe'';
              capturing \<leftarrow> phase E claim ''staging_capture'';
              result \<leftarrow> captureS3Object E (fc_StagingKey claim) maxUploadSizeBytes;
              case result of
                Inl readErr \<Rightarrow> do {
                  finish E claim ''staging_capture'' capturing ''retry'';
                  (if storageObjectMissing readErr then do {
                     finish E claim ''staging_observe'' observing ''missing'';
                     (if expiryEligible
                      then processed (expireMissing E claim observedHorizon tracked)
                      else processed (retry E claim ''staging_observe'' ''transient'')) }
                   else do {
                     finish E claim ''staging_observe'' observing ''retry'';
                     processed (retry E claim ''staging_capture'' (classifyStorageError readErr False)) }) }
              | Inr staging \<Rightarrow> do {
                  finish E claim ''staging_capture'' capturing ''captured'';
                  finish E claim ''staging_observe'' observing ''observed'';
                  validate_staging E lease claim staging } }) }"

definition processNext :: "environment \<Rightarrow> duration \<Rightarrow> (world, bool \<times> go_error option) state" where
  "processNext E lease = do {
     claimed \<leftarrow> claimNextFinalizing E lease;
     case claimed of
       Inl err \<Rightarrow> State_Monad.return (False, Some err)
     | Inr found \<Rightarrow>
         (case found of
            None \<Rightarrow> State_Monad.return (False, None)
          | Some claim \<Rightarrow> do {
              started \<leftarrow> phase E claim ''claim'';
              finish E claim ''claim'' started ''claimed'';
              loaded \<leftarrow> loadTrackedCandidates E claim;
              case loaded of
                Inl err \<Rightarrow> processed (retry E claim ''candidate_verify'' (classifyDatabaseError err False))
              | Inr tracked \<Rightarrow>
                  verify_candidates E lease claim tracked
                    (\<lambda>claim. renewing E claim lease ''staging_observe''
                       (observe_staging E lease tracked)) }) }"

subsection \<open>The loop\<close>

definition finalizer_turn :: "environment \<Rightarrow> (world, bool \<times> go_error option) state \<Rightarrow> (world, bool) state" where
  "finalizer_turn E process = do {
     (processed, _) \<leftarrow> process;
     stopped \<leftarrow> ctx_Err E;
     (if stopped then State_Monad.return True
      else if processed then State_Monad.return False
      else ctx_Err E) }"

definition runFinalizerLoop ::
  "environment \<Rightarrow> (world, bool \<times> go_error option) state \<Rightarrow> world \<Rightarrow> world option" where
  "runFinalizerLoop E process = for_loop (poll E (finalizer_turn E process))"

definition runFinalizer :: "environment \<Rightarrow> duration \<Rightarrow> world \<Rightarrow> world option" where
  "runFinalizer E lease = runFinalizerLoop E (processNext E lease)"

subsection \<open>Contracts\<close>

abbreviation ended :: "world \<Rightarrow> 'a \<Rightarrow> world \<Rightarrow> bool" where
  "ended w\<^sub>0 \<equiv> closed w\<^sub>0 (\<lambda>_ _. True)"

lemma phase_rule [vcg]:
  assumes "\<And>r. triple (idle w\<^sub>0 d) (f r) Q"
  shows "triple (idle w\<^sub>0 d) (State_Monad.bind (phase E claim p) f) Q"
  unfolding phase_def by (simp, intro vcg assms) simp_all

lemma phase_finish_rule [vcg]:
  assumes "\<And>r. triple (idle w\<^sub>0 d) (f r) Q"
  shows "triple (idle w\<^sub>0 d) (State_Monad.bind (finish E claim p started outcome) f) Q"
  unfolding finish_def by (simp, intro vcg assms) simp_all

lemma service_retry:
  assumes "peers_ok E" and "errorClass \<in> set error_classes"
  shows "service (retry E claim p errorClass) (\<lambda>_ _. True)"
  unfolding retry_def
  by (intro vcg service_bind [OF service_scheduleRetry [OF assms(1)]] registered_retry assms(2)) simp_all

lemmas retry_classes = classifyDatabaseError_class classifyStorageError_class

text \<open>Publishing: the object must have been read back in a world the program has already seen.\<close>

lemma ready_triple:
  assumes "peers_ok E" and "read_back (s3_events w\<^sub>0) (fc_UploadID claim)"
  shows "triple (idle w\<^sub>0 d) (ready E claim c) (ended w\<^sub>0)"
  unfolding ready_def
  by (intro vcg service_bind [OF service_transitionReady [OF assms(1)]] service_tail [OF service_retry]
      assms(1) retry_classes registered_transition)
     (simp_all add: verified_ready_def assms(2) transition_attributes_def)

lemma service_reject:
  assumes "peers_ok E" and "failure_ok failure"
  shows "service (reject E claim failure) (\<lambda>_ _. True)"
  unfolding reject_def
  by (intro vcg service_bind [OF service_transitionRejected [OF assms(1)]] service_tail [OF service_retry]
      assms(1) retry_classes registered_transition)
     (use assms(2) in \<open>simp_all add: failure_ok_def transition_attributes_def\<close>)

lemma service_expireMissing:
  assumes "peers_ok E"
  shows "service (expireMissing E claim horizon observed) (\<lambda>_ _. True)"
  unfolding expireMissing_def
  by (intro vcg service_bind [OF service_transitionMissing [OF assms]] service_tail [OF service_retry]
      assms retry_classes registered_transition) (simp_all add: transition_attributes_def)

text \<open>How a round can end.\<close>

lemma processed_rule:
  assumes "triple (idle w\<^sub>0 d) m (ended w\<^sub>0)"
  shows "triple (idle w\<^sub>0 d) (processed m) (ended w\<^sub>0)"
  using assms unfolding processed_def triple_def wp_bind
  by (auto simp: wp_return closed_def elim!: wp_mono)

lemma ending_rules [vcg]:
  assumes "peers_ok E"
  shows "errorClass \<in> set error_classes \<Longrightarrow>
      triple (idle w\<^sub>0 d) (processed (retry E claim p errorClass)) (ended w\<^sub>0)"
    and "read_back (s3_events w\<^sub>0) (fc_UploadID claim) \<Longrightarrow>
      triple (idle w\<^sub>0 d) (processed (ready E claim c)) (ended w\<^sub>0)"
    and "failure_ok failure \<Longrightarrow>
      triple (idle w\<^sub>0 d) (processed (reject E claim failure)) (ended w\<^sub>0)"
    and "triple (idle w\<^sub>0 d) (processed (expireMissing E claim horizon tracked)) (ended w\<^sub>0)"
  using assms
  by (blast intro: processed_rule service_triple service_retry ready_triple service_reject
      service_expireMissing)+

lemma renewing_rule [vcg]:
  assumes "peers_ok E"
    and "\<And>d' c. db_steps d d' \<Longrightarrow> fc_UploadID c = fc_UploadID claim \<Longrightarrow>
      triple (idle w\<^sub>0 d') (continue c) (ended w\<^sub>0)"
  shows "triple (idle w\<^sub>0 d) (renewing E claim lease p continue) (ended w\<^sub>0)"
  unfolding renewing_def
  by (intro vcg service_bind [OF service_renew [OF assms(1)]] assms retry_classes)
     (auto dest: arg_cong [of _ _ fc_UploadID])

text \<open>The name of a candidate is the digest of its bytes.\<close>

definition named_by_digest :: "string \<Rightarrow> trackedCandidate \<Rightarrow> bool" where
  "named_by_digest uid c = (tc_ObjectKey c = candidate_key_of uid (tc_SHA256 c))"

lemma matching_read_back:
  "S3Get (tc_ObjectKey c) (Inr snapshot) \<in> set es \<Longrightarrow> named_by_digest uid c \<Longrightarrow>
     candidateMatchesSnapshot c snapshot \<Longrightarrow> read_back es uid"
  unfolding read_back_def candidateMatchesSnapshot_def named_by_digest_def
  by (auto split: if_splits intro!: exI [of _ snapshot])

lemma verify_candidates_rule [vcg]:
  assumes "peers_ok E"
    and "\<And>w\<^sub>1 d' c. fc_UploadID c = fc_UploadID claim \<Longrightarrow> db_steps d d' \<Longrightarrow>
      triple (idle w\<^sub>1 d') (rest c) (ended w\<^sub>1)"
    and "\<And>c. c \<in> set tracked \<Longrightarrow> named_by_digest (fc_UploadID claim) c"
  shows "triple (idle w\<^sub>0 d) (verify_candidates E lease claim tracked rest) (ended w\<^sub>0)"
  using assms(2,3)
proof (induction tracked arbitrary: claim d w\<^sub>0)
  case Nil
  then show ?case by simp
next
  case (Cons c tracked)
  show ?case
    unfolding verify_candidates.simps
    by (intro vcg assms(1) Cons.IH retry_classes candidateMismatch_failure_ok)
       (use Cons.prems in \<open>auto intro: matching_read_back rtranclp_trans\<close>)
qed

lemma verify_published_rule [vcg]:
  assumes "peers_ok E" and "named_by_digest (fc_UploadID claim) c"
  shows "triple (idle w\<^sub>0 d) (verify_published E claim c putErr) (ended w\<^sub>0)"
  unfolding verify_published_def
  by (intro vcg assms(1) retry_classes candidateMismatch_failure_ok)
     (use assms(2) in \<open>auto intro: matching_read_back\<close>)

lemma decoder_mismatch_ok: "failure_ok (decoder_mismatch v)"
  by (simp add: decoder_mismatch_def failure_ok_def publicFailureCode_def registered_rejects)

lemma new_candidate_simps [simp]:
  "named_by_digest (fc_UploadID claim) (new_candidate claim v)"
  "tc_ObjectKey (new_candidate claim v) = candidate_key_of (fc_UploadID claim) (vi_SHA256 v)"
  by (simp_all add: named_by_digest_def new_candidate_def candidate_key_of_def)

lemma stored_later:
  "candidate_stored uid c d \<Longrightarrow> db_steps d d' \<Longrightarrow> tc_ObjectKey c \<in> c_object_key ` set (candidates d')"
  by (drule db_steps_keep_keys)
     (auto simp: candidate_stored_def keeps_keys_def candidate_of_row_def image_iff)

lemma publish_validated_rule [vcg]:
  assumes "peers_ok E" and "vi_SHA256 v = Sum256 (vi_Bytes v)"
  shows "triple (idle w\<^sub>0 d) (publish_validated E lease claim v) (ended w\<^sub>0)"
  unfolding publish_validated_def
  by (intro vcg service_bind [OF service_registerCandidate [OF assms(1)]] assms(1) retry_classes
      decoder_mismatch_ok)
     (use assms(2) in \<open>auto dest: stored_later\<close>)

lemma validate_staging_rule [vcg]:
  assumes "peers_ok E"
  shows "triple (idle w\<^sub>0 d) (validate_staging E lease claim staging) (ended w\<^sub>0)"
  unfolding validate_staging_def
  by (intro vcg assms)
     (auto intro: validateImageBytes_Inl dest!: validateImageBytes_Inr simp: valid_image_def)

lemma observe_staging_rule [vcg]:
  assumes "peers_ok E"
  shows "triple (idle w\<^sub>0 d) (observe_staging E lease tracked claim) (ended w\<^sub>0)"
  unfolding observe_staging_def
  by (intro vcg service_bind [OF service_prepareMissing [OF assms]] assms retry_classes) simp_all

lemma stored_named:
  "candidate_stored uid c d \<Longrightarrow> db_inv d \<Longrightarrow> named_by_digest uid c"
  by (auto simp: candidate_stored_def named_by_digest_def candidate_of_row_def db_inv_def tables_ok_def
      candidate_ok_def)

lemma stored_named_later:
  "candidate_stored uid c d'' \<Longrightarrow> db_steps d d' \<Longrightarrow> db_steps d' d'' \<Longrightarrow> db_inv d \<Longrightarrow> named_by_digest uid c"
  by (blast intro: stored_named store.steps_inv)

lemma sound_processNext:
  assumes "peers_ok E"
  shows "sound (processNext E lease)"
proof -
  have "triple (idle w\<^sub>0 d) (processNext E lease) (ended w\<^sub>0)" if "db_inv d" for w\<^sub>0 d
    unfolding processNext_def
    by (intro vcg service_bind [OF service_claimNext [OF assms]] service_bind [OF service_load [OF assms]]
        assms retry_classes)
       (auto intro: stored_named_later that)
  then show ?thesis by (simp add: sound_def)
qed

interpretation finalizer: worker "\<lambda>E lease. finalizer_turn E (processNext E lease)"
proof
  fix E :: environment and lease
  assume "peers_ok E"
  then show "sound (finalizer_turn E (processNext E lease))"
    unfolding finalizer_turn_def
    by (subst sound_def) (intro allI impI vcg sound_bind [OF sound_processNext] ctx_tail; simp)
qed

end
