(* ===== verification/Cleanup.thy ===== *)
theory Cleanup
  imports Claims
begin

section \<open>Cleanup of abandoned objects\<close>

text \<open>
  Models \<^verbatim>\<open>cleanup.go\<close>: reserving the next due tombstone, deleting its object, recording the result
  with the next attempt, the gauges, the sweep and the maintenance loop that alternates with the
  expiry sweep.  A reservation is the row's lease; the contracts say that an object is deleted only
  under a recorded duty.
\<close>

definition cleanupBatchSize :: nat where "cleanupBatchSize = 10"
definition cleanupProtectiveInterval :: duration where "cleanupProtectiveInterval = 24 * hour"

record cleanupReservation =
  cl_UploadID :: string
  cl_ObjectKey :: string
  cl_TargetKind :: string
  cl_Token :: string
  cl_ExpiresAt :: time
  cl_FailureStreak :: int

record cleanupUpdate =
  cu_FailureStreak :: int
  cu_Delay :: duration
  cu_LastAttemptAt :: time
  cu_NextAttemptAt :: time
  cu_Result :: string

record cleanupSnapshot =
  cs_Due :: int
  cs_OldestDueAge :: int
  cs_SnapshotUnixTime :: int

definition reservation_of_row :: "tombstone_row \<Rightarrow> string \<Rightarrow> time \<Rightarrow> cleanupReservation" where
  "reservation_of_row t token expiresAt =
     \<lparr>cl_UploadID = t_upload_id t, cl_ObjectKey = t_object_key t,
      cl_TargetKind = (if t_candidate_sha256 t = None then ''staging'' else ''candidate''),
      cl_Token = token, cl_ExpiresAt = expiresAt, cl_FailureStreak = t_failure_streak t\<rparr>"

subsection \<open>Reserving\<close>

definition lock_next_due :: "environment \<Rightarrow> nat \<Rightarrow> time \<Rightarrow> db \<Rightarrow> go_error + tombstone_row" where
  "lock_next_due E k now d =
     (case next_due_tombstone (env_locked E k) now d of None \<Rightarrow> Inl errNoRows | Some t \<Rightarrow> Inr t)"

definition select_reservation ::
  "string \<Rightarrow> string \<Rightarrow> time \<Rightarrow> db \<Rightarrow> go_error + cleanupReservation" where
  "select_reservation key token now d =
     (case find (\<lambda>t. t_object_key t = key \<and> t_reservation_token t = Some token \<and>
                    after_now (t_reservation_expires_at t) now \<and> \<not> is_final_key d t) (tombstones d) of
        None \<Rightarrow> Inl errNoRows
      | Some t \<Rightarrow> map_sum id (reservation_of_row t token) (scan_null (t_reservation_expires_at t)))"

definition confirmCleanupReservation ::
  "environment \<Rightarrow> cleanupReservation \<Rightarrow> (world, go_error + cleanupReservation option) state" where
  "confirmCleanupReservation E expected = do {
     row \<leftarrow> pool_query E (select_reservation (cl_ObjectKey expected) (cl_Token expected));
     State_Monad.return (row_or_absent row) }"

definition reserveNextCleanup :: "environment \<Rightarrow> (world, go_error + cleanupReservation option) state" where
  "reserveNextCleanup E = do {
     generated \<leftarrow> newUploadUUID E;
     case generated of
       Inl err \<Rightarrow> State_Monad.return (Inl err)
     | Inr token \<Rightarrow> deferring_rollback (do {
         began \<leftarrow> beginUploadTransaction E;
         case began of
           Inl err \<Rightarrow> State_Monad.return (Inl err)
         | Inr t0 \<Rightarrow> do {
             row \<leftarrow> query_sql E (lock_next_due E) t0;
             case row of
               Inl err \<Rightarrow> State_Monad.return (if errors_Is err ErrNoRows then Inr None else Inl err)
             | Inr t \<Rightarrow> do {
                 clock \<leftarrow> select_clock E t0;
                 case clock of
                   Inl err \<Rightarrow> State_Monad.return (Inl err)
                 | Inr databaseNow \<Rightarrow> do {
                     let reservation =
                       reservation_of_row t token (databaseNow + cleanupReservationLease);
                     updated \<leftarrow> exec_sql E (\<lambda>_. sql_reserve (cl_ObjectKey reservation)
                                   (cl_Token reservation) (cl_ExpiresAt reservation) databaseNow) t0;
                     case updated of
                       Inl err \<Rightarrow> State_Monad.return (Inl err)
                     | Inr (n, t1) \<Rightarrow>
                         (if n \<noteq> 1 then State_Monad.return (Inr None)
                          else do {
                            committed \<leftarrow> commit_tx E t1;
                            case committed of
                              None \<Rightarrow> State_Monad.return (Inr (Some reservation))
                            | Some err \<Rightarrow> confirmCleanupReservation E reservation }) } } } }) }"

subsection \<open>Recording the result\<close>

definition lock_reserved_streak :: "string \<Rightarrow> string \<Rightarrow> nat \<Rightarrow> time \<Rightarrow> db \<Rightarrow> go_error + int" where
  "lock_reserved_streak key token k now d =
     (case find (\<lambda>t. t_object_key t = key \<and> t_reservation_token t = Some token) (tombstones d) of
        None \<Rightarrow> Inl errNoRows | Some t \<Rightarrow> Inr (t_failure_streak t))"

definition cleanup_update :: "int \<Rightarrow> time \<Rightarrow> string \<Rightarrow> string \<Rightarrow> cleanupUpdate" where
  "cleanup_update previousStreak databaseNow result errorClass =
     (let streak = (if errorClass \<noteq> '''' then previousStreak + 1 else 0);
          delay = (if errorClass \<noteq> '''' then cleanupRetryDelay streak errorClass
                   else cleanupProtectiveInterval)
      in \<lparr>cu_FailureStreak = streak, cu_Delay = delay, cu_LastAttemptAt = databaseNow,
          cu_NextAttemptAt = databaseNow + delay, cu_Result = result\<rparr>)"

definition cleanup_confirmed :: "cleanupUpdate \<Rightarrow> tombstone_row \<Rightarrow> go_error + bool" where
  "cleanup_confirmed expected t =
     (case (t_last_attempt_at t, t_last_result t) of
        (Some lastAttempt, Some result) \<Rightarrow>
          Inr (t_failure_streak t = cu_FailureStreak expected \<and>
               lastAttempt = cu_LastAttemptAt expected \<and>
               t_next_attempt_at t = cu_NextAttemptAt expected \<and> result = cu_Result expected \<and>
               t_reservation_token t = None \<and> t_reservation_expires_at t = None)
      | _ \<Rightarrow> Inl (errors_New (ErrText ''cannot scan NULL'')))"

definition select_cleanup_result :: "string \<Rightarrow> cleanupUpdate \<Rightarrow> time \<Rightarrow> db \<Rightarrow> go_error + bool" where
  "select_cleanup_result key expected now d =
     (case find_tombstone key d of None \<Rightarrow> Inl errNoRows | Some t \<Rightarrow> cleanup_confirmed expected t)"

definition confirmCleanupResult ::
  "environment \<Rightarrow> string \<Rightarrow> cleanupUpdate \<Rightarrow> (world, go_error + bool) state" where
  "confirmCleanupResult E key expected = do {
     row \<leftarrow> pool_query E (select_cleanup_result key expected);
     State_Monad.return (confirmed_or_absent row) }"

text \<open>\<open>Some\<close> update when it was applied.\<close>

definition applyCleanupResult ::
  "environment \<Rightarrow> cleanupReservation \<Rightarrow> string \<Rightarrow> string
     \<Rightarrow> (world, go_error + cleanupUpdate option) state" where
  "applyCleanupResult E reservation result errorClass = deferring_rollback (do {
     began \<leftarrow> beginUploadTransaction E;
     case began of
       Inl err \<Rightarrow> State_Monad.return (Inl err)
     | Inr t0 \<Rightarrow> do {
         row \<leftarrow> query_sql E (lock_reserved_streak (cl_ObjectKey reservation) (cl_Token reservation)) t0;
         case row of
           Inl err \<Rightarrow> State_Monad.return (if errors_Is err ErrNoRows then Inr None else Inl err)
         | Inr previousStreak \<Rightarrow> do {
             clock \<leftarrow> select_clock E t0;
             case clock of
               Inl err \<Rightarrow> State_Monad.return (Inl err)
             | Inr databaseNow \<Rightarrow> do {
                 let upd = cleanup_update previousStreak databaseNow result errorClass;
                 updated \<leftarrow> exec_sql E (\<lambda>_. sql_cleanup_result (cl_ObjectKey reservation)
                   (cl_Token reservation) (cu_NextAttemptAt upd) (cu_FailureStreak upd)
                   (cu_LastAttemptAt upd) (cu_Result upd)) t0;
                 case updated of
                   Inl err \<Rightarrow> State_Monad.return (Inl err)
                 | Inr (n, t1) \<Rightarrow>
                     (if n \<noteq> 1 then State_Monad.return (Inr None)
                      else do {
                        committed \<leftarrow> commit_tx E t1;
                        case committed of
                          None \<Rightarrow> State_Monad.return (Inr (Some upd))
                        | Some err \<Rightarrow> do {
                            confirmed \<leftarrow> confirmCleanupResult E (cl_ObjectKey reservation) upd;
                            State_Monad.return (map_sum id (\<lambda>ok. if ok then Some upd else None)
                              confirmed) } }) } } } })"

subsection \<open>One removal\<close>

definition cleanup_start :: "cleanupReservation \<Rightarrow> (string \<times> attribute) list" where
  "cleanup_start r =
     [(''upload_id'', AStr (cl_UploadID r)), (''target_kind'', AStr (cl_TargetKind r)),
      (''edge'', AStr ''start''), (''failure_streak'', AInt (cl_FailureStreak r))]"

definition cleanup_finish ::
  "cleanupReservation \<Rightarrow> string \<Rightarrow> cleanupUpdate option \<Rightarrow> (string \<times> attribute) list" where
  "cleanup_finish r logOutcome applied =
     [(''upload_id'', AStr (cl_UploadID r)), (''target_kind'', AStr (cl_TargetKind r)),
      (''edge'', AStr ''finish''), (''outcome'', AStr logOutcome),
      (''failure_streak'', AInt (case applied of None \<Rightarrow> cl_FailureStreak r | Some upd \<Rightarrow> cu_FailureStreak upd)),
      (''result_applied'', ABool (applied \<noteq> None))] @
     (case applied of None \<Rightarrow> [] | Some upd \<Rightarrow> [(''next_attempt_at'', ATime (cu_NextAttemptAt upd))])"

definition cleanup_retry_attributes ::
  "cleanupReservation \<Rightarrow> string \<Rightarrow> cleanupUpdate \<Rightarrow> (string \<times> attribute) list" where
  "cleanup_retry_attributes r errorClass upd =
     [(''upload_id'', AStr (cl_UploadID r)), (''retry_owner'', AStr ''cleanup''),
      (''phase'', AStr ''delete''), (''error_class'', AStr errorClass),
      (''failure_streak'', AInt (cu_FailureStreak upd)),
      (''delay_ms'', AInt (milliseconds (cu_Delay upd))),
      (''next_attempt_at'', ATime (cu_NextAttemptAt upd))]"

text \<open>\<^verbatim>\<open>processNext\<close> of the cleanup worker: (attempted, failed, error).\<close>

definition cleanupNext :: "environment \<Rightarrow> (world, bool \<times> bool \<times> go_error option) state" where
  "cleanupNext E = do {
     reserved \<leftarrow> reserveNextCleanup E;
     case reserved of
       Inl err \<Rightarrow> State_Monad.return (False, False, Some err)
     | Inr found \<Rightarrow>
         (case found of
            None \<Rightarrow> State_Monad.return (False, False, None)
          | Some reservation \<Rightarrow> do {
              metric_add ''cleanup_attempts_total'' '''';
              log_info ''cleanup.delete'' (cleanup_start reservation);
              deleteErr \<leftarrow> deleteS3Object E (cl_ObjectKey reservation);
              stopped \<leftarrow> ctx_Err E;
              let (result, logOutcome, errorClass) = classifyCleanupDelete stopped deleteErr;
              applied \<leftarrow> applyCleanupResult E reservation result errorClass;
              log_info ''cleanup.delete''
                (cleanup_finish reservation logOutcome (case applied of Inl _ \<Rightarrow> None | Inr u \<Rightarrow> u));
              case applied of
                Inl applyErr \<Rightarrow> State_Monad.return (True, errorClass \<noteq> '''', Some applyErr)
              | Inr update \<Rightarrow>
                  (case update of
                     None \<Rightarrow> State_Monad.return (True, errorClass \<noteq> '''', None)
                   | Some upd \<Rightarrow> do {
                       metric_add ''cleanup_outcomes_total'' result;
                       (if errorClass \<noteq> '''' then do {
                          metric_add ''retries_scheduled_total'' (''cleanup_'' @ errorClass);
                          log_info ''retry.scheduled'' (cleanup_retry_attributes reservation errorClass upd);
                          State_Monad.return (True, True, None) }
                        else State_Monad.return (True, False, None)) }) }) }"

subsection \<open>Gauges\<close>

text \<open>The conditions of one row and the two columns of the result each call the volatile \<^verbatim>\<open>clock_timestamp()\<close>: the
  row at position \<open>i\<close> is judged by the readings \<open>3 i\<close> to \<open>3 i + 2\<close>, and two more readings follow the last row.\<close>

definition due_by :: "db \<Rightarrow> (nat \<Rightarrow> time) \<Rightarrow> nat \<Rightarrow> tombstone_row \<Rightarrow> bool" where
  "due_by d clock i t =
     (t_delete_not_before t \<le> clock (3 * i) \<and> t_next_attempt_at t \<le> clock (3 * i + 1) \<and>
      (t_reservation_token t = None \<or> by_now (t_reservation_expires_at t) (clock (3 * i + 2))) \<and> \<not> is_final_key d t)"

definition due_tombstones :: "(nat \<Rightarrow> time) \<Rightarrow> db \<Rightarrow> tombstone_row list" where
  "due_tombstones clock d = map snd (filter (\<lambda>(i, t). due_by d clock i t) (enumerate 0 (tombstones d)))"

definition select_snapshot :: "(nat \<Rightarrow> time) \<Rightarrow> db \<Rightarrow> nat \<times> (go_error + cleanupSnapshot)" where
  "select_snapshot clock d =
     (let due = due_tombstones clock d; n = 3 * length (tombstones d)
      in (n + 2, Inr \<lparr>cs_Due = int (length due),
              cs_OldestDueAge = (if due = [] then 0
                else (clock n - Min (set (map t_next_attempt_at due))) div second),
              cs_SnapshotUnixTime = clock (n + 1) div second\<rparr>))"

definition metric_value :: "string \<Rightarrow> string \<Rightarrow> (world, int) state" where
  "metric_value m k = State (\<lambda>w.
     case counters w (m, k) of None \<Rightarrow> (0, w\<lparr>panicked := True\<rparr>) | Some n \<Rightarrow> (n, w))"

definition refreshCleanupGauges :: "environment \<Rightarrow> (world, go_error + cleanupSnapshot) state" where
  "refreshCleanupGauges E = do {
     row \<leftarrow> pool_query_clocked E select_snapshot;
     case row of
       Inl err \<Rightarrow> State_Monad.return (Inl err)
     | Inr snapshot \<Rightarrow> do {
         metric_update ''cleanup_due'' '''' (\<lambda>_. cs_Due snapshot);
         metric_update ''cleanup_oldest_due_age_seconds'' '''' (\<lambda>_. cs_OldestDueAge snapshot);
         metric_update ''cleanup_snapshot_unix_seconds'' '''' (\<lambda>_. cs_SnapshotUnixTime snapshot);
         State_Monad.return (Inr snapshot) } }"

subsection \<open>The sweep\<close>

text \<open>\<open>remaining\<close> is what the batch still allows; the counters are (processed, errors).\<close>

fun cleanup_rounds :: "environment \<Rightarrow> nat \<Rightarrow> nat \<Rightarrow> nat \<Rightarrow> (world, nat \<times> nat) state" where
  "cleanup_rounds E 0 processed errors = State_Monad.return (processed, errors)"
| "cleanup_rounds E (Suc remaining) processed errors = do {
     (attempted, failed, err) \<leftarrow> cleanupNext E;
     let processed = (if attempted then Suc processed else processed);
     let errors = (if failed then Suc errors else errors);
     case err of
       Some _ \<Rightarrow> State_Monad.return (processed, if failed then errors else Suc errors)
     | None \<Rightarrow>
         (if \<not> attempted then State_Monad.return (processed, errors)
          else cleanup_rounds E remaining processed errors) }"

definition sweepCleanup :: "environment \<Rightarrow> (world, nat \<times> nat) state" where
  "sweepCleanup E = do {
     started \<leftarrow> time_Now E;
     (processed, errorCount) \<leftarrow> cleanup_rounds E cleanupBatchSize 0 0;
     lastDueAge \<leftarrow> metric_value ''cleanup_oldest_due_age_seconds'' '''';
     refreshed \<leftarrow> refreshCleanupGauges E;
     let errorCount = (case refreshed of Inl _ \<Rightarrow> Suc errorCount | Inr _ \<Rightarrow> errorCount);
     let oldestDueAge = (case refreshed of Inl _ \<Rightarrow> lastDueAge | Inr snapshot \<Rightarrow> cs_OldestDueAge snapshot);
     now \<leftarrow> time_Now E;
     log_info ''maintenance.sweep_finished''
       [(''phase'', AStr ''cleanup''), (''processed'', AInt (int processed)),
        (''errors'', AInt (int errorCount)), (''batch_full'', ABool (processed = cleanupBatchSize)),
        (''duration_ms'', AInt (milliseconds (now - started))),
        (''oldest_due_age_seconds'', AInt oldestDueAge)];
     State_Monad.return (processed, errorCount) }"

definition maintenance_sweep :: "environment \<Rightarrow> (world, unit) state" where
  "maintenance_sweep E = do {
     sweepPendingExpiries E;
     stopped \<leftarrow> ctx_Err E;
     (if stopped then State_Monad.return ()
      else do { sweepCleanup E; State_Monad.return () }) }"

definition runMaintenance :: "environment \<Rightarrow> world \<Rightarrow> world option" where
  "runMaintenance E = runMaintenanceLoop E (maintenance_sweep E)"

subsection \<open>Contracts\<close>

definition reservation_held :: "cleanupReservation \<Rightarrow> db \<Rightarrow> bool" where
  "reservation_held r d =
     (\<exists>t\<in>set (tombstones d). t_object_key t = cl_ObjectKey r \<and>
        t_reservation_token t = Some (cl_Token r) \<and>
        (\<exists>e. t_reservation_expires_at t = Some e \<and> timestamptz e = timestamptz (cl_ExpiresAt r)))"

text \<open>A reservation as it was taken: it carries the columns of the row it holds, whose object nobody publishes;
  and, unless a commit was answered with an error, it ends a lease after a reading of the server's clock.\<close>

definition reservation_taken :: "environment \<Rightarrow> cleanupReservation \<Rightarrow> db \<Rightarrow> bool" where
  "reservation_taken E r d =
     ((\<exists>t\<in>set (tombstones d). r = reservation_of_row t (cl_Token r) (cl_ExpiresAt r) \<and> \<not> is_final_key d t \<and>
         t_reservation_token t = Some (cl_Token r) \<and> t_reservation_expires_at t = Some (cl_ExpiresAt r)) \<and>
      ((\<exists>k. cl_ExpiresAt r = server_clock E k + cleanupReservationLease) \<or> (\<exists>k. env_commit E k \<noteq> CommitOk)))"

definition cleanup_recorded :: "string \<Rightarrow> cleanupUpdate \<Rightarrow> db \<Rightarrow> bool" where
  "cleanup_recorded key upd d =
     (\<exists>t\<in>set (tombstones d). t_object_key t = key \<and> t_reservation_token t = None \<and>
        t_failure_streak t = cu_FailureStreak upd \<and> t_last_attempt_at t = Some (cu_LastAttemptAt upd) \<and>
        t_last_result t = Some (cu_Result upd) \<and> t_next_attempt_at t = cu_NextAttemptAt upd)"

lemma reservation_of_row_simps [simp]:
  "cl_ObjectKey (reservation_of_row t token e) = t_object_key t"
  "cl_UploadID (reservation_of_row t token e) = t_upload_id t"
  "cl_Token (reservation_of_row t token e) = token" "cl_ExpiresAt (reservation_of_row t token e) = e"
  by (simp_all add: reservation_of_row_def)

lemma update_tombstones_ex:
  assumes "update_tombstones p f d = Inr (Suc 0, d')"
    and "\<And>t. t \<in> set (tombstones d) \<Longrightarrow> p t \<Longrightarrow> Q (f t)"
  shows "\<exists>t\<in>set (tombstones d'). Q t"
proof -
  have "length (filter p (tombstones d)) = Suc 0"
    using update_tombstones_Inr(1) [OF assms(1)] by simp
  then obtain t where "t \<in> set (filter p (tombstones d))"
    by (cases "filter p (tombstones d)") auto
  then have "t \<in> set (tombstones d)" and "p t" by auto
  moreover from this have "f t \<in> set (tombstones d')"
    by (auto simp: update_tombstones_Inr(2) [OF assms(1)])
  ultimately show ?thesis using assms(2) by blast
qed

lemma reserve_step:
  assumes "lock_next_due E k now d = Inr t" and "timestamptz databaseNow = databaseNow"
    and upd: "sql_reserve (t_object_key t) token (databaseNow + cleanupReservationLease) databaseNow d
      = Inr (Suc 0, d')"
  shows "db_steps d d'"
    and "reservation_held (reservation_of_row t token (databaseNow + cleanupReservationLease)) d'"
proof -
  from assms(1) have due: "next_due_tombstone (env_locked E k) now d = Some t"
    by (auto simp: lock_next_due_def split: option.splits)
  show "db_steps d d'"
    using step_reserve [OF due assms(2) upd [folded One_nat_def]] by blast
  from upd [unfolded sql_reserve_def]
  show "reservation_held (reservation_of_row t token (databaseNow + cleanupReservationLease)) d'"
    unfolding reservation_held_def by (rule update_tombstones_ex) simp
qed

lemma service_confirmCleanupReservation:
  assumes "peers_ok E"
  shows "service (confirmCleanupReservation E r)
    (\<lambda>x d. \<forall>r'. x = Inr (Some r') \<longrightarrow> reservation_held r' d)"
proof -
  have "reservation_held r' d" if "select_reservation key token now d = Inr r'" for key token now d r'
    using that unfolding select_reservation_def reservation_held_def scan_null_def
    by (auto split: option.splits dest!: find_SomeD intro!: bexI)
  then show ?thesis
    unfolding confirmCleanupReservation_def
    by (intro vcg service_bind [OF service_pool_query [OF assms]]) auto
qed

lemma service_reserveNextCleanup:
  assumes "peers_ok E"
  shows "service (reserveNextCleanup E) (\<lambda>x d. \<forall>r. x = Inr (Some r) \<longrightarrow> reservation_held r d)"
  unfolding reserveNextCleanup_def
  by (intro vcg assms service_tail [OF service_confirmCleanupReservation [OF assms]])
     (auto intro: reserve_step [OF _ server_clock_whole] simp: Let_def)

lemma reserve_taken:
  assumes inv: "db_inv d" and "lock_next_due E k now d = Inr t" and clock: "databaseNow = server_clock E j"
    and upd: "sql_reserve (t_object_key t) token (databaseNow + cleanupReservationLease) databaseNow d
      = Inr (Suc 0, d')"
  shows "reservation_taken E (reservation_of_row t token (databaseNow + cleanupReservationLease)) d'"
proof -
  from assms(2) have t: "t \<in> set (tombstones d)"
    by (auto simp: lock_next_due_def dest: next_due_tombstone_SomeD split: option.splits)
  have keys: "distinct (map t_object_key (tombstones d))" using inv by (simp add: db_inv_def tables_ok_def)
  have same: "uploads d' = uploads d"
    using update_tombstones_Inr(2) [OF upd [unfolded sql_reserve_def]] by simp
  let ?f = "\<lambda>t. t\<lparr>t_reservation_token := Some token,
    t_reservation_expires_at := Some (timestamptz (databaseNow + cleanupReservationLease))\<rparr>"
  from upd [unfolded sql_reserve_def]
  have "\<exists>x\<in>set (tombstones d'). \<exists>y\<in>set (tombstones d). t_object_key y = t_object_key t \<and>
      tombstone_due d databaseNow y \<and> x = ?f y"
    by (rule update_tombstones_ex) blast
  then obtain y where y: "y \<in> set (tombstones d)" "t_object_key y = t_object_key t" "tombstone_due d databaseNow y"
    "?f y \<in> set (tombstones d')" by blast
  have "y = t" using y(1,2) t keys by (auto simp: distinct_map dest: inj_onD)
  then have "\<exists>t'\<in>set (tombstones d'). reservation_of_row t token (databaseNow + cleanupReservationLease) =
        reservation_of_row t' token (databaseNow + cleanupReservationLease) \<and> \<not> is_final_key d' t' \<and>
      t_reservation_token t' = Some token \<and>
      t_reservation_expires_at t' = Some (databaseNow + cleanupReservationLease)"
    using y(3) lease_whole [of databaseNow] clock by (intro bexI [OF _ y(4)]) (simp add: reservation_of_row_def is_final_key_def same tombstone_due_def)
  then show ?thesis unfolding reservation_taken_def by (auto simp: clock)
qed

lemma service_confirmTaken:
  assumes "peers_ok E" and "env_commit E k \<noteq> CommitOk"
  shows "service (confirmCleanupReservation E r)
    (\<lambda>x d. \<forall>r'. x = Inr (Some r') \<longrightarrow> reservation_taken E r' d)"
proof -
  have "reservation_taken E r' d" if "select_reservation key token now d = Inr r'" for key token now d r'
    using that assms(2) unfolding select_reservation_def reservation_taken_def scan_null_def
    by (auto split: option.splits dest!: find_SomeD intro!: bexI)
  then show ?thesis
    unfolding confirmCleanupReservation_def
    by (intro vcg service_bind [OF service_pool_query [OF assms(1)]]) auto
qed

lemma triple_reserveNextCleanup:
  assumes "peers_ok E" and "db_inv d"
  shows "triple (idle w\<^sub>0 d) (reserveNextCleanup E)
    (closed w\<^sub>0 (\<lambda>x d'. \<forall>r. x = Inr (Some r) \<longrightarrow> reservation_taken E r d'))"
  unfolding reserveNextCleanup_def
  by (intro vcg assms service_tail [OF service_confirmTaken [OF assms(1)]])
     (auto intro: reserve_step [OF _ server_clock_whole] reserve_taken store.steps_inv [OF _ assms(2)] simp: Let_def)

lemma cleanup_delay_whole: "cu_Delay (cleanup_update streak now result errorClass) mod microsecond = 0"
  using cleanup_backoff.delay_whole
  by (simp add: cleanup_update_def Let_def cleanupProtectiveInterval_def)

lemma cleanup_update_next:
  assumes "timestamptz now = now"
  shows "timestamptz (cu_NextAttemptAt (cleanup_update streak now result errorClass)) =
    cu_NextAttemptAt (cleanup_update streak now result errorClass)"
proof -
  have "cu_NextAttemptAt (cleanup_update streak now result errorClass) =
      now + cu_Delay (cleanup_update streak now result errorClass)"
    by (simp add: cleanup_update_def Let_def)
  then show ?thesis
    using timestamptz_add [of now] timestamptz_whole [OF cleanup_delay_whole] assms by metis
qed

lemma cleanup_result_step:
  assumes "sql_cleanup_result key token (cu_NextAttemptAt upd) (cu_FailureStreak upd) (cu_LastAttemptAt upd)
      (cu_Result upd) d = Inr (Suc 0, d')"
  shows "db_steps d d'"
    and "timestamptz (cu_NextAttemptAt upd) = cu_NextAttemptAt upd \<Longrightarrow> cleanup_recorded key upd d'"
proof -
  show "db_steps d d'"
    using step_cleanup_result [OF assms [folded One_nat_def]] by blast
  assume "timestamptz (cu_NextAttemptAt upd) = cu_NextAttemptAt upd"
  with assms [unfolded sql_cleanup_result_def] show "cleanup_recorded key upd d'"
    unfolding cleanup_recorded_def by - (erule update_tombstones_ex, simp)
qed

lemma service_confirmCleanupResult:
  assumes "peers_ok E"
  shows "service (confirmCleanupResult E key upd) (\<lambda>r d. r = Inr True \<longrightarrow> cleanup_recorded key upd d)"
proof -
  have "cleanup_recorded key upd d" if "select_cleanup_result key upd now d = Inr True" for now d
    using that unfolding select_cleanup_result_def cleanup_confirmed_def cleanup_recorded_def
    by (auto split: option.splits dest!: find_tombstone_SomeD intro!: bexI)
  then show ?thesis
    unfolding confirmCleanupResult_def
    by (intro vcg service_bind [OF service_pool_query [OF assms]]) auto
qed

text \<open>An applied result is recorded; a failure waits for the backoff, a success for a whole day.\<close>

definition result_applied :: "cleanupReservation \<Rightarrow> string \<Rightarrow> string \<Rightarrow> cleanupUpdate \<Rightarrow> db \<Rightarrow> bool" where
  "result_applied r result errorClass upd d =
     (cleanup_recorded (cl_ObjectKey r) upd d \<and> cu_Result upd = result \<and>
      cu_NextAttemptAt upd = cu_LastAttemptAt upd + cu_Delay upd \<and>
      (if errorClass = '''' then cu_FailureStreak upd = 0 \<and> cu_Delay upd = 24 * hour
       else cu_Delay upd = cleanupRetryDelay (cu_FailureStreak upd) errorClass))"

lemma result_applied_update:
  "cleanup_recorded (cl_ObjectKey r) (cleanup_update streak now result errorClass) d \<Longrightarrow>
     result_applied r result errorClass (cleanup_update streak now result errorClass) d"
  by (simp add: result_applied_def cleanup_update_def Let_def cleanupProtectiveInterval_def)

lemma result_applied_step:
  assumes "sql_cleanup_result (cl_ObjectKey r) token (cu_NextAttemptAt upd) (cu_FailureStreak upd)
      (cu_LastAttemptAt upd) (cu_Result upd) d = Inr (Suc 0, d')"
    and "upd = cleanup_update streak now result errorClass" and "timestamptz now = now"
  shows "result_applied r result errorClass upd d'"
  using result_applied_update [OF cleanup_result_step(2) [OF assms(1) [unfolded assms(2)]]]
    cleanup_update_next [OF assms(3)] assms(2) by simp

lemma service_applyCleanupResult:
  assumes "peers_ok E"
  shows "service (applyCleanupResult E r result errorClass)
    (\<lambda>x d. \<forall>upd. x = Inr (Some upd) \<longrightarrow> result_applied r result errorClass upd d)"
  unfolding applyCleanupResult_def Let_def
  by (intro vcg service_bind [OF service_confirmCleanupResult [OF assms]] assms)
     (auto intro: cleanup_result_step result_applied_step result_applied_update split: if_splits)

lemma reserved_key: "reservation_held r d \<Longrightarrow> cl_ObjectKey r \<in> t_object_key ` set (tombstones d)"
  unfolding reservation_held_def by (metis imageI)

lemma quiet_attributes [simp]:
  "\<not> announces_ready (''cleanup.delete'', attrs)" "\<not> announces_ready (''retry.scheduled'', attrs)"
  by simp_all

lemma cleanup_names:
  assumes "(result, logOutcome, errorClass) = classifyCleanupDelete c err"
  shows "result \<in> set cleanup_outcomes" and "errorClass \<noteq> '''' \<Longrightarrow> errorClass \<in> set error_classes"
  using assms [symmetric] by (auto elim!: classifyCleanupDelete_cases)

lemma service_cleanupNext:
  assumes "peers_ok E"
  shows "service (cleanupNext E) (\<lambda>_ _. True)"
  unfolding cleanupNext_def
  by (intro vcg service_bind [OF service_reserveNextCleanup [OF assms]]
      service_bind [OF service_applyCleanupResult [OF assms]] registered_cleanup_gauges
      registered_cleanup_outcome registered_retry)
     (simp_all only: quiet_event quiet_attributes reserved_key cleanup_names simp_thms not_False_eq_True)

text \<open>
  What the gauges say.  The table is the one that is committed when the query runs; each row is judged between
  the earliest reading \<open>lo\<close> and the latest reading \<open>hi\<close> of the statement, so that everything due at \<open>lo\<close>
  is counted and nothing that is not due at \<open>hi\<close>.
\<close>

lemma due_by_between:
  assumes "\<And>j. j < 3 * i + 3 \<Longrightarrow> lo \<le> clock j \<and> clock j \<le> hi"
  shows "tombstone_due d lo t \<Longrightarrow> due_by d clock i t" and "due_by d clock i t \<Longrightarrow> tombstone_due d hi t"
proof -
  have c: "lo \<le> clock (3 * i + j) \<and> clock (3 * i + j) \<le> hi" if "j < 3" for j using that by (intro assms) simp
  note c = c [of 0, simplified] c [of 1, simplified] c [of 2, simplified]
  show "tombstone_due d lo t \<Longrightarrow> due_by d clock i t" "due_by d clock i t \<Longrightarrow> tombstone_due d hi t"
    using c by (auto simp: tombstone_due_def due_by_def by_now_def split: option.splits)
qed

lemma nths_enumerate:
  "map snd (filter (\<lambda>(i, x). P i x) (enumerate 0 xs)) = nths xs {i. i < length xs \<and> P i (xs ! i)}"
proof (induction xs rule: rev_induct)
  case (snoc x xs)
  have "nths xs {i. i < length (xs @ [x]) \<and> P i ((xs @ [x]) ! i)} = nths xs {i. i < length xs \<and> P i (xs ! i)}"
    unfolding nths_def by (intro arg_cong [where f = "map fst"] filter_cong refl) (auto simp: set_zip nth_append)
  with snoc show ?case by (simp add: enumerate_append_eq nths_append nth_append nths_singleton)
qed simp

lemma due_tombstones_nths:
  "due_tombstones clock d =
     nths (tombstones d) {i. i < length (tombstones d) \<and> due_by d clock i (tombstones d ! i)}"
  unfolding due_tombstones_def by (rule nths_enumerate)

definition gauges_show :: "cleanupSnapshot \<Rightarrow> (string \<times> string \<rightharpoonup> int) \<Rightarrow> bool" where
  "gauges_show s m =
     (m (''cleanup_due'', '''') = Some (cs_Due s) \<and>
      m (''cleanup_oldest_due_age_seconds'', '''') = Some (cs_OldestDueAge s) \<and>
      m (''cleanup_snapshot_unix_seconds'', '''') = Some (cs_SnapshotUnixTime s))"

lemma refresh_run:
  assumes "metrics_ready w" and "run_state (refreshCleanupGauges E) w = (Inr s, w')"
  shows "w_db w' = env_peers E (tick w) (w_db w)" and "gauges_show s (counters w')"
    and "select_snapshot (\<lambda>i. server_clock E (tick w + i)) (w_db w') = (tick w' - Suc (tick w), Inr s)"
    and "tick w < tick w'"
proof -
  obtain n1 n2 n3 where "counters w (''cleanup_due'', '''') = Some n1"
    "counters w (''cleanup_oldest_due_age_seconds'', '''') = Some n2"
    "counters w (''cleanup_snapshot_unix_seconds'', '''') = Some n3"
    using assms(1) registered_cleanup_gauges unfolding metrics_ready_def by (metis not_None_eq)
  then show "w_db w' = env_peers E (tick w) (w_db w)" "gauges_show s (counters w')"
    "select_snapshot (\<lambda>i. server_clock E (tick w + i)) (w_db w') = (tick w' - Suc (tick w), Inr s)" "tick w < tick w'"
    using assms(2)
    by (auto simp: refreshCleanupGauges_def pool_query_clocked_def next_tick_def run_peers_def current_db_def
        modify_def metric_update_def gauges_show_def Let_def split: prod.splits option.splits sum.splits)
qed

text \<open>What the snapshot says of the table, between two readings.\<close>

definition snapshot_within :: "db \<Rightarrow> time \<Rightarrow> time \<Rightarrow> cleanupSnapshot \<Rightarrow> bool" where
  "snapshot_within d lo hi s =
     (\<exists>I. (\<forall>i<length (tombstones d). (tombstone_due d lo (tombstones d ! i) \<longrightarrow> i \<in> I) \<and>
             (i \<in> I \<longrightarrow> tombstone_due d hi (tombstones d ! i))) \<and>
          cs_Due s = int (length (nths (tombstones d) I)) \<and>
          lo div second \<le> cs_SnapshotUnixTime s \<and> cs_SnapshotUnixTime s \<le> hi div second \<and>
          (if nths (tombstones d) I = [] then cs_OldestDueAge s = 0
           else \<exists>now oldest. lo \<le> now \<and> now \<le> hi \<and> oldest \<in> set (nths (tombstones d) I) \<and>
             (\<forall>t\<in>set (nths (tombstones d) I). t_next_attempt_at oldest \<le> t_next_attempt_at t) \<and>
             cs_OldestDueAge s = (now - t_next_attempt_at oldest) div second))"

text \<open>The readings of a statement lie between the least and the greatest of them.\<close>

lemma reading_bounds:
  fixes clock :: "nat \<Rightarrow> time"
  shows "\<exists>a b. a < Suc n \<and> b < Suc n \<and> (\<forall>j<Suc n. clock a \<le> clock j \<and> clock j \<le> clock b)"
proof -
  have fin: "finite (clock ` {..<Suc n})" "clock ` {..<Suc n} \<noteq> {}" by auto
  from Min_in [OF fin] Max_in [OF fin] obtain a b where "a < Suc n" "Min (clock ` {..<Suc n}) = clock a"
    "b < Suc n" "Max (clock ` {..<Suc n}) = clock b" by auto
  moreover have "Min (clock ` {..<Suc n}) \<le> clock j \<and> clock j \<le> Max (clock ` {..<Suc n})" if "j < Suc n" for j
    using that fin(1) by (auto intro!: Min_le Max_ge)
  ultimately show ?thesis by (intro exI [of _ a] exI [of _ b]) auto
qed

lemma snapshot_between:
  assumes "select_snapshot clock d = (n, Inr s)"
  shows "\<exists>a b. a < n \<and> b < n \<and> clock a \<le> clock b \<and> snapshot_within d (clock a) (clock b) s"
proof -
  let ?len = "length (tombstones d)" and ?due = "due_tombstones clock d"
  define I where "I = {i. i < ?len \<and> due_by d clock i (tombstones d ! i)}"
  have n: "n = Suc (3 * ?len + 1)" using assms by (simp add: select_snapshot_def Let_def)
  have s: "s = \<lparr>cs_Due = int (length ?due), cs_OldestDueAge = (if ?due = [] then 0
      else (clock (3 * ?len) - Min (set (map t_next_attempt_at ?due))) div second),
      cs_SnapshotUnixTime = clock (3 * ?len + 1) div second\<rparr>"
    using assms by (simp add: select_snapshot_def Let_def)
  obtain a b where ab: "a < n" "b < n" and c: "\<And>j. j < n \<Longrightarrow> clock a \<le> clock j \<and> clock j \<le> clock b"
    using reading_bounds [of "3 * ?len + 1" clock] unfolding n by blast
  have rows: "(tombstone_due d (clock a) (tombstones d ! i) \<longrightarrow> i \<in> I) \<and>
      (i \<in> I \<longrightarrow> tombstone_due d (clock b) (tombstones d ! i))" if "i < ?len" for i
  proof -
    have "clock a \<le> clock j \<and> clock j \<le> clock b" if "j < 3 * i + 3" for j
      using that \<open>i < ?len\<close> by (intro c) (simp add: n)
    from due_by_between [OF this] that show ?thesis by (auto simp: I_def)
  qed
  have due: "?due = nths (tombstones d) I" by (simp add: due_tombstones_nths I_def)
  have ends: "clock a \<le> clock (3 * ?len) \<and> clock (3 * ?len) \<le> clock b"
    "clock a \<le> clock (3 * ?len + 1) \<and> clock (3 * ?len + 1) \<le> clock b" by (intro c, simp add: n)+
  have age: "\<exists>oldest\<in>set ?due. (\<forall>t\<in>set ?due. t_next_attempt_at oldest \<le> t_next_attempt_at t) \<and>
      Min (set (map t_next_attempt_at ?due)) = t_next_attempt_at oldest" if "?due \<noteq> []"
  proof -
    have "Min (set (map t_next_attempt_at ?due)) \<in> set (map t_next_attempt_at ?due)" using that by (intro Min_in) auto
    then obtain t where "t \<in> set ?due" "Min (set (map t_next_attempt_at ?due)) = t_next_attempt_at t" by auto
    moreover have "Min (set (map t_next_attempt_at ?due)) \<le> t_next_attempt_at x" if "x \<in> set ?due" for x
      using that by (intro Min_le) auto
    ultimately show ?thesis by metis
  qed
  have "snapshot_within d (clock a) (clock b) s"
    unfolding snapshot_within_def
  proof (intro exI [of _ I] conjI)
    show "if nths (tombstones d) I = [] then cs_OldestDueAge s = 0
      else \<exists>now oldest. clock a \<le> now \<and> now \<le> clock b \<and> oldest \<in> set (nths (tombstones d) I) \<and>
        (\<forall>t\<in>set (nths (tombstones d) I). t_next_attempt_at oldest \<le> t_next_attempt_at t) \<and>
        cs_OldestDueAge s = (now - t_next_attempt_at oldest) div second"
    proof (cases "?due = []")
      case False
      from age [OF this] obtain oldest where "oldest \<in> set ?due"
        "\<forall>t\<in>set ?due. t_next_attempt_at oldest \<le> t_next_attempt_at t"
        "Min (set (map t_next_attempt_at ?due)) = t_next_attempt_at oldest" by blast
      with ends(1) False show ?thesis
        unfolding due [symmetric] by (auto simp: s intro!: exI [of _ "clock (3 * ?len)"] exI [of _ oldest])
    qed (simp add: s due [symmetric])
  qed (use rows ends(2) in \<open>simp_all add: s due [symmetric] zdiv_mono1\<close>)
  moreover have "clock a \<le> clock b" using c [OF ab(1)] by simp
  ultimately show ?thesis using ab by blast
qed

lemma service_refreshCleanupGauges:
  assumes "peers_ok E"
  shows "service (refreshCleanupGauges E) (\<lambda>_ _. True)"
  unfolding refreshCleanupGauges_def
  by (intro vcg assms registered_cleanup_gauges service_bind [OF service_pool_query_clocked]) simp_all

lemma steady_metric_value: "registered m k \<Longrightarrow> steady (metric_value m k) (\<lambda>_. True)"
  by (auto simp: steady_def metric_value_def wp svc_step_def metrics_ready_def audited_same
      split: option.splits)

lemma service_cleanup_rounds:
  "peers_ok E \<Longrightarrow> service (cleanup_rounds E remaining processed errors)
     (\<lambda>(n, e) _. n \<le> processed + remaining \<and> e \<le> errors + remaining)"
proof (induction remaining arbitrary: processed errors)
  case 0
  show ?case by (simp, intro vcg) simp
next
  case (Suc remaining)
  show ?case
    unfolding cleanup_rounds.simps
    by (intro vcg service_bind [OF service_cleanupNext] service_tail [OF Suc.IH] Suc.prems)
       (auto split: if_splits)
qed

lemma service_sweepCleanup:
  assumes "peers_ok E"
  shows "service (sweepCleanup E) (\<lambda>(n, e) _. n \<le> cleanupBatchSize \<and> e \<le> Suc cleanupBatchSize)"
  unfolding sweepCleanup_def
  by (intro vcg service_bind [OF service_cleanup_rounds] steady_bind [OF steady_metric_value]
      service_bind [OF service_refreshCleanupGauges] assms registered_cleanup_gauges)
     (auto split: sum.splits)

lemma service_maintenance_sweep:
  assumes "peers_ok E"
  shows "service (maintenance_sweep E) (\<lambda>_ _. True)"
  unfolding maintenance_sweep_def
  by (intro vcg service_bind [OF service_sweepPendingExpiries] service_bind [OF service_sweepCleanup] assms)
     simp_all

interpretation maintenance: worker "\<lambda>E (_::unit). maintenance_turn E (maintenance_sweep E)"
proof
  fix E :: environment and x :: unit
  assume "peers_ok E"
  then show "sound (maintenance_turn E (maintenance_sweep E))"
    by (intro sound_maintenance_turn service_sound [OF service_maintenance_sweep])
qed

end
