(* ===== verification/Scenario.thy ===== *)
theory Scenario
  imports Http Finalizer Cleanup
begin

section \<open>A concrete environment\<close>

text \<open>
  An environment in which nothing fails, with a clock that advances one minute at each reading, and
  the runs of the service's operations in it: an upload is created, completed, finalized, read and
  its staging object removed.  The runs are the concrete inputs at which the properties are applied.
\<close>

subsection \<open>The answers\<close>

definition epoch :: time where "epoch = unix_time 2026 1 1 0 0 0"

definition clock_at :: "nat \<Rightarrow> time" where "clock_at k = epoch + (int k - 10) * minute"

definition scenario_url :: "string \<Rightarrow> parsed_url option" where
  "scenario_url url = Some
     \<lparr>pu_Scheme = ''https'', pu_User = False, pu_Host = ''s3.example'', pu_Path = ''/'', pu_RawPath = '''',
      pu_ForceQuery = False, pu_RawQuery = ''X-Amz-Signature=f'', pu_Fragment = '''',
      pu_Query =
        [(''X-Amz-Expires'', [if HasPrefix url ''https://s3.example/put/'' then ''900'' else ''300'']),
         (''X-Amz-SignedHeaders'',
           [if HasPrefix url ''https://s3.example/put/'' then ''content-type;host'' else ''host'']),
         (''X-Amz-Date'', [''20260101T000000Z'']), (''X-Amz-Signature'', [''f''])]\<rparr>"

definition scenario :: environment where
  "scenario =
     \<lparr>env_clock = clock_at, env_wall = clock_at,
      env_peers = \<lambda>_ d. d, env_locked = \<lambda>_ _. False, env_begin = \<lambda>_. None, env_stmt = \<lambda>_. None,
      env_commit = \<lambda>_. CommitOk, env_rollback = \<lambda>_. None, env_rand = \<lambda>k. Inr (\<lambda>i. of_nat (k + i)),
      env_cancelled = \<lambda>k. 1000 \<le> k,
      env_get = \<lambda>_ _. GetObject (Some 3) [1, 2, 3] None None,
      env_put = \<lambda>_ _ _ _. None, env_delete = \<lambda>_ _. None,
      env_presign_put = \<lambda>_ key ctype. Inr (Some
        \<lparr>sg_Method = ''PUT'', sg_URL = ''https://s3.example/put/'' @ key,
         sg_SignedHeader = [(''Content-Type'', [ctype])]\<rparr>),
      env_presign_get = \<lambda>_ key. Inr (Some
        \<lparr>sg_Method = ''GET'', sg_URL = ''https://s3.example/get/'' @ key,
         sg_SignedHeader = [(''Host'', [''s3.example''])]\<rparr>),
      env_ping = \<lambda>_. None, env_head = \<lambda>_. None, env_url_Parse = scenario_url,
      env_DecodeConfig = \<lambda>_. Inr (''png'', 1, 1), env_Decode = \<lambda>_. Inr (''png'', 1, 1)\<rparr>"

lemma scenario_simps [simp]:
  "env_clock scenario = clock_at" "env_wall scenario = clock_at"
  "env_peers scenario k d = d" "env_locked scenario k = (\<lambda>_. False)" "env_begin scenario k = None"
  "env_stmt scenario k = None" "env_commit scenario k = CommitOk" "env_rollback scenario k = None"
  "env_put scenario k key raw ctype = None" "env_delete scenario k key = None"
  "env_get scenario k key = GetObject (Some 3) [1, 2, 3] None None"
  "env_DecodeConfig scenario raw = Inr (''png'', 1, 1)" "env_Decode scenario raw = Inr (''png'', 1, 1)"
  "env_cancelled scenario k = (1000 \<le> k)" "env_ping scenario k = None" "env_head scenario k = None"
  by (simp_all add: scenario_def)

lemma scenario_peers: "peers_ok scenario"
  by (simp add: peers_ok_def)

lemma epoch_value: "epoch = 1767225600000000000"
  unfolding epoch_def by code_simp

lemma timestamptz_epoch [simp]:
  "n mod 1000 = 0 \<Longrightarrow> timestamptz (epoch + n) = epoch + n" "timestamptz epoch = epoch"
proof -
  have e: "1000 dvd epoch" by (simp add: epoch_value)
  then show "timestamptz epoch = epoch" by (simp add: timestamptz_def)
  assume "n mod 1000 = 0"
  then have "1000 dvd n" by (rule mod_0_imp_dvd)
  with e have "1000 dvd epoch + n" by (rule dvd_add)
  then show "timestamptz (epoch + n) = epoch + n" by (simp add: timestamptz_def)
qed

lemma timestamptz_epoch' [simp]: "n mod 1000 = 0 \<Longrightarrow> timestamptz (n + epoch) = epoch + n"
  by (subst add.commute) (rule timestamptz_epoch)

lemma timestamptz_clock [simp]: "timestamptz (clock_at k) = clock_at k"
proof -
  have "(1000::int) dvd (int k - 10) * minute" by (rule dvd_mult) simp
  then show ?thesis unfolding clock_at_def by (simp add: dvd_eq_mod_eq_0)
qed

subsection \<open>Running primitive programs\<close>

definition world_at ::
  "db \<Rightarrow> nat \<Rightarrow> bool \<Rightarrow> s3_event list \<Rightarrow> log_event list \<Rightarrow> (string \<times> string \<Rightarrow> int) \<Rightarrow> world" where
  "world_at d k t es ls c =
     \<lparr>w_db = d, tick = k, tx_open = t, s3_in_tx = False, s3_events = es, logged = ls, counters = Some \<circ> c,
      panicked = False\<rparr>"

lemma world_at_simps [simp]:
  "w_db (world_at d k t es ls c) = d" "tick (world_at d k t es ls c) = k"
  "tx_open (world_at d k t es ls c) = t" "s3_events (world_at d k t es ls c) = es"
  "logged (world_at d k t es ls c) = ls" "counters (world_at d k t es ls c) = Some \<circ> c"
  by (simp_all add: world_at_def)

definition new_id :: "nat \<Rightarrow> string" where
  "new_id k = uuid_text (map (\<lambda>i. of_nat (k + i)) [0..<16])"

named_theorems run "what a program returns and leaves in the concrete environment"

lemma run_readings [run]:
  "run_state (ctx_Err scenario) (world_at d k t es ls c) = (1000 \<le> k, world_at d (Suc k) t es ls c)"
  "run_state (time_Now scenario) (world_at d k t es ls c) = (clock_at k, world_at d (Suc k) t es ls c)"
  "run_state (newUploadUUID scenario) (world_at d k t es ls c) = (Inr (new_id k), world_at d (Suc k) t es ls c)"
  "run_state (exec_sql scenario f x) (world_at d k t es ls c) =
     (f (clock_at k) x, world_at d (Suc k) t es ls c)"
  "run_state (query_sql scenario g x) (world_at d k t es ls c) =
     (g k (clock_at k) x, world_at d (Suc k) t es ls c)"
  "run_state (select_clock scenario x) (world_at d k t es ls c) =
     (Inr (clock_at k), world_at d (Suc k) t es ls c)"
  "run_state (pool_query scenario h) (world_at d k t es ls c) =
     (h (clock_at k) d, world_at d (Suc k) t es ls c)"
  by (simp_all add: ctx_Err_def time_Now_def newUploadUUID_def new_id_def exec_sql_def query_sql_def
      select_clock_def pool_query_def run_peers_def current_db_def modify_def next_tick_def world_at_def
      scenario_def)

lemma run_transactions [run]:
  "run_state (beginUploadTransaction scenario) (world_at d k t es ls c) =
     (Inr d, world_at d (Suc (Suc (Suc k))) True es ls c)"
  "run_state (commit_tx scenario x) (world_at d k t es ls c) = (None, world_at x (Suc k) False es ls c)"
  "run_state (rollback_tx scenario) (world_at d k t es ls c) = (None, world_at d (Suc k) False es ls c)"
  "run_state (set_tx_open b) (world_at d k t es ls c) = ((), world_at d k b es ls c)"
  by (simp_all add: beginUploadTransaction_def set_local_def commit_tx_def rollback_tx_def run_peers_def
      current_db_def set_tx_open_def modify_def next_tick_def world_at_def)

lemma run_deferring [run]:
  "run_state (deferring_rollback m) w =
     (case run_state m w of (r, w') \<Rightarrow> (r, snd (run_state (set_tx_open False) w')))"
  by (simp add: deferring_rollback_def set_tx_open_def modify_def split: prod.splits)

lemma run_outputs [run]:
  "run_state (log_info name attrs) (world_at d k t es ls c) = ((), world_at d k t es (ls @ [(name, attrs)]) c)"
  "run_state (metric_add m i) (world_at d k t es ls c) =
     ((), world_at d k t es ls (c((m, i) := c (m, i) + 1)))"
  "run_state (metric_update m i f) (world_at d k t es ls c) =
     ((), world_at d k t es ls (c((m, i) := f (c (m, i)))))"
  by (auto simp: log_info_def metric_add_def metric_update_def modify_def world_at_def)

text \<open>The signers.\<close>

lemma scenario_date: "parse_amz_date ''20260101T000000Z'' = Some epoch"
  unfolding epoch_def by code_simp

definition put_answer :: "string \<Rightarrow> string \<Rightarrow> uploadRequest" where
  "put_answer key ctype = \<lparr>rq_Method = ''PUT'', rq_URL = ''https://s3.example/put/'' @ key,
     rq_Headers = [(''Content-Type'', ctype)], rq_ExpiresAt = epoch + 15 * minute\<rparr>"

lemma put_answer_simps [simp]: "rq_ExpiresAt (put_answer key ctype) = epoch + 15 * minute"
  by (simp add: put_answer_def)

lemma HasPrefix_url:
  "HasPrefix (''https://s3.example/put/'' @ key) ''https://s3.example/put/''"
  "\<not> HasPrefix (''https://s3.example/get/'' @ key) ''https://s3.example/put/''"
  by (rule HasPrefix_append) (simp add: HasPrefix_def)

lemma run_presign_put [run]:
  "run_state (presignUploadPUT scenario True key ctype) (world_at d k t es ls c) =
     (Inr (put_answer key ctype), world_at d (Suc k) t es ls c)"
proof -
  have "accept_upload_signature scenario_url ctype (Some
      \<lparr>sg_Method = ''PUT'', sg_URL = ''https://s3.example/put/'' @ key,
       sg_SignedHeader = [(''Content-Type'', [ctype])]\<rparr>) = Inr (put_answer key ctype)"
    unfolding accept_upload_signature_def scenario_url_def HasPrefix_url
    by (simp add: IsAbs_def query_values_def header_values_def signed_expiry_def ParseInt64_windows
        scenario_date put_answer_def strings_Contains.simps HasPrefix_def strings_ToLower_def lower_char_def)
  then show ?thesis
    by (simp add: presignUploadPUT_def next_tick_def scenario_def world_at_def)
qed

definition get_answer :: "string \<Rightarrow> string \<times> time" where
  "get_answer key = (''https://s3.example/get/'' @ key, epoch + 5 * minute)"

lemma run_presign_get [run]:
  "run_state (presignContentGET scenario True key) (world_at d k t es ls c) =
     (Inr (get_answer key), world_at d (Suc k) t es ls c)"
proof -
  have "accept_content_signature scenario_url (Some
      \<lparr>sg_Method = ''GET'', sg_URL = ''https://s3.example/get/'' @ key,
       sg_SignedHeader = [(''Host'', [''s3.example''])]\<rparr>) = Inr (get_answer key)"
    unfolding accept_content_signature_def scenario_url_def 
    by (simp add: HasPrefix_def IsAbs_def query_values_def signed_expiry_def ParseInt64_windows scenario_date
        get_answer_def strings_EqualFold_def strings_ToLower_def lower_char_def)
  then show ?thesis
    by (simp add: presignContentGET_def next_tick_def scenario_def world_at_def)
qed

subsection \<open>A day of an upload\<close>

definition a_key :: string where "a_key = ''00000000-0000-4000-8000-000000000000''"

definition a_body :: string where "a_body = create_body (\<lambda>_. []) (''size_bytes'', decimal 3) (''content_type'', quoted ''image/png'')"

definition create_request :: http_request where
  "create_request =
     \<lparr>hr_Method = ''POST'', hr_Path = ''/uploads'',
      hr_Header = [(''Idempotency-Key'', [a_key]), (''Content-Type'', [''application/json''])],
      hr_Body = a_body, hr_BodyErr = None\<rparr>"

definition at_db :: "db \<Rightarrow> nat \<Rightarrow> world" where "at_db d k = world_at d k False [] [] (\<lambda>_. 0)"

lemma a_body_decoded:
  "decodeCreateUploadBody a_body =
     Some \<lparr>cc_IdempotencyKey = [], cc_SizeBytes = 3, cc_ContentType = ''image/png''\<rparr>"
  using decode_create_body [OF _ denotes_plain denotes_plain denotes_plain, of "\<lambda>_. []" "''image/png''" 3 _ _ "[]"]
  by (simp add: a_body_def spaced_def plain_char_def)

lemma a_body_short: "length a_body = 43"
  by (simp add: a_body_def create_body_def member_text_def quoted_def decimal_def decimal_nat.simps)

lemma a_key_valid: "idempotencyKeyPattern a_key"
  by (simp add: a_key_def idempotencyKeyPattern_def key_classes_def lower_hex_def numeral_nat)

definition pending_row :: upload_row where
  "pending_row = new_upload_row (new_id 11) a_key (staging_key_of (new_id 11)) 3 ''image/png''
     (epoch + 15 * minute) (epoch + 6 * minute)"

lemma pending_row_ok: "upload_ok pending_row"
  by (simp add: pending_row_def new_upload_row_def upload_ok_def max_declared_size_def clock_at_def
      reconcile_failure_ok_def rejection_phase_ok_def rejection_reason_ok_def state_shape_ok_def
      no_rejection_def max_int4_def)

definition pending_db :: db where "pending_db = \<lparr>uploads = [pending_row], candidates = [], tombstones = []\<rparr>"

lemma insert_pending:
  "insert_upload (new_upload_row (new_id 11) a_key (staging_key_of (new_id 11)) 3 ''image/png''
     (epoch + 900000000000) (epoch + 360000000000)) empty_db = Inr (1, pending_db)"
  using pending_row_ok by (simp add: insert_upload_def empty_db_def pending_db_def pending_row_def)

lemma clock_numeral [run]: "clock_at (numeral n) = epoch + (numeral n - 10) * minute"
  by (simp add: clock_at_def)

lemma run_clocked [run]:
  "run_state (pool_query_clocked scenario g) (world_at d k t es ls c) =
     (case g (\<lambda>i. clock_at (k + i)) d of (n, row) \<Rightarrow> (row, world_at d (Suc (k + n)) t es ls c))"
  by (simp add: pool_query_clocked_def run_peers_def current_db_def modify_def next_tick_def world_at_def
      server_clock_def scenario_def Let_def split: prod.split)

text \<open>What a program leaves: the database, the reading reached and the S3 calls made.\<close>

definition leaves :: "(world, 'a) state \<Rightarrow> world \<Rightarrow> ('a \<Rightarrow> log_event list \<Rightarrow> bool) \<Rightarrow> db \<Rightarrow> nat \<Rightarrow> s3_event list \<Rightarrow> bool" where
  "leaves m w P d k es = 
     (case run_state m w of (r, w') \<Rightarrow>
        P r (logged w') \<and> w_db w' = d \<and> tick w' = k \<and> s3_events w' = es \<and> \<not> tx_open w')"

lemmas [run] = leaves_def at_db_def Let_def

lemma at_db_simps [simp]:
  "w_db (at_db d k) = d" "tx_open (at_db d k) = False" "s3_events (at_db d k) = []" "logged (at_db d k) = []"
  by (simp_all add: at_db_def)

lemma leavesE:
  assumes "leaves m w P d k es"
  obtains r w' where "run_state m w = (r, w')" "P r (logged w')" "w_db w' = d" "s3_events w' = es" "\<not> tx_open w'"
  using assms that by (auto simp: leaves_def split: prod.splits)

lemmas serving_create = serveCreateUpload_def create_request_def wired_def a_key_valid header_values_def
  read_limited_def maxCreateUploadBodyBytes_def a_body_short a_body_decoded valid_declaration_def
  maxUploadSizeBytes_def perform_create_def createOrReplayUpload_def sql_insert_upload_def insert_pending
  log_created_def log_capability_def with_capability_def created_response_def

lemma run_create:
  "leaves (ServeHTTP scenario (wired scenario False) create_request) (at_db empty_db 10)
     (\<lambda>w _. rc_status w = 201) pending_db 20 []"
  by (simp add: ServeHTTP_def applicationRoute_def operationalRoute_def run HasPrefix_def dispatch_def
      allowed_method_def serving_create)

lemma new_upload_id: "u_upload_id (new_upload_row uid key stagingKey n ctype expiresAt now) = uid"
  by (simp add: new_upload_row_def)

lemma run_serve_create:
  "leaves (serveCreateUpload (wired scenario False) new_recorder create_request) (at_db empty_db 11)
     (\<lambda>(w, uid, code) _. rc_status w = 201 \<and> uid = new_id 11 \<and> code = '''') pending_db 19 []"
  by (simp add: run serving_create new_upload_id)

definition empty_request :: http_request where
  "empty_request = \<lparr>hr_Method = ''POST'', hr_Path = '''', hr_Header = [], hr_Body = [], hr_BodyErr = None\<rparr>"

definition finalizing_row :: upload_row where
  "finalizing_row = pending_row\<lparr>u_state := Finalizing, u_completion_requested_at := Some (epoch + 14 * minute),
     u_reconcile_after := Some (epoch + 14 * minute)\<rparr>"

lemmas rows = pending_row_def finalizing_row_def new_upload_row_def
lemmas row_checks = upload_ok_def max_declared_size_def reconcile_failure_ok_def rejection_phase_ok_def
  rejection_reason_ok_def state_shape_ok_def no_rejection_def max_int4_def

definition finalizing_db :: db where
  "finalizing_db = \<lparr>uploads = [finalizing_row], candidates = [], tombstones = []\<rparr>"

lemma run_complete:
  "leaves (serveCompleteUpload (wired scenario False) new_recorder empty_request (new_id 11)) (at_db pending_db 20)
     (\<lambda>(w, uid, code) _. rc_status w = 202 \<and> code = '''') finalizing_db 27 []"
  by (simp add: serveCompleteUpload_def run with_empty_body_def read_limited_def empty_request_def
    perform_complete_def wired_def completeUploadByID_def completeUploadAttempt_def lock_by_id_def find_upload_by_id_def
    pending_db_def finalizing_db_def rows complete_locked_def locked_now_def sql_complete_pending_def update_uploads_def row_checks
    finish_completion_def impossible_transition_def completed_result_def log_completion_def)

lemma run_serve_get:
  "leaves (serveGetUpload (wired scenario False) new_recorder empty_request (new_id 11)) (at_db pending_db 20)
     (\<lambda>(w, uid, code) _. rc_status w = 200 \<and> code = '''') pending_db 21 []"
  by (simp add: serveGetUpload_def run with_empty_body_def read_limited_def empty_request_def wired_def
    getUploadByID_def select_upload_by_id_def find_upload_by_id_def pending_db_def rows represent_upload_def)

definition a_lease :: duration where "a_lease = 5000 * minute"

lemma length_Sum3 [simp]: "length (Sum256 [1, 2, 3]) = 32"
  by (rule length_Sum256)

definition the_candidate :: candidate_row where
  "the_candidate =
     \<lparr>c_upload_id = new_id 11, c_sha256 = Sum256 [1, 2, 3],
      c_object_key = candidate_key_of (new_id 11) (Sum256 [1, 2, 3]), c_encoded_size = 3, c_policy_version = 1,
      c_image_format = ''png'', c_width = 1, c_height = 1, c_registered_at = epoch + 33 * minute\<rparr>"

definition claimed_row :: upload_row where
  "claimed_row = finalizing_row\<lparr>u_claim_token := Some (new_id 30), u_claim_expires_at := Some (epoch + 5025 * minute)\<rparr>"

definition claimed_db :: db where
  "claimed_db = \<lparr>uploads = [claimed_row], candidates = [], tombstones = []\<rparr>"

definition the_claim :: finalizeClaim where
  "the_claim = claim_of_row finalizing_row (new_id 30) (epoch + 5025 * minute)"

lemma run_claim:
  "leaves (claimNextFinalizing scenario a_lease) (at_db finalizing_db 30) (\<lambda>r _. r = Inr (Some the_claim)) claimed_db 38 []"
  by (simp add: claimNextFinalizing_def run a_lease_def lock_next_finalizing_def next_finalizing_def first_by_def
     finalizing_db_def claimed_db_def claimed_row_def the_claim_def rows sql_claim_def update_uploads_def row_checks claim_of_row_def
     by_now_def)


definition recorded_db :: db where
  "recorded_db = \<lparr>uploads = [claimed_row], candidates = [the_candidate], tombstones = []\<rparr>"

lemmas claim_rows = claimed_row_def the_claim_def rows claim_of_row_def the_candidate_def candidate_of_row_def
lemmas parent_locks = lockFinalizeParent_def lock_parent_row_def find_claimed_def scan_null_def parent_of_def
lemmas candidate_reads = lockAllCandidates_def select_candidates_def candidates_of_def scanTrackedCandidate_def
  sameCandidate_def find_candidate_def select_candidate_def
lemmas retried_tx = retryUploadTransaction_def databaseTxAttempts_def numeral_2_eq_2

lemma run_register:
  "leaves (registerCandidate scenario the_claim (candidate_of_row the_candidate)) (at_db claimed_db 38)
     (\<lambda>r _. r = Inr (True, False)) recorded_db 46 []"
  by (simp add: registerCandidate_def run retried_tx register_body_def parent_locks claim_rows
     claimed_db_def recorded_db_def sql_register_def new_candidate_row_def insert_candidate_def candidate_ok_def
     max_declared_size_def candidate_reads)

definition staging_duty :: "time \<Rightarrow> tombstone_row" where
  "staging_duty now =
     new_tombstone_row (staging_key_of (new_id 11)) (new_id 11) None (epoch + 15 * minute) now"

definition ready_row :: "time \<Rightarrow> upload_row" where
  "ready_row now = (settle Ready now claimed_row)\<lparr>u_final_key := Some (c_object_key the_candidate)\<rparr>"

definition ready_db :: db where
  "ready_db = \<lparr>uploads = [ready_row (epoch + 54 * minute)], candidates = [the_candidate],
     tombstones = [staging_duty (epoch + 57 * minute)]\<rparr>"

lemmas tombstone_rows = terminalTombstones_def staging_target_def candidate_target_def sql_insert_tombstone_def
  insert_tombstone_def tombstone_ok_def new_tombstone_row_def select_tombstone_def find_tombstone_def
  tombstone_conflicts_def bytes_of_def staging_duty_def
lemma run_ready:
  "leaves (transitionFinalizeReady scenario the_claim (candidate_of_row the_candidate)) (at_db recorded_db 60)
     (\<lambda>r _. r = Inr True) ready_db 71 []"
  by (simp add: transitionFinalizeReady_def run retried_tx ready_body_def parent_locks claim_rows recorded_db_def
     candidate_reads tombstone_rows sql_ready_def update_uploads_def after_now_def ready_row_def ready_db_def
     commit_result_def terminal_update_def settle_def row_checks)

definition a_failure :: validationFailure where
  "a_failure = rejectImage ''invalid_input'' ''malformed_image'' ''decode'' []"

definition rejected_row :: "time \<Rightarrow> upload_row" where
  "rejected_row now = (settle Rejected now claimed_row)
     \<lparr>u_rejection_class := Some ''invalid_input'', u_rejection_reason := Some ''malformed_image'',
      u_rejection_policy_version := Some 1, u_rejection_phase := Some ''decode'',
      u_rejection_evidence := Some (vf_Evidence a_failure)\<rparr>"

definition rejected_db :: db where
  "rejected_db = \<lparr>uploads = [rejected_row (epoch + 54 * minute)], candidates = [],
     tombstones = [staging_duty (epoch + 56 * minute)]\<rparr>"

lemma run_rejected:
  "leaves (transitionFinalizeRejected scenario the_claim a_failure) (at_db claimed_db 60)
     (\<lambda>r _. r = Inr True) rejected_db 70 []"
  by (simp add: transitionFinalizeRejected_def run retried_tx rejected_body_def parent_locks claim_rows claimed_db_def
     candidate_reads tombstone_rows sql_rejected_def update_uploads_def after_now_def rejected_row_def
     rejected_db_def commit_result_def terminal_update_def settle_def row_checks a_failure_def rejectImage_def validationPolicyVersion_def)

definition missing_row :: "time \<Rightarrow> upload_row" where
  "missing_row now = (settle Expired now claimed_row)
     \<lparr>u_expiry_reason := Some ''staging_missing_after_write_window''\<rparr>"

definition missing_db :: db where
  "missing_db = \<lparr>uploads = [missing_row (epoch + 1994 * minute)], candidates = [],
     tombstones = [staging_duty (epoch + 1996 * minute)]\<rparr>"

lemma run_missing:
  "leaves (transitionFinalizeExpiredMissing scenario the_claim (epoch + 15 * minute) []) (at_db claimed_db 2000)
     (\<lambda>r _. r = Inr True) missing_db 2010 []"
  by (simp add: transitionFinalizeExpiredMissing_def run retried_tx missing_body_def parent_locks claim_rows
     claimed_db_def candidate_reads tombstone_rows sql_expire_missing_def update_uploads_def after_now_def
     missing_row_def missing_db_def commit_result_def terminal_update_def settle_def row_checks)

definition retry_row :: upload_row where
  "retry_row = claimed_row\<lparr>u_reconcile_after := Some (epoch + 54 * minute + second), u_failure_streak := 1,
     u_last_failure_class := Some ''transient'', u_last_failure_at := Some (epoch + 54 * minute),
     u_claim_token := None, u_claim_expires_at := None\<rparr>"

definition retry_db :: db where
  "retry_db = \<lparr>uploads = [retry_row], candidates = [], tombstones = []\<rparr>"

lemma run_retry:
  "leaves (scheduleFinalizeRetry scenario the_claim ''transient'') (at_db claimed_db 60)
     (\<lambda>r _. r = Inr (Some \<lparr>ru_FailureStreak = 1, ru_Delay = second,
        ru_NextAttemptAt = epoch + 54 * minute + second\<rparr>)) retry_db 67 []"
  by (simp add: scheduleFinalizeRetry_def run parent_locks claim_rows claimed_db_def sql_retry_def
     update_uploads_def retry_row_def retry_db_def row_checks finalizerRetryDelay_def)

definition renewed_db :: db where
  "renewed_db = \<lparr>uploads = [claimed_row\<lparr>u_claim_expires_at := Some (epoch + 5054 * minute)\<rparr>],
     candidates = [], tombstones = []\<rparr>"

lemma run_renew:
  "leaves (renewFinalizeClaim scenario the_claim a_lease) (at_db claimed_db 60)
     (\<lambda>r _. r = (the_claim\<lparr>fc_ExpiresAt := epoch + 5054 * minute\<rparr>, Inr True)) renewed_db 67 []"
  by (simp add: renewFinalizeClaim_def run parent_locks lock_claim_expiry_def claim_rows claimed_db_def sql_renew_def
     update_uploads_def renewed_db_def row_checks a_lease_def)

definition expired_row :: "time \<Rightarrow> upload_row" where
  "expired_row now = pending_row\<lparr>u_state := Expired, u_terminal_at := Some now,
     u_expiry_reason := Some ''upload_deadline_elapsed''\<rparr>"

definition expired_db :: "time \<Rightarrow> db" where
  "expired_db now = \<lparr>uploads = [expired_row now], candidates = [],
     tombstones = [staging_duty (now + 2 * minute)]\<rparr>"

lemma run_expire:
  "leaves (expireNextPendingUpload scenario) (at_db pending_db 2000) (\<lambda>r _. r = Inr (Some (new_id 11)))
     (expired_db (epoch + 1994 * minute)) 2009 []"
  by (simp add: expireNextPendingUpload_def run lock_next_expired_def next_expired_pending_def first_by_def
     pending_db_def rows locked_now_def transitionPendingExpiredLocked_def sql_expire_pending_def
     update_uploads_def row_checks tombstone_rows expired_row_def expired_db_def)

definition the_snapshot :: objectSnapshot where
  "the_snapshot = \<lparr>os_Bytes = Some [1, 2, 3], os_ContentLength = 3\<rparr>"

lemma run_objects [run]:
  "run_state (captureS3Object scenario key maxUploadSizeBytes) (world_at d k False es ls c) =
     (Inr the_snapshot, world_at d (Suc k) False (es @ [S3Get key (Inr the_snapshot)]) ls c)"
  "run_state (deleteS3Object scenario key) (world_at d k False es ls c) =
     (None, world_at d (Suc k) False (es @ [S3Delete key None]) ls c)"
  by (simp_all add: captureS3Object_def deleteS3Object_def s3_record_def capture_response_def close_body_def
      read_body_def maxUploadSizeBytes_def the_snapshot_def next_tick_def modify_def world_at_def Let_def)

definition republished_row :: upload_row where
  "republished_row = (settle Ready (epoch + 6016 * minute) finalizing_row)
     \<lparr>u_final_key := Some (c_object_key the_candidate)\<rparr>"

definition republished_db :: db where
  "republished_db = \<lparr>uploads = [republished_row], candidates = [the_candidate],
     tombstones = [staging_duty (epoch + 6019 * minute)]\<rparr>"

lemma run_finalizer:
  "leaves (processNext scenario a_lease) (at_db recorded_db 6000) (\<lambda>r ls. r = (True, None) \<and> list_ex announces_ready ls) republished_db 6034
     [S3Get (c_object_key the_candidate) (Inr the_snapshot)]"
  by (simp add: processNext_def run claimNextFinalizing_def lock_next_finalizing_def next_finalizing_def first_by_def
     recorded_db_def claim_rows sql_claim_def update_uploads_def row_checks by_now_def a_lease_def phase_def finish_def
     loadTrackedCandidates_def select_claimed_candidates_def candidates_of_def candidate_reads renewing_def renewFinalizeClaim_def
     lock_claim_expiry_def find_claimed_def scan_null_def sql_renew_def processed_def
     candidateMatchesSnapshot_def the_snapshot_def ready_def transitionFinalizeReady_def retried_tx ready_body_def parent_locks tombstone_rows
     sql_ready_def after_now_def settle_def terminal_update_def commit_result_def
     republished_db_def republished_row_def transition_attributes_def)

definition reserved_duty :: tombstone_row where
  "reserved_duty = (staging_duty (epoch + 6019 * minute))
     \<lparr>t_reservation_token := Some (new_id 6100),
      t_reservation_expires_at := Some (epoch + 6095 * minute + 30 * second)\<rparr>"

definition reserved_db :: db where
  "reserved_db = republished_db\<lparr>tombstones := [reserved_duty]\<rparr>"

definition the_reservation :: cleanupReservation where
  "the_reservation = reservation_of_row (staging_duty (epoch + 6019 * minute)) (new_id 6100)
     (epoch + 6095 * minute + 30 * second)"

definition attempted_duty :: "time \<Rightarrow> tombstone_row" where
  "attempted_duty now = (staging_duty (epoch + 6019 * minute))
     \<lparr>t_next_attempt_at := now + 1440 * minute, t_last_attempt_at := Some now,
      t_last_result := Some ''delete_succeeded''\<rparr>"

definition cleaned_db :: "time \<Rightarrow> db" where
  "cleaned_db now = republished_db\<lparr>tombstones := [attempted_duty now]\<rparr>"

lemmas cleanup_rows = republished_db_def republished_row_def settle_def claim_rows tombstone_rows
  reserved_db_def reserved_duty_def the_reservation_def cleaned_db_def attempted_duty_def reservation_of_row_def
  update_tombstones_def max_int4_def
lemmas reserving = reserveNextCleanup_def lock_next_due_def next_due_tombstone_def first_by_def tombstone_due_def
  is_final_key_def sql_reserve_def cleanupReservationLease_def
lemmas applying = applyCleanupResult_def lock_reserved_streak_def cleanup_update_def sql_cleanup_result_def
  cleanupProtectiveInterval_def

lemma run_reserve:
  "leaves (reserveNextCleanup scenario) (at_db republished_db 6100) (\<lambda>r _. r = Inr (Some the_reservation))
     reserved_db 6108 []"
  by (simp add: run reserving cleanup_rows)

lemma run_apply:
  "leaves (applyCleanupResult scenario the_reservation ''delete_succeeded'' '''') (at_db reserved_db 6200)
     (\<lambda>r _. r \<noteq> Inr None \<and> (\<exists>x. r = Inr x)) (cleaned_db (epoch + 6194 * minute)) 6207 []"
  by (simp add: run applying cleanup_rows)

lemma run_cleanup:
  "leaves (cleanupNext scenario) (at_db republished_db 6100) (\<lambda>r _. r = (True, False, None))
     (cleaned_db (epoch + 6104 * minute)) 6117 [S3Delete (staging_key_of (new_id 11)) None]"
  by (simp add: cleanupNext_def run reserving applying cleanup_rows classifyCleanupDelete_def)

lemma run_gauges:
  "leaves (refreshCleanupGauges scenario) (at_db republished_db 6100)
     (\<lambda>r _. r = Inr \<lparr>cs_Due = 1, cs_OldestDueAge = 364680, cs_SnapshotUnixTime = 1767591240\<rparr>) republished_db 6106 []"
  by (simp add: refreshCleanupGauges_def run select_snapshot_def due_tombstones_def due_by_def is_final_key_def
      cleanup_rows epoch_value)

lemma run_load:
  "leaves (loadTrackedCandidates scenario the_claim) (at_db recorded_db 60)
     (\<lambda>r _. r = Inr [candidate_of_row the_candidate]) recorded_db 61 []"
  by (simp add: loadTrackedCandidates_def run select_claimed_candidates_def candidate_reads recorded_db_def
      parent_locks claim_rows after_now_def)

lemma sweep_numerals:
  "sweep_expiries E 100 = sweep_expiries E (Suc 99)" "sweep_expiries E 99 = sweep_expiries E (Suc 98)"
  by simp_all

lemma run_sweep:
  "leaves (sweepPendingExpiries scenario) (at_db pending_db 2000) (\<lambda>r _. r = (1, 0)) (expired_db (epoch + 1995 * minute)) 2015 []"
  unfolding sweepPendingExpiries_def expiryBatchSize_def sweep_numerals sweep_expiries.simps
  by (simp add: run expireNextPendingUpload_def lock_next_expired_def next_expired_pending_def first_by_def
     pending_db_def rows locked_now_def transitionPendingExpiredLocked_def sql_expire_pending_def
     update_uploads_def row_checks tombstone_rows expired_row_def expired_db_def)

lemma run_content:
  "leaves (serveGetContent (wired scenario False) new_recorder empty_request (new_id 11)) (at_db ready_db 100)
     (\<lambda>(w, uid, code) _. rc_status w = 307 \<and> code = '''') ready_db 102 []"
  by (simp add: serveGetContent_def run with_empty_body_def read_limited_def empty_request_def wired_def
     authorizeContentRead_def select_content_def find_upload_by_id_def ready_db_def ready_row_def settle_def claim_rows
     content_response_def redirect_content_def get_answer_def)

subsection \<open>The databases met are reachable\<close>

lemma leaves_steps:
  assumes "leaves m (at_db d k) P d' k' es" and "sound m" and "reachable d"
  shows "db_steps d d'"
proof -
  obtain r w' where run: "run_state m (at_db d k) = (r, w')" by (cases "run_state m (at_db d k)")
  with assms(1) have "w_db w' = d'" by (simp add: leaves_def)
  moreover have "svc_step (at_db d k) w'"
    by (rule sound_run(1) [OF assms(2) _ _ run]) (simp_all add: reachable_db_inv [OF assms(3)])
  ultimately show ?thesis by (simp add: svc_step_def)
qed

lemma leaves_reachable:
  assumes "leaves m (at_db d k) P d' k' es" and "sound m" and "reachable d"
  shows "reachable d'"
  by (rule reachable_steps [OF assms(3) leaves_steps [OF assms]])

lemma triple_sound:
  assumes "\<And>w\<^sub>0 d. db_inv d \<Longrightarrow> triple (idle w\<^sub>0 d) m (closed w\<^sub>0 P)"
  shows "sound m"
  unfolding sound_def using assms by (blast intro: triple_tail(1))

lemma reachable_empty: "reachable empty_db"
  by (simp add: reachable_def)

lemma reachable_pending: "reachable pending_db"
  by (rule leaves_reachable [OF run_create triple_sound reachable_empty],
      rule service_api.serve_http [OF scenario_peers])

lemma reachable_finalizing: "reachable finalizing_db"
  by (rule leaves_reachable [OF run_complete triple_sound reachable_pending],
      rule service_api.serve_complete [OF scenario_peers fresh_recorder(1)])

lemma reachable_claimed: "reachable claimed_db"
  by (rule leaves_reachable [OF run_claim service_sound [OF service_claimNext [OF scenario_peers]] reachable_finalizing])

lemma reachable_recorded: "reachable recorded_db"
  by (rule leaves_reachable [OF run_register service_sound [OF service_registerCandidate [OF scenario_peers]]
      reachable_claimed])

lemma reachable_ready: "reachable ready_db"
  by (rule leaves_reachable [OF run_ready service_sound [OF service_transitionReady [OF scenario_peers]]
      reachable_recorded])

lemma reachable_republished: "reachable republished_db"
  by (rule leaves_reachable [OF run_finalizer sound_processNext [OF scenario_peers] reachable_recorded])

lemma reachable_reserved: "reachable reserved_db"
  by (rule leaves_reachable [OF run_reserve service_sound [OF service_reserveNextCleanup [OF scenario_peers]]
      reachable_republished])

end
