(* ===== verification/Abstraction.thy ===== *)
theory Abstraction
  imports Lifecycle
begin

section \<open>The service as an abstract machine\<close>

text \<open>
  The smallest machine a client has to know: each upload is in a phase, each published upload has the
  key of the object it serves, and some keys are condemned (an object under such a key may be deleted
  at any time).  An upload is opened, checked and closed; closing may condemn more keys, but none that
  is served.  \<open>view\<close> reads that machine off the three tables, and every committed transaction of the
  service is one of its steps or invisible to it.
\<close>

datatype upload_phase = Waiting | Checking | Published string | Refused | Lapsed

record lifecycle =
  phases :: "string \<rightharpoonup> upload_phase"
  condemned :: "string set"

definition nothing :: lifecycle where "nothing = \<lparr>phases = Map.empty, condemned = {}\<rparr>"

fun keys_of :: "upload_phase \<Rightarrow> string set" where
  "keys_of (Published key) = {key}"
| "keys_of _ = {}"

definition served :: "lifecycle \<Rightarrow> string set" where
  "served s = (\<Union>p\<in>ran (phases s). keys_of p)"

inductive life_step :: "lifecycle \<Rightarrow> lifecycle \<Rightarrow> bool" where
  opened: "phases s uid = None \<Longrightarrow> life_step s (s\<lparr>phases := (phases s)(uid \<mapsto> Waiting)\<rparr>)"
| checked: "phases s uid = Some Waiting \<Longrightarrow> life_step s (s\<lparr>phases := (phases s)(uid \<mapsto> Checking)\<rparr>)"
| closed: "phases s uid = Some Checking \<and> p \<notin> {Waiting, Checking} \<or> phases s uid = Some Waiting \<and> p = Lapsed \<Longrightarrow>
     keys_of p \<inter> condemned s = {} \<Longrightarrow> D \<inter> (served s \<union> keys_of p) = {} \<Longrightarrow>
     life_step s (s\<lparr>phases := (phases s)(uid \<mapsto> p), condemned := condemned s \<union> D\<rparr>)"

inductive_cases life_stepE: "life_step s s'"

subsection \<open>What the machine promises\<close>

definition safe :: "lifecycle \<Rightarrow> bool" where "safe s = (served s \<inter> condemned s = {})"

definition outcomes_last :: "lifecycle \<Rightarrow> lifecycle \<Rightarrow> bool" where
  "outcomes_last s s' =
     ((\<forall>uid p. phases s uid = Some p \<longrightarrow> p \<notin> {Waiting, Checking} \<longrightarrow> phases s' uid = Some p) \<and>
      dom (phases s) \<subseteq> dom (phases s') \<and> condemned s \<subseteq> condemned s')"

lemma served_iff: "key \<in> served s \<longleftrightarrow> (\<exists>uid. phases s uid = Some (Published key))"
proof -
  have "key \<in> keys_of p \<longleftrightarrow> p = Published key" for p by (cases p) auto
  then show ?thesis by (auto simp: served_def ran_def)
qed

lemma key_in_keys_of [simp]: "key \<in> keys_of p \<longleftrightarrow> p = Published key"
  by (cases p) auto

lemma safe_iff: "safe s \<longleftrightarrow> (\<forall>uid key. phases s uid = Some (Published key) \<longrightarrow> key \<notin> condemned s)"
  unfolding safe_def disjoint_iff served_iff by blast

interpretation machine: transition_system outcomes_last life_step nothing safe
proof unfold_locales
  show "safe nothing" by (simp add: safe_def nothing_def served_def)
  show "safe t" if "life_step s t" "safe s" for s t
    using that by (cases rule: life_step.cases) (auto simp: safe_iff disjoint_iff served_iff split: if_splits)
  show "outcomes_last s s" for s by (simp add: outcomes_last_def)
  show "outcomes_last s r" if "outcomes_last s t" "outcomes_last t r" for s t r
    using that unfolding outcomes_last_def by (meson subset_trans)
  show "outcomes_last s t" if "life_step s t" "safe s" for s t
    using that(1) by (auto elim!: life_stepE simp: outcomes_last_def)
qed

subsection \<open>Reading the machine off the tables\<close>

definition phase_of :: "upload_row \<Rightarrow> upload_phase" where
  "phase_of u =
     (case u_state u of
        Pending \<Rightarrow> Waiting
      | Finalizing \<Rightarrow> Checking
      | Ready \<Rightarrow> Published (case u_final_key u of Some key \<Rightarrow> key | None \<Rightarrow> '''')
      | Expired \<Rightarrow> Lapsed
      | _ \<Rightarrow> Refused)"

definition phase_table :: "upload_row list \<Rightarrow> string \<rightharpoonup> upload_phase" where
  "phase_table us = map_of (map (\<lambda>u. (u_upload_id u, phase_of u)) us)"

definition view :: "db \<Rightarrow> lifecycle" where
  "view d = \<lparr>phases = phase_table (uploads d), condemned = t_object_key ` set (tombstones d)\<rparr>"

lemma view_simps [simp]:
  "phases (view d) = phase_table (uploads d)" "condemned (view d) = t_object_key ` set (tombstones d)"
  by (simp_all add: view_def)

lemma phase_table_row:
  assumes "tables_ok d"
  shows "phase_table (uploads d) uid = Some p \<longleftrightarrow>
    (\<exists>u\<in>set (uploads d). u_upload_id u = uid \<and> phase_of u = p)"
proof -
  have "distinct (map fst (map (\<lambda>u. (u_upload_id u, phase_of u)) (uploads d)))"
    using assms by (simp add: tables_ok_def o_def)
  from map_of_eq_Some_iff [OF this] show ?thesis by (auto simp: phase_table_def)
qed

lemma view_empty: "view empty_db = nothing"
  by (simp add: view_def nothing_def phase_table_def empty_db_def)

text \<open>A published object is a recorded candidate of its upload, and no duty of any upload names it.\<close>

lemma candidate_row_key:
  "tables_ok d \<Longrightarrow> c \<in> set (candidates d) \<Longrightarrow> c_object_key c = candidate_key_of (c_upload_id c) (c_sha256 c)"
  by (auto simp: tables_ok_def candidate_ok_def)

lemma ready_candidate:
  assumes "db_inv d" and "u \<in> set (uploads d)" and "u_final_key u = Some key"
  shows "u_state u = Ready" and "\<exists>c\<in>set (candidates d). c_upload_id c = u_upload_id u \<and> c_object_key c = key"
  using assms by (auto simp: db_inv_def tables_ok_def upload_ok_def final_candidates_ok_def)

lemma ready_key:
  assumes "db_inv d" and "u \<in> set (uploads d)" and "u_state u = Ready"
  shows "\<exists>key. u_final_key u = Some key"
  using assms by (auto simp: db_inv_def tables_ok_def upload_ok_def)

lemma tombstone_row_key:
  assumes "tables_ok d" and "t \<in> set (tombstones d)"
  shows "t_object_key t = staging_key_of (t_upload_id t) \<or>
    (\<exists>sha. length sha = 32 \<and> t_object_key t = candidate_key_of (t_upload_id t) sha)"
proof -
  have "tombstone_ok t" using assms by (simp add: tables_ok_def)
  then show ?thesis by (cases "t_candidate_sha256 t") (auto simp: tombstone_ok_def)
qed

text \<open>The key of an object tells whose it is, so duties of other uploads do not name it either.\<close>

lemma view_safe:
  assumes inv: "db_inv d"
  shows "safe (view d)"
proof -
  have tabs: "tables_ok d" and fence: "tombstones_fenced d" using inv by (simp_all add: db_inv_def)
  have "key \<noteq> t_object_key t"
    if p: "phase_table (uploads d) uid = Some (Published key)" and t: "t \<in> set (tombstones d)" for key uid t
  proof
    assume key: "key = t_object_key t"
    from p obtain u where u: "u \<in> set (uploads d)" "phase_of u = Published key"
      using phase_table_row [OF tabs] by blast
    then have "u_state u = Ready" by (auto simp: phase_of_def split: upload_state.splits)
    then have final: "u_final_key u = Some key"
      using ready_key [OF inv u(1)] u(2) by (auto simp: phase_of_def)
    from ready_candidate(2) [OF inv u(1) this] obtain c where
      c: "c \<in> set (candidates d)" "c_upload_id c = u_upload_id u" "c_object_key c = key" by blast
    then have "key = candidate_key_of (u_upload_id u) (c_sha256 c)" "length (c_sha256 c) = 32"
      using tabs by (auto simp: tables_ok_def candidate_ok_def)
    with tombstone_row_key [OF tabs t] key have "u_upload_id u = t_upload_id t"
      by (auto simp: candidate_key_inj)
    with fence t u(1) final key show False by (auto simp: tombstones_fenced_def)
  qed
  then show ?thesis by (auto simp: safe_iff)
qed

subsection \<open>Every committed transaction is a step of the machine\<close>

lemma still_view:
  assumes "update_uploads p f d = Inr (n, d')"
    and "\<And>u. u \<in> set (uploads d) \<Longrightarrow> p u \<Longrightarrow> u_upload_id (f u) = u_upload_id u \<and> phase_of (f u) = phase_of u"
  shows "view d' = view d"
proof -
  note d' = update_uploads_patched [OF assms(1)]
  have "map (\<lambda>u. (u_upload_id u, phase_of u)) (map (patched p f) (uploads d)) =
      map (\<lambda>u. (u_upload_id u, phase_of u)) (uploads d)"
    by (simp add: patched_def assms(2))
  then show ?thesis by (simp add: view_def phase_table_def d' del: map_map)
qed

lemma duties_view:
  assumes "update_tombstones p f d = Inr (n, d')" and "\<And>t. t_object_key (f t) = t_object_key t"
  shows "view d' = view d"
proof -
  note d' = update_tombstones_Inr(2) [OF assms(1)]
  have "map t_object_key (tombstones d') = map t_object_key (tombstones d)" using assms(2) by (simp add: d')
  then have "t_object_key ` set (tombstones d') = t_object_key ` set (tombstones d)" by (metis set_map)
  then show ?thesis by (simp add: view_def) (simp add: d')
qed

lemma map_eqI:
  assumes "\<And>v q. m v = Some q \<longleftrightarrow> m' v = Some q"
  shows "m = m'"
proof
  fix v
  show "m v = m' v" using assms [of v "the (m v)"] assms [of v "the (m' v)"] by (cases "m v"; cases "m' v") auto
qed

lemma phase_table_update:
  assumes ids: "distinct (map u_upload_id us)" and g: "\<And>u. u_upload_id (g u) = u_upload_id u"
  shows "phase_table (map g us) v = Some q \<longleftrightarrow> (\<exists>u\<in>set us. u_upload_id u = v \<and> phase_of (g u) = q)"
proof -
  have "distinct (map fst (map (\<lambda>u. (u_upload_id u, phase_of u)) (map g us)))"
    using ids by (simp add: o_def g)
  from map_of_eq_Some_iff [OF this] show ?thesis by (auto simp: phase_table_def g)
qed

lemma moved_view:
  assumes tabs: "tables_ok d" and upd: "update_uploads p f d = Inr (1, d')"
    and p: "\<And>v. p v \<Longrightarrow> u_upload_id v = uid" and f: "\<And>v. u_upload_id (f v) = u_upload_id v"
  obtains u where "u \<in> set (uploads d)" "p u"
    and "view d' = (view d)\<lparr>phases := (phases (view d))(uid \<mapsto> phase_of (f u))\<rparr>"
proof -
  note d' = update_uploads_patched [OF upd]
  have us: "uploads d' = map (patched p f) (uploads d)" by (simp add: d')
  have "length (filter p (uploads d)) = 1" using update_uploads_Inr(1) [OF upd] by simp
  then obtain u where u: "u \<in> set (uploads d)" "p u"
    by (metis filter_empty_conv length_0_conv zero_neq_one)
  have only: "v = u" if "v \<in> set (uploads d)" "u_upload_id v = uid" for v
    using unique_upload [OF tabs that(1) u(1)] that(2) p [OF u(2)] by simp
  have ids: "distinct (map u_upload_id (uploads d))" using tabs by (simp add: tables_ok_def)
  have g: "u_upload_id (patched p f v) = u_upload_id v" for v using f by (simp add: patched_def)
  have "phase_table (uploads d') v = Some q \<longleftrightarrow> ((phase_table (uploads d))(uid \<mapsto> phase_of (f u))) v = Some q"
    for v q
  proof (cases "v = uid")
    case True
    have "phase_table (uploads d') v = Some q \<longleftrightarrow> phase_of (patched p f u) = q"
      unfolding us using phase_table_update [of "uploads d" "patched p f" v q, OF ids g] True
      by (metis only p [OF u(2)] u(1))
    with True u(2) show ?thesis by (simp add: patched_def)
  next
    case False
    then have "w \<in> set (uploads d) \<Longrightarrow> u_upload_id w = v \<Longrightarrow> patched p f w = w" for w
      by (auto simp: patched_def dest: p)
    then have "phase_table (uploads d') v = Some q \<longleftrightarrow> (\<exists>w\<in>set (uploads d). u_upload_id w = v \<and> phase_of w = q)"
      unfolding us using phase_table_update [of "uploads d" "patched p f" v q, OF ids g] by auto
    with False show ?thesis by (simp add: phase_table_row [OF tabs])
  qed
  then have "phase_table (uploads d') = (phase_table (uploads d))(uid \<mapsto> phase_of (f u))" by (rule map_eqI)
  then have "view d' = (view d)\<lparr>phases := (phases (view d))(uid \<mapsto> phase_of (f u))\<rparr>"
    by (simp add: view_def) (simp add: d')
  from that [OF u this] show ?thesis .
qed

lemma ensured_view:
  assumes "ensured uid targets d d'"
  obtains D where "view d' = (view d)\<lparr>condemned := condemned (view d) \<union> D\<rparr>"
  using ensured_appends [OF assms] that by (auto simp: appended_tombstones_def view_def image_Un)

lemma closed_view:
  assumes inv: "db_inv d'" and v: "view d' = (view d)\<lparr>phases := (phases (view d))(uid \<mapsto> q), condemned := condemned (view d) \<union> D\<rparr>"
    and q: "phases (view d) uid = Some Checking \<and> q \<notin> {Waiting, Checking} \<or> phases (view d) uid = Some Waiting \<and> q = Lapsed"
  shows "life_step (view d) (view d')"
proof -
  have safe': "((phases (view d))(uid \<mapsto> q)) w = Some (Published key) \<Longrightarrow> key \<notin> condemned (view d) \<union> D" for w key
    using view_safe [OF inv] unfolding safe_iff v by simp
  have "keys_of q \<inter> condemned (view d) = {}"
    using safe' [of uid] by auto
  moreover have "D \<inter> (served (view d) \<union> keys_of q) = {}"
  proof -
    have "key \<notin> D" if "phases (view d) w = Some (Published key)" for key w
    proof -
      from that q have "w \<noteq> uid" by auto
      with that safe' [of w key] show ?thesis by simp
    qed
    then show ?thesis using safe' [of uid] by (auto simp: served_iff simp del: view_simps)
  qed
  ultimately show ?thesis unfolding v by (intro life_step.closed q)
qed

text \<open>The transitions that close an upload move its row and record duties, in either order.\<close>

lemma closing_view:
  assumes inv: "db_inv d" and upd: "update_uploads p f d1 = Inr (1, d')"
    and dut: "ensured uid targets d d1" and inv': "db_inv d'"
    and p: "\<And>v. p v \<Longrightarrow> u_upload_id v = uid \<and> u_state v = Finalizing"
    and f: "\<And>v. u_upload_id (f v) = u_upload_id v" "\<And>v. phase_of (f v) \<notin> {Waiting, Checking}"
  shows "life_step (view d) (view d')"
proof -
  obtain D where v1: "view d1 = (view d)\<lparr>condemned := condemned (view d) \<union> D\<rparr>"
    using ensured_view [OF dut] .
  have us: "uploads d1 = uploads d" by (rule appended_tombstones_frame(1) [OF ensured_appends [OF dut]])
  have "update_uploads p f d = Inr (1, d\<lparr>uploads := uploads d'\<rparr>)"
    using upd unfolding update_uploads_def Let_def appended_tombstones_frame [OF ensured_appends [OF dut]]
    by (auto split: if_splits)
  then obtain u where u: "u \<in> set (uploads d)" "p u"
    and v: "view (d\<lparr>uploads := uploads d'\<rparr>) = (view d)\<lparr>phases := (phases (view d))(uid \<mapsto> phase_of (f u))\<rparr>"
    using inv p f(1) moved_view [of d p f "d\<lparr>uploads := uploads d'\<rparr>" uid] by (metis db_inv_def)
  have "view d' = (view d)\<lparr>phases := (phases (view d))(uid \<mapsto> phase_of (f u)), condemned := condemned (view d) \<union> D\<rparr>"
    using v v1 update_uploads_patched [OF upd] by (simp add: view_def)
  moreover have "phases (view d) uid = Some Checking"
    using u p [OF u(2)] inv by (auto simp: phase_table_row db_inv_def phase_of_def)
  ultimately show ?thesis using f(2) by (intro closed_view [OF inv']) auto
qed

text \<open>The other transactions are invisible, but for the three that open, check and abandon an upload.\<close>

lemma statement_view:
  "sql_raise_horizon uid expiresAt d = Inr (n, d') \<Longrightarrow> view d' = view d"
  "sql_poke_finalizing uid now d = Inr (n, d') \<Longrightarrow> view d' = view d"
  "sql_claim uid token expiresAt d = Inr (n, d') \<Longrightarrow> view d' = view d"
  "sql_renew uid token expiresAt d = Inr (n, d') \<Longrightarrow> view d' = view d"
  "sql_retry uid token nextAttempt streak errorClass now d = Inr (n, d') \<Longrightarrow> view d' = view d"
  unfolding sql_update_defs by (erule still_view; simp add: phase_of_def split: upload_state.splits)+

lemma duty_statement_view:
  "sql_reserve key token expiresAt now d = Inr (n, d') \<Longrightarrow> view d' = view d"
  "sql_cleanup_result key token nextAttempt streak lastAttempt result d = Inr (n, d') \<Longrightarrow> view d' = view d"
  unfolding sql_reserve_def sql_cleanup_result_def by (erule duties_view; simp)+

lemma candidate_view: "insert_candidate c d = Inr (n, d') \<Longrightarrow> view d' = view d"
  by (auto dest!: insert_candidate_Inr simp: view_def)

lemmas invisible = statement_view duty_statement_view candidate_view

lemma opened_view:
  assumes "insert_upload (new_upload_row uid key stagingKey declaredSize ctype expiresAt now) d = Inr (1, d')"
  shows "life_step (view d) (view d')"
proof -
  from insert_upload_Inr [OF assms] have d': "d' = d\<lparr>uploads := uploads d @
      [new_upload_row uid key stagingKey declaredSize ctype expiresAt now]\<rparr>"
    and fresh: "uid \<notin> u_upload_id ` set (uploads d)" by (auto simp: new_upload_row_def)
  from fresh have none: "phase_table (uploads d) uid = None"
    by (simp add: phase_table_def map_of_eq_None_iff image_image)
  then have "phase_table (uploads d') = (phase_table (uploads d))(uid \<mapsto> Waiting)"
    by (auto simp: phase_table_def d' map_of_append new_upload_row_def phase_of_def map_add_def fun_eq_iff
        split: option.splits)
  then have "view d' = (view d)\<lparr>phases := (phases (view d))(uid \<mapsto> Waiting)\<rparr>"
    by (simp add: view_def) (simp add: d')
  with life_step.opened [of "view d" uid] none show ?thesis by simp
qed

lemma checked_view:
  assumes tabs: "tables_ok d" and "sql_complete_pending uid now d = Inr (1, d')"
  shows "life_step (view d) (view d')"
proof -
  from assms(2) obtain u where u: "u \<in> set (uploads d)" "u_upload_id u = uid" "u_state u = Pending"
    and v: "view d' = (view d)\<lparr>phases := (phases (view d))(uid \<mapsto> Checking)\<rparr>"
    unfolding sql_complete_pending_def
    by (rule moved_view [OF tabs, where uid = uid]) (auto simp: phase_of_def)
  have "phases (view d) uid = Some Waiting"
    using u tabs by (auto simp: phase_table_row phase_of_def)
  from life_step.checked [OF this] show ?thesis unfolding v .
qed

lemma lapsed_view:
  assumes inv: "db_inv d" "db_inv d'" and u: "u \<in> set (uploads d)" "u_state u = Pending"
    and upd: "sql_expire_pending (u_upload_id u) now d = Inr (1, d1)" and dut: "ensured (u_upload_id u) targets d1 d'"
  shows "life_step (view d) (view d')"
proof -
  have tabs: "tables_ok d" using inv(1) by (simp add: db_inv_def)
  obtain w where v1: "view d1 = (view d)\<lparr>phases := (phases (view d))(u_upload_id u \<mapsto> Lapsed)\<rparr>"
    using upd unfolding sql_expire_pending_def
    by (rule moved_view [OF tabs, where uid = "u_upload_id u"]) (auto simp: phase_of_def)
  obtain D where "view d' = (view d1)\<lparr>condemned := condemned (view d1) \<union> D\<rparr>" using ensured_view [OF dut] .
  with v1 have "view d' = (view d)\<lparr>phases := (phases (view d))(u_upload_id u \<mapsto> Lapsed),
      condemned := condemned (view d) \<union> D\<rparr>" by simp
  moreover have "phases (view d) (u_upload_id u) = Some Waiting"
    using u tabs by (auto simp: phase_table_row phase_of_def)
  ultimately show ?thesis using closed_view [OF inv(2)] by metis
qed

lemma step_view:
  assumes "db_step d d'" and inv: "db_inv d"
  shows "view d' = view d \<or> life_step (view d) (view d')"
  using assms(1)
proof cases
  case (complete uid now)
  then show ?thesis using checked_view inv by (auto simp: db_inv_def)
next
  case (expire_pending u now d1)
  then show ?thesis using lapsed_view [OF inv db_step_inv [OF assms]] by blast
next
  case (ready uid token u now sel d1)
  show ?thesis
    by (rule disjI2, rule closing_view [OF inv ready(6) [unfolded sql_ready_def] ready(5)
        db_step_inv [OF assms]]) (auto simp: settle_def phase_of_def)
next
  case (rejected uid token u now d1 cls reason ph ev)
  show ?thesis
    by (rule disjI2, rule closing_view [OF inv rejected(4) [unfolded sql_rejected_def] rejected(3)
        db_step_inv [OF assms]]) (auto simp: settle_def phase_of_def)
next
  case (expire_missing uid token u now horizon d1)
  show ?thesis
    by (rule disjI2, rule closing_view [OF inv expire_missing(7) [unfolded sql_expire_missing_def]
        expire_missing(6) db_step_inv [OF assms]]) (auto simp: settle_def phase_of_def)
qed (blast intro: opened_view invisible)+

lemma steps_view: "db_steps d d' \<Longrightarrow> db_inv d \<Longrightarrow> life_step\<^sup>*\<^sup>* (view d) (view d')"
proof (induction rule: rtranclp_induct)
  case (step t r)
  then have "view r = view t \<or> life_step (view t) (view r)" using step_view store.steps_inv by blast
  with step.IH [OF step.prems] show ?case by (auto intro: rtranclp.rtrancl_into_rtrancl)
qed simp

lemma reachable_view: "reachable d \<Longrightarrow> life_step\<^sup>*\<^sup>* nothing (view d)"
  unfolding reachable_def by (drule steps_view [OF _ db_inv_empty]) (simp add: view_empty)

lemma final_key_uncondemned:
  assumes "db_inv d" and "u \<in> set (uploads d)" and "u_final_key u = Some key"
  shows "key \<notin> t_object_key ` set (tombstones d)"
proof -
  have "phases (view d) (u_upload_id u) = Some (Published key)"
    using assms ready_candidate(1) [OF assms] by (auto simp: phase_table_row phase_of_def db_inv_def)
  with view_safe [OF assms(1)] show ?thesis unfolding safe_iff by (simp del: view_simps(1))
qed

end
