(* ===== verification/Identifiers.thy ===== *)
theory Identifiers
  imports Http
begin

section \<open>Identifiers and routes\<close>

text \<open>
  The identifiers that the service makes are canonical lower-case version 4 UUIDs, so they are valid
  idempotency keys and never contain the separator of the routes; the routes of an upload are then
  parsed back exactly.
\<close>

subsection \<open>Generated identifiers\<close>

lemma lower_hex_digit: "n < 16 \<Longrightarrow> lower_hex (hex_digit n)"
proof -
  assume "n < 16"
  then have "n \<in> set [0..<16]" by simp
  moreover have "\<forall>k\<in>set [0..<16]. lower_hex (hex_digit k)"
    by (simp add: upt_rec numeral_nat hex_digit_def lower_hex_def)
  ultimately show ?thesis by blast
qed

lemma byte_digits: "unat (b::byte) div 16 < 16" "unat (b::byte) mod 16 < 16"
  using unat_byte_lt [of b] by simp_all

lemma high_digit: "unat (b::byte) div 16 = unat (drop_bit 4 b)"
  by (simp add: drop_bit_eq_div unat_div_distrib)

lemma version_digit: "hex_digit (unat ((b AND 0x0f) OR 0x40 :: byte) div 16) = CHR ''4''"
  unfolding high_digit drop_bit_or drop_bit_and by (simp add: hex_digit_def)

lemma variant_digit:
  "hex_digit (unat ((b AND 0x3f) OR 0x80 :: byte) div 16) \<in> {CHR ''8'', CHR ''9'', CHR ''a'', CHR ''b''}"
proof -
  let ?x = "drop_bit 4 b AND 3"
  have "?x = take_bit 2 (drop_bit 4 b)" by (simp add: take_bit_eq_mask mask_eq_exp_minus_1)
  then have "unat ?x < 4" using take_bit_nat_less_exp [of 2 "unat (drop_bit 4 b)"] by (simp add: unsigned_take_bit_eq)
  then have "unat ?x \<in> {0, 1, 2, 3}" by auto
  then have "?x \<in> {0, 1, 2, 3}" by (auto simp: word_unat_eq_iff)
  then have "unat (?x OR 8) \<in> {8, 9, 10, 11}" by (elim insertE emptyE) (simp_all only:, simp_all)
  then show ?thesis unfolding high_digit drop_bit_or drop_bit_and by (auto simp: hex_digit_def)
qed

lemma length16E:
  assumes "length xs = 16"
  obtains a0 a1 a2 a3 a4 a5 a6 a7 a8 a9 a10 a11 a12 a13 a14 a15
  where "xs = [a0, a1, a2, a3, a4, a5, a6, a7, a8, a9, a10, a11, a12, a13, a14, a15]"
  using assms that by (simp add: numeral_eq_Suc length_Suc_conv) blast

lemma set_version_bits_16:
  "set_version_bits [a0, a1, a2, a3, a4, a5, a6, a7, a8, a9, a10, a11, a12, a13, a14, a15] =
     [a0, a1, a2, a3, a4, a5, (a6 AND 0x0f) OR 0x40, a7, (a8 AND 0x3f) OR 0x80, a9, a10, a11, a12, a13, a14, a15]"
  by (simp add: set_version_bits_def numeral_eq_Suc)

lemma uuid_text_16:
  "uuid_text [a0, a1, a2, a3, a4, a5, a6, a7, a8, a9, a10, a11, a12, a13, a14, a15] =
     hex_byte a0 @ hex_byte a1 @ hex_byte a2 @ hex_byte a3 @ ''-'' @ hex_byte a4 @ hex_byte a5 @ ''-'' @
     hex_byte ((a6 AND 0x0f) OR 0x40) @ hex_byte a7 @ ''-'' @
     hex_byte ((a8 AND 0x3f) OR 0x80) @ hex_byte a9 @ ''-'' @
     hex_byte a10 @ hex_byte a11 @ hex_byte a12 @ hex_byte a13 @ hex_byte a14 @ hex_byte a15"
  by (simp add: uuid_text_def set_version_bits_16)

lemma key_classes_36:
  "key_classes =
     [lower_hex, lower_hex, lower_hex, lower_hex, lower_hex, lower_hex, lower_hex, lower_hex, (=) CHR ''-'',
      lower_hex, lower_hex, lower_hex, lower_hex, (=) CHR ''-'', (=) CHR ''4'', lower_hex, lower_hex, lower_hex,
      (=) CHR ''-'', \<lambda>c. c \<in> {CHR ''8'', CHR ''9'', CHR ''a'', CHR ''b''}, lower_hex, lower_hex, lower_hex,
      (=) CHR ''-'', lower_hex, lower_hex, lower_hex, lower_hex, lower_hex, lower_hex, lower_hex, lower_hex,
      lower_hex, lower_hex, lower_hex, lower_hex]"
  by (simp add: key_classes_def numeral_eq_Suc)

lemma uuid_text_valid:
  assumes "length raw = 16"
  shows "idempotencyKeyPattern (uuid_text raw)"
proof -
  obtain a0 a1 a2 a3 a4 a5 a6 a7 a8 a9 a10 a11 a12 a13 a14 a15 where
    raw: "raw = [a0, a1, a2, a3, a4, a5, a6, a7, a8, a9, a10, a11, a12, a13, a14, a15]"
    using length16E [OF assms] .
  have hex: "lower_hex (hex_digit (unat b div 16))" "lower_hex (hex_digit (unat b mod 16))" for b :: byte
    by (rule lower_hex_digit, rule byte_digits)+
  show ?thesis
    unfolding raw uuid_text_16 idempotencyKeyPattern_def key_classes_36 hex_byte_def append_Cons append_Nil
      list_all2_Cons list_all2_Nil version_digit
    by (intro conjI hex refl TrueI variant_digit)
qed

subsection \<open>Routes\<close>

lemma single_segment_suffix:
  assumes "CHR ''/'' \<notin> set uid"
  shows "\<not> HasSuffix uid ''/content''" "\<not> HasSuffix uid ''/complete''"
  using assms by (auto simp: HasSuffix_iff)

text \<open>One segment of a path, and the routes below \<^verbatim>\<open>/uploads/\<close>.\<close>

definition single_segment :: "string \<Rightarrow> bool" where
  "single_segment uid = (uid \<noteq> '''' \<and> CHR ''/'' \<notin> set uid)"

definition subroute :: "string \<Rightarrow> string \<times> string" where
  "subroute r =
     (if HasSuffix r ''/content''
      then (if single_segment (TrimSuffix r ''/content'')
            then (''/uploads/{upload_id}/content'', TrimSuffix r ''/content'') else ('''', ''''))
      else if HasSuffix r ''/complete''
      then (if single_segment (TrimSuffix r ''/complete'')
            then (''/uploads/{upload_id}/complete'', TrimSuffix r ''/complete'') else ('''', ''''))
      else if single_segment r then (''/uploads/{upload_id}'', r) else ('''', ''''))"

lemma applicationRoute_alt:
  "applicationRoute path =
     (if operationalRoute path \<noteq> '''' then (operationalRoute path, '''')
      else if path = ''/uploads'' then (path, '''')
      else if HasPrefix path ''/uploads/'' then subroute (TrimPrefix path ''/uploads/'')
      else ('''', ''''))"
  unfolding applicationRoute_def subroute_def single_segment_def Let_def Contains_single by (rule refl)

lemma operational_cases: "operationalRoute path \<in> {'''', ''/livez'', ''/readyz'', ''/debug/vars''}"
  by (simp add: operationalRoute_def)

lemma applicationRoute_below:
  assumes "route \<in> {''/uploads/{upload_id}'', ''/uploads/{upload_id}/complete'', ''/uploads/{upload_id}/content''}"
  shows "applicationRoute path = (route, uid) \<longleftrightarrow> (\<exists>r. path = ''/uploads/'' @ r \<and> subroute r = (route, uid))"
proof -
  define p where "p = ''/uploads/''"
  have alt: "applicationRoute path = (if operationalRoute path \<noteq> '''' then (operationalRoute path, '''')
      else if path = ''/uploads'' then (path, '''')
      else if HasPrefix path p then subroute (TrimPrefix path p) else ('''', ''''))"
    unfolding p_def by (rule applicationRoute_alt)
  have other: "operationalRoute path \<noteq> route" "route \<noteq> ''/uploads''" "route \<noteq> ''''"
    using assms operational_cases [of path] by auto
  have below: "operationalRoute (p @ r) = ''''" "p @ r \<noteq> ''/uploads''" for r
    by (simp_all add: operationalRoute_def p_def)
  have "applicationRoute path = (route, uid) \<longleftrightarrow> (\<exists>r. path = p @ r \<and> subroute r = (route, uid))"
  proof (cases "HasPrefix path p")
    case True
    then obtain r where path: "path = p @ r" unfolding HasPrefix_iff by blast
    have "applicationRoute path = subroute r"
      unfolding alt unfolding path TrimPrefix_append by (simp only: below HasPrefix_append simp_thms if_True if_False)
    then show ?thesis unfolding path by simp
  next
    case False
    then have "\<not> (\<exists>r. path = p @ r)" unfolding HasPrefix_iff .
    moreover have "applicationRoute path \<noteq> (route, uid)"
      using other unfolding alt by (simp only: False if_False prod.inject split: if_split) blast
    ultimately show ?thesis by blast
  qed
  then show ?thesis unfolding p_def .
qed

lemma subroute_iff:
  "subroute r = (''/uploads/{upload_id}'', uid) \<longleftrightarrow> r = uid \<and> single_segment uid"
  "subroute r = (''/uploads/{upload_id}/complete'', uid) \<longleftrightarrow> r = uid @ ''/complete'' \<and> single_segment uid"
  "subroute r = (''/uploads/{upload_id}/content'', uid) \<longleftrightarrow> r = uid @ ''/content'' \<and> single_segment uid"
proof -
  have no: "single_segment u \<Longrightarrow> \<not> HasSuffix u ''/content'' \<and> \<not> HasSuffix u ''/complete''" for u
    using single_segment_suffix by (auto simp: single_segment_def)
  have swap: "HasSuffix r ''/content'' \<Longrightarrow> \<not> HasSuffix r ''/complete''"
    by (auto simp: HasSuffix_iff)
  have trim: "HasSuffix r p \<Longrightarrow> TrimSuffix r p = q \<longleftrightarrow> r = q @ p" for p q
    by (auto simp: HasSuffix_iff)
  show "subroute r = (''/uploads/{upload_id}'', uid) \<longleftrightarrow> r = uid \<and> single_segment uid"
    using no by (auto simp: subroute_def)
  show "subroute r = (''/uploads/{upload_id}/complete'', uid) \<longleftrightarrow> r = uid @ ''/complete'' \<and> single_segment uid"
    using swap trim HasSuffix_append [of uid "''/complete''"] by (auto simp: subroute_def split: if_splits)
  show "subroute r = (''/uploads/{upload_id}/content'', uid) \<longleftrightarrow> r = uid @ ''/content'' \<and> single_segment uid"
    using trim HasSuffix_append [of uid "''/content''"] by (auto simp: subroute_def split: if_splits)
qed

lemma valid_key_segment:
  assumes "idempotencyKeyPattern s"
  shows "single_segment s"
proof -
  have all2: "list_all2 (\<lambda>p c. p c) key_classes s" using assms by (simp only: idempotencyKeyPattern_def)
  have "\<forall>p\<in>set key_classes. \<not> p CHR ''/''" unfolding key_classes_36 by (simp add: lower_hex_def)
  then have "CHR ''/'' \<notin> set s" using all2 unfolding list_all2_conv_all_nth by (metis in_set_conv_nth nth_mem)
  moreover have "s \<noteq> []" using all2 unfolding key_classes_36 by auto
  ultimately show ?thesis by (simp add: single_segment_def)
qed

end
