(* ===== verification/Config.thy ===== *)
theory Config
  imports Json
begin

section \<open>Configuration\<close>

text \<open>
  Models \<^verbatim>\<open>config.go\<close> and the parts of \<^verbatim>\<open>net\<close>, \<^verbatim>\<open>net/netip\<close> and \<^verbatim>\<open>time\<close> that it calls: splitting a
  host from its port, parsing an address and testing it for loopback, and parsing a duration.  Strings
  are lists of bytes.  Two things are arguments: \<^verbatim>\<open>url.Parse\<close>, and the product of floating-point
  numbers that \<^verbatim>\<open>time.ParseDuration\<close> computes for the digits after a decimal point.
\<close>

subsection \<open>Hosts and ports\<close>

text \<open>The text before and after the first or the last occurrence of a byte.\<close>

definition split_first :: "char \<Rightarrow> string \<Rightarrow> (string \<times> string) option" where
  "split_first c s =
     (case dropWhile ((\<noteq>) c) s of [] \<Rightarrow> None | _ # r \<Rightarrow> Some (takeWhile ((\<noteq>) c) s, r))"

definition split_last :: "char \<Rightarrow> string \<Rightarrow> (string \<times> string) option" where
  "split_last c s = map_option (\<lambda>(r, l). (rev l, rev r)) (split_first c (rev s))"

text \<open>\<^verbatim>\<open>net.SplitHostPort\<close>; every error is \<open>None\<close>.\<close>

definition SplitHostPort :: "string \<Rightarrow> (string \<times> string) option" where
  "SplitHostPort hostport =
     (case split_last (CHR '':'') hostport of
        None \<Rightarrow> None
      | Some (before, port) \<Rightarrow>
          if hd hostport = CHR ''['' then
            (case split_first (CHR '']'') hostport of
               None \<Rightarrow> None
             | Some (opened, rest) \<Rightarrow>
                 if before \<noteq> opened @ '']'' then None
                 else if CHR ''['' \<in> set (tl hostport) \<or> CHR '']'' \<in> set rest then None
                 else Some (tl opened, port))
          else if CHR '':'' \<in> set before then None
          else if CHR ''['' \<in> set hostport \<or> CHR '']'' \<in> set hostport then None
          else Some (before, port))"

subsection \<open>Addresses\<close>

text \<open>\<^verbatim>\<open>netip.Addr\<close>: four bytes, or sixteen bytes with a zone (empty if there is none).\<close>

datatype addr = IPv4 "int list" | IPv6 "int list" string

text \<open>\<^verbatim>\<open>parseIPv4Fields\<close> from a position inside the text: the value and the number of digits of the
  current field, and the quads before it.\<close>

fun ipv4_fields :: "string \<Rightarrow> int \<Rightarrow> nat \<Rightarrow> int list \<Rightarrow> int list option" where
  "ipv4_fields [] val digLen quads = (if length quads < 3 then None else Some (quads @ [val]))"
| "ipv4_fields (c # s) val digLen quads =
     (case digit_value c of
        Some d \<Rightarrow>
          (if digLen = 1 \<and> val = 0 then None
           else if val * 10 + d > 255 then None
           else ipv4_fields s (val * 10 + d) (Suc digLen) quads)
      | None \<Rightarrow>
          (if c \<noteq> CHR ''.'' then None
           else if digLen = 0 \<or> s = [] then None
           else if length quads = 3 then None
           else ipv4_fields s 0 0 (quads @ [val])))"

definition parseIPv4 :: "string \<Rightarrow> addr option" where
  "parseIPv4 s = map_option IPv4 (ipv4_fields s 0 0 [])"

fun hex_number :: "string \<Rightarrow> int \<Rightarrow> int" where
  "hex_number [] acc = acc"
| "hex_number (c # s) acc = hex_number s (16 * acc + (case hex_value c of Some d \<Rightarrow> d | None \<Rightarrow> 0))"

definition is_hex :: "char \<Rightarrow> bool" where "is_hex c = (hex_value c \<noteq> None)"

text \<open>The loop of \<^verbatim>\<open>parseIPv6\<close>: the rest of the text, the bytes read and the position of the omission.\<close>

function ipv6_groups ::
  "string \<Rightarrow> int list \<Rightarrow> nat option \<Rightarrow> (string \<times> int list \<times> nat option) option" where
  "ipv6_groups s ip ellipsis =
     (if 16 \<le> length ip then Some (s, ip, ellipsis)
      else
        let digits = takeWhile is_hex s; rest = dropWhile is_hex s;
            acc = hex_number digits 0; ip' = ip @ [acc div 256, acc mod 256]
        in if 4 < length digits \<or> digits = [] then None
           else if HasPrefix rest ''.'' then
             (if ellipsis = None \<and> length ip \<noteq> 12 then None
              else if 16 < length ip + 4 then None
              else map_option (\<lambda>quads. ([], ip @ quads, ellipsis)) (ipv4_fields s 0 0 []))
           else if rest = [] then Some ([], ip', ellipsis)
           else if \<not> HasPrefix rest '':'' \<or> length rest = 1 then None
           else if HasPrefix (tl rest) '':'' then
             (if ellipsis \<noteq> None then None
              else if tl (tl rest) = [] then Some ([], ip', Some (length ip'))
              else ipv6_groups (tl (tl rest)) ip' (Some (length ip')))
           else ipv6_groups (tl rest) ip' ellipsis)"
  by pat_completeness auto
termination
  by (relation "measure (\<lambda>(s, ip, e). 16 - length ip)") auto

definition expand_ellipsis :: "string \<times> int list \<times> nat option \<Rightarrow> int list option" where
  "expand_ellipsis r =
     (case r of (s, ip, ellipsis) \<Rightarrow>
        if s \<noteq> [] then None
        else if length ip < 16 then
          map_option (\<lambda>e. take e ip @ replicate (16 - length ip) 0 @ drop e ip) ellipsis
        else if ellipsis \<noteq> None then None else Some ip)"

definition parseIPv6 :: "string \<Rightarrow> addr option" where
  "parseIPv6 text =
     (let (s, zone) = (case split_first (CHR ''%'') text of None \<Rightarrow> (text, None) | Some (s, z) \<Rightarrow> (s, Some z))
      in if zone = Some [] then None
         else let z = (case zone of None \<Rightarrow> '''' | Some z \<Rightarrow> z)
         in if HasPrefix s ''::'' then
              (if s = ''::'' then Some (IPv6 (replicate 16 0) z)
               else map_option (\<lambda>ip. IPv6 ip z)
                 (Option.bind (ipv6_groups (drop 2 s) [] (Some 0)) expand_ellipsis))
            else map_option (\<lambda>ip. IPv6 ip z) (Option.bind (ipv6_groups s [] None) expand_ellipsis))"

text \<open>\<^verbatim>\<open>netip.ParseAddr\<close>: the first of the three separators decides.\<close>

definition ParseAddr :: "string \<Rightarrow> addr option" where
  "ParseAddr s =
     (case dropWhile (\<lambda>c. c \<notin> {CHR ''.'', CHR '':'', CHR ''%''}) s of
        [] \<Rightarrow> None
      | c # _ \<Rightarrow> if c = CHR ''.'' then parseIPv4 s else if c = CHR '':'' then parseIPv6 s else None)"

text \<open>\<^verbatim>\<open>Addr.IsLoopback\<close>, which looks through an IPv4 address that is mapped to an IPv6 one.\<close>

fun IsLoopback :: "addr \<Rightarrow> bool" where
  "IsLoopback (IPv4 quads) = (hd quads = 127)"
| "IsLoopback (IPv6 ip z) =
     (if take 12 ip = replicate 10 0 @ [255, 255] then ip ! 12 = 127 else ip = replicate 15 0 @ [1])"

definition validLoopbackAddress :: "string \<Rightarrow> bool" where
  "validLoopbackAddress value_text =
     (case SplitHostPort value_text of
        None \<Rightarrow> False
      | Some (host, port) \<Rightarrow>
          if port = '''' then False
          else case ParseUint 16 port of
            None \<Rightarrow> False
          | Some parsedPort \<Rightarrow>
              if parsedPort = 0 then False
              else case ParseAddr host of None \<Rightarrow> False | Some address \<Rightarrow> IsLoopback address)"

text \<open>\<^verbatim>\<open>url.Parse\<close> is an argument; \<open>None\<close> is its error.\<close>

definition validS3Endpoint :: "(string \<Rightarrow> parsed_url option) \<Rightarrow> string \<Rightarrow> bool" where
  "validS3Endpoint url_Parse value_text =
     (if strings_Contains value_text ''#'' then False
      else case url_Parse value_text of
        None \<Rightarrow> False
      | Some parsed \<Rightarrow>
          if pu_Scheme parsed \<noteq> ''http'' \<or> pu_Host parsed = '''' \<or> pu_User parsed then False
          else if pu_Path parsed \<noteq> '''' \<or> pu_RawPath parsed \<noteq> '''' \<or> pu_ForceQuery parsed \<or>
                  pu_RawQuery parsed \<noteq> '''' \<or> pu_Fragment parsed \<noteq> '''' then False
          else validLoopbackAddress (pu_Host parsed))"

subsection \<open>White space\<close>

text \<open>The white space of \<^verbatim>\<open>unicode.IsSpace\<close> in UTF-8, and \<^verbatim>\<open>strings.TrimSpace\<close>.\<close>

definition spaces :: "string list" where
  "spaces =
     map (\<lambda>c. [c]) [CHR 0x09, CHR 0x0A, CHR 0x0B, CHR 0x0C, CHR 0x0D, CHR 0x20] @
     [[CHR 0xC2, CHR 0x85], [CHR 0xC2, CHR 0xA0], [CHR 0xE1, CHR 0x9A, CHR 0x80]] @
     map (\<lambda>c. [CHR 0xE2, CHR 0x80, c])
       [CHR 0x80, CHR 0x81, CHR 0x82, CHR 0x83, CHR 0x84, CHR 0x85, CHR 0x86, CHR 0x87, CHR 0x88, CHR 0x89,
        CHR 0x8A, CHR 0xA8, CHR 0xA9, CHR 0xAF] @
     [[CHR 0xE2, CHR 0x81, CHR 0x9F], [CHR 0xE3, CHR 0x80, CHR 0x80]]"

function trim_left :: "string list \<Rightarrow> string \<Rightarrow> string" where
  "trim_left ps s =
     (case find (\<lambda>p. p \<noteq> [] \<and> HasPrefix s p) ps of None \<Rightarrow> s | Some p \<Rightarrow> trim_left ps (drop (length p) s))"
  by pat_completeness auto
termination
  by (relation "measure (\<lambda>(ps, s). length s)") (auto simp: find_Some_iff HasPrefix_iff)

declare trim_left.simps [simp del]

definition TrimSpace :: "string \<Rightarrow> string" where
  "TrimSpace s = rev (trim_left (map rev spaces) (rev (trim_left spaces s)))"

subsection \<open>Durations\<close>

text \<open>
  \<^verbatim>\<open>time.ParseDuration\<close>: the sum of a sequence of decimal numbers with units.  The accumulator is a
  \<^verbatim>\<open>uint64\<close>, checked against \<open>2 ^ 63\<close> after each step.  For the digits after a decimal point the source
  computes \<^verbatim>\<open>uint64(float64(f) * (float64(unit) / scale))\<close>; this product is an argument, applied to the
  digits' value, the unit and the number of digits.
\<close>

fun leadingInt :: "string \<Rightarrow> int \<Rightarrow> (int \<times> string) option" where
  "leadingInt [] x = Some (x, [])"
| "leadingInt (c # s) x =
     (case digit_value c of
        None \<Rightarrow> Some (x, c # s)
      | Some d \<Rightarrow>
          if x > 2 ^ 63 div 10 then None
          else if x * 10 + d > 2 ^ 63 then None
          else leadingInt s (x * 10 + d))"

fun leadingFraction :: "string \<Rightarrow> int \<Rightarrow> nat \<Rightarrow> bool \<Rightarrow> int \<times> nat \<times> string" where
  "leadingFraction [] x scale overflow = (x, scale, [])"
| "leadingFraction (c # s) x scale overflow =
     (case digit_value c of
        None \<Rightarrow> (x, scale, c # s)
      | Some d \<Rightarrow>
          if overflow \<or> x > (2 ^ 63 - 1) div 10 \<or> x * 10 + d > 2 ^ 63
          then leadingFraction s x scale True
          else leadingFraction s (x * 10 + d) (Suc scale) False)"

definition unitMap :: "string \<Rightarrow> int option" where
  "unitMap =
     map_of [(''ns'', 1), (''us'', microsecond), (CHR 0xC2 # CHR 0xB5 # ''s'', microsecond),
       (CHR 0xCE # CHR 0xBC # ''s'', microsecond), (''ms'', 1000000), (''s'', second), (''m'', minute), (''h'', hour)]"

definition unit_char :: "char \<Rightarrow> bool" where
  "unit_char c = (c \<noteq> CHR ''.'' \<and> digit_value c = None)"

text \<open>One number with its unit: what it adds, and the rest of the text.\<close>

definition parse_term :: "(int \<Rightarrow> int \<Rightarrow> nat \<Rightarrow> int) \<Rightarrow> string \<Rightarrow> (int \<times> string) option" where
  "parse_term product s =
     (case leadingInt s 0 of
        None \<Rightarrow> None
      | Some (v, r) \<Rightarrow>
          let pre = (length r \<noteq> length s); dot = HasPrefix r ''.'';
              (f, scale, r') = (if dot then leadingFraction (tl r) 0 0 False else (0, 0, r));
              post = (dot \<and> length r' \<noteq> length (tl r))
          in if \<not> pre \<and> \<not> post then None
             else if takeWhile unit_char r' = [] then None
             else case unitMap (takeWhile unit_char r') of
               None \<Rightarrow> None
             | Some unit \<Rightarrow>
                 if v > 2 ^ 63 div unit then None
                 else let v' = (if f > 0 then (v * unit + product f unit scale) mod 2 ^ 64 else v * unit)
                   in if v' > 2 ^ 63 then None else Some (v', dropWhile unit_char r'))"

lemma parse_term_rest:
  assumes "parse_term product s = Some (v, r)"
  shows "length r < length s"
proof -
  have int: "leadingInt t x = Some (y, t') \<Longrightarrow> length t' \<le> length t" for t x y t'
    by (induction t x rule: leadingInt.induct) (fastforce split: option.splits if_splits)+
  have frac: "leadingFraction t x k b = (y, k', t') \<Longrightarrow> length t' \<le> length t" for t x k b y k' t'
    by (induction t x k b rule: leadingFraction.induct) (fastforce split: option.splits if_splits)+
  have skip: "takeWhile P t \<noteq> [] \<Longrightarrow> length (dropWhile P t) < length t" for P and t :: string
    by (metis length_append length_greater_0_conv less_add_same_cancel2 takeWhile_dropWhile_id)
  show ?thesis
    using assms unfolding parse_term_def
    by (auto simp: Let_def HasPrefix_single dest!: int frac skip split: option.splits if_splits prod.splits)
qed

function duration_terms :: "(int \<Rightarrow> int \<Rightarrow> nat \<Rightarrow> int) \<Rightarrow> string \<Rightarrow> int \<Rightarrow> int option" where
  "duration_terms product s d =
     (if s = [] then Some d
      else case parse_term product s of
        None \<Rightarrow> None
      | Some (v, r) \<Rightarrow>
          if (d + v) mod 2 ^ 64 > 2 ^ 63 then None else duration_terms product r ((d + v) mod 2 ^ 64))"
  by pat_completeness auto
termination
  by (relation "measure (\<lambda>(product, s, d). length s)") (auto dest: parse_term_rest)

declare duration_terms.simps [simp del]

definition ParseDuration :: "(int \<Rightarrow> int \<Rightarrow> nat \<Rightarrow> int) \<Rightarrow> string \<Rightarrow> duration option" where
  "ParseDuration product s =
     (let neg = HasPrefix s ''-''; body = (if neg \<or> HasPrefix s ''+'' then tl s else s)
      in if body = ''0'' then Some 0
         else if body = '''' then None
         else case duration_terms product body 0 of
           None \<Rightarrow> None
         | Some d \<Rightarrow> if neg then Some (- d) else if d > 2 ^ 63 - 1 then None else Some d)"

subsection \<open>The configuration\<close>

definition defaultHTTPAddr :: string where "defaultHTTPAddr = ''127.0.0.1:8080''"
definition defaultFinalizeClaimLease :: duration where "defaultFinalizeClaimLease = 30 * second"
definition s3OperationTimeout :: duration where "s3OperationTimeout = 10 * second"

record config =
  HTTPAddr :: string
  DatabaseURL :: string
  S3Bucket :: string
  AWSRegion :: string
  S3Endpoint :: string
  FinalizeClaimLease :: duration

text \<open>The last two checks of \<^verbatim>\<open>loadConfigFrom\<close> concern the lease.\<close>

definition configured_lease ::
  "(int \<Rightarrow> int \<Rightarrow> nat \<Rightarrow> int) \<Rightarrow> config \<Rightarrow> string \<Rightarrow> string + config" where
  "configured_lease product cfg rawLease =
     (let check = (\<lambda>cfg. if FinalizeClaimLease cfg < s3OperationTimeout + microsecond
            then Inl ''claim lease does not exceed the S3 operation timeout'' else Inr cfg)
      in if rawLease \<noteq> '''' then
           (case ParseDuration product rawLease of
              None \<Rightarrow> Inl ''invalid FINALIZE_CLAIM_LEASE''
            | Some lease \<Rightarrow> check (cfg\<lparr>FinalizeClaimLease := lease\<rparr>))
         else check cfg)"

definition loadConfigFrom ::
  "(string \<Rightarrow> parsed_url option) \<Rightarrow> (int \<Rightarrow> int \<Rightarrow> nat \<Rightarrow> int) \<Rightarrow> (string \<Rightarrow> string) \<Rightarrow> string + config" where
  "loadConfigFrom url_Parse product getenv =
     (let cfg0 =
        \<lparr>HTTPAddr = TrimSpace (getenv ''HTTP_ADDR''), DatabaseURL = getenv ''DATABASE_URL'',
         S3Bucket = TrimSpace (getenv ''S3_BUCKET''), AWSRegion = TrimSpace (getenv ''AWS_REGION''),
         S3Endpoint = TrimSpace (getenv ''S3_ENDPOINT''), FinalizeClaimLease = defaultFinalizeClaimLease\<rparr>;
        cfg = (if HTTPAddr cfg0 = '''' then cfg0\<lparr>HTTPAddr := defaultHTTPAddr\<rparr> else cfg0)
      in if DatabaseURL cfg = '''' then Inl ''missing DATABASE_URL''
         else if S3Bucket cfg = '''' then Inl ''missing S3_BUCKET''
         else if AWSRegion cfg = '''' then Inl ''missing AWS_REGION''
         else if \<not> validLoopbackAddress (HTTPAddr cfg) then Inl ''invalid HTTP_ADDR''
         else if S3Endpoint cfg \<noteq> '''' \<and> \<not> validS3Endpoint url_Parse (S3Endpoint cfg) then Inl ''invalid S3_ENDPOINT''
         else configured_lease product cfg (TrimSpace (getenv ''FINALIZE_CLAIM_LEASE'')))"

subsection \<open>Decimal numerals in the three loops\<close>

lemma digit_bounds: "digit_value c = Some d \<Longrightarrow> 0 \<le> d \<and> d \<le> 9"
  using of_nat_of_char [of c, where 'a = int]
  by (auto simp: digit_value_def less_eq_char_def split: if_splits)

lemma digit_zero: "digit_value c = Some 0 \<Longrightarrow> c = CHR ''0''"
proof -
  assume "digit_value c = Some 0"
  then have "of_char c = (of_char (CHR ''0'') :: int)" by (simp add: digit_value_def split: if_splits)
  then show "c = CHR ''0''" by (simp only: of_char_eq_iff)
qed

lemma digits_value_ge: "digits_value t acc = Some v \<Longrightarrow> 0 \<le> acc \<Longrightarrow> acc \<le> v"
proof (induction t arbitrary: acc)
  case (Cons c t)
  then obtain d where d: "digit_value c = Some d" "digits_value t (10 * acc + d) = Some v"
    by (auto split: option.splits)
  then show ?case using Cons.IH [OF d(2)] Cons.prems(2) digit_bounds [OF d(1)] by linarith
qed simp

lemma decimal_cons:
  assumes "0 < n"
  obtains x xs d where "decimal_nat n = x # xs" "digit_value x = Some d" "0 < d" "d \<le> 9"
    "digits_value xs d = Some (int n)"
proof -
  obtain x xs where xs: "decimal_nat n = x # xs" "digit_value x \<noteq> None"
    using decimal_digits [of n] by (cases "decimal_nat n") auto
  then obtain d where d: "digit_value x = Some d" by blast
  moreover have "x \<noteq> CHR ''0''" using decimal_head [OF assms] xs(1) by simp
  ultimately have "0 < d" using digit_zero [of x] digit_bounds [OF d] by (cases "d = 0") auto
  then show ?thesis
    using that [OF xs(1) d] digit_bounds [OF d] digits_value_decimal [of n] xs(1) d by simp
qed

lemma ipv4_digits:
  "digits_value t acc = Some v \<Longrightarrow> v \<le> 255 \<Longrightarrow> 0 < acc \<Longrightarrow>
     ipv4_fields (t @ s) acc k qs = ipv4_fields s v (k + length t) qs"
proof (induction t arbitrary: acc k)
  case (Cons c t)
  then obtain d where d: "digit_value c = Some d" "digits_value t (10 * acc + d) = Some v"
    by (auto split: option.splits)
  have "0 < 10 * acc + d" "10 * acc + d \<le> 255"
    using digits_value_ge [OF d(2)] digit_bounds [OF d(1)] Cons.prems(2,3) by linarith+
  then show ?case using Cons.IH [OF d(2) Cons.prems(2)] d(1) Cons.prems(3) by (simp add: mult.commute)
qed simp

lemma ipv4_decimal:
  assumes "n \<le> 255"
  obtains k where "\<And>s qs. ipv4_fields (decimal_nat n @ s) 0 0 qs = ipv4_fields s (int n) (Suc k) qs"
proof (cases "n = 0")
  case True
  then show ?thesis using that [of 0] by (simp add: decimal_nat.simps digit_value_def)
next
  case False
  then obtain x xs d where x: "decimal_nat n = x # xs" "digit_value x = Some d" "0 < d" "d \<le> 9"
    "digits_value xs d = Some (int n)" using decimal_cons by blast
  then show ?thesis using that [of "length xs"] ipv4_digits [OF x(5), of _ 1] assms by simp
qed

lemma leadingInt_digits:
  "digits_value t acc = Some v \<Longrightarrow> 0 \<le> acc \<Longrightarrow> acc \<le> 2 ^ 63 \<Longrightarrow> s = [] \<or> digit_value (hd s) = None \<Longrightarrow>
     leadingInt (t @ s) acc = (if v \<le> 2 ^ 63 then Some (v, s) else None)"
proof (induction t arbitrary: acc)
  case Nil
  then show ?case by (cases s) auto
next
  case (Cons c t)
  then obtain d where d: "digit_value c = Some d" "digits_value t (10 * acc + d) = Some v"
    by (auto split: option.splits)
  have ge: "10 * acc + d \<le> v" and nn: "0 \<le> 10 * acc + d"
    using digits_value_ge [OF d(2)] digit_bounds [OF d(1)] Cons.prems(2) by linarith+
  show ?case
  proof (cases "10 * acc + d \<le> 2 ^ 63")
    case True
    then show ?thesis
      using Cons.IH [OF d(2) nn] Cons.prems(4) d(1) digit_bounds [OF d(1)] by (simp add: mult.commute)
  next
    case False
    then show ?thesis using ge d(1) by (simp add: mult.commute)
  qed
qed

subsection \<open>Loopback addresses in dotted decimal\<close>

definition dotted_quad :: "nat \<Rightarrow> nat \<Rightarrow> nat \<Rightarrow> nat \<Rightarrow> string" where
  "dotted_quad a b c d =
     decimal_nat a @ CHR ''.'' # decimal_nat b @ CHR ''.'' # decimal_nat c @ CHR ''.'' # decimal_nat d"

lemma ipv4_dot:
  assumes "n \<le> 255" and "s \<noteq> []" and "length qs < 3"
  shows "ipv4_fields (decimal_nat n @ CHR ''.'' # s) 0 0 qs = ipv4_fields s 0 0 (qs @ [int n])"
proof -
  obtain k where "\<And>s qs. ipv4_fields (decimal_nat n @ s) 0 0 qs = ipv4_fields s (int n) (Suc k) qs"
    using ipv4_decimal [OF assms(1)] by blast
  then show ?thesis using assms(2,3) by (simp add: digit_value_def)
qed

lemma ipv4_last:
  assumes "n \<le> 255" and "length qs = 3"
  shows "ipv4_fields (decimal_nat n) 0 0 qs = Some (qs @ [int n])"
proof -
  obtain k where "\<And>s qs. ipv4_fields (decimal_nat n @ s) 0 0 qs = ipv4_fields s (int n) (Suc k) qs"
    using ipv4_decimal [OF assms(1)] by blast
  from this [of "[]" qs] show ?thesis using assms(2) by simp
qed

lemma decimal_set: "x \<in> set (decimal_nat n) \<Longrightarrow> digit_value x \<noteq> None"
  using decimal_digits [of n] by (simp add: list_all_iff)

lemma separator_not_digit [simp]:
  "digit_value CHR ''.'' = None" "digit_value CHR '':'' = None" "digit_value CHR ''['' = None"
  "digit_value CHR '']'' = None" "digit_value CHR ''%'' = None" "digit_value CHR ''s'' = None"
  by (simp_all add: digit_value_def)

lemma dotted_set: "x \<in> set (dotted_quad a b c d) \<Longrightarrow> digit_value x \<noteq> None \<or> x = CHR ''.''"
  using decimal_set by (auto simp: dotted_quad_def)

lemma ParseAddr_dotted:
  assumes "a \<le> 255" "b \<le> 255" "c \<le> 255" "d \<le> 255"
  shows "ParseAddr (dotted_quad a b c d) = Some (IPv4 [int a, int b, int c, int d])"
proof -
  have skip: "x \<in> set (decimal_nat a) \<Longrightarrow> x \<notin> {CHR ''.'', CHR '':'', CHR ''%''}" for x
    using decimal_set [of x a] by auto
  have "dropWhile (\<lambda>c. c \<notin> {CHR ''.'', CHR '':'', CHR ''%''}) (dotted_quad a b c d) =
      CHR ''.'' # decimal_nat b @ CHR ''.'' # decimal_nat c @ CHR ''.'' # decimal_nat d"
    unfolding dotted_quad_def by (subst dropWhile_append2) (use skip in auto)
  moreover have "decimal_nat n \<noteq> []" for n using decimal_digits by blast
  then have "ipv4_fields (dotted_quad a b c d) 0 0 [] = Some [int a, int b, int c, int d]"
    unfolding dotted_quad_def using assms by (simp add: ipv4_dot ipv4_last)
  ultimately show ?thesis by (simp add: ParseAddr_def parseIPv4_def)
qed

lemma split_last_append:
  assumes "c \<notin> set b"
  shows "split_last c (a @ c # b) = Some (a, b)"
proof -
  have "takeWhile ((\<noteq>) c) (rev b @ c # rev a) = rev b" "dropWhile ((\<noteq>) c) (rev b @ c # rev a) = c # rev a"
    using assms by (auto simp: takeWhile_append dropWhile_append)
  then show ?thesis by (simp add: split_last_def split_first_def)
qed

lemma SplitHostPort_plain:
  assumes "\<And>x. x \<in> set host \<union> set port \<Longrightarrow> x \<notin> {CHR '':'', CHR ''['', CHR '']''}"
  shows "SplitHostPort (host @ CHR '':'' # port) = Some (host, port)"
proof -
  have "split_last CHR '':'' (host @ CHR '':'' # port) = Some (host, port)"
    using assms by (intro split_last_append) auto
  moreover have "hd (host @ CHR '':'' # port) \<noteq> CHR ''[''"
    using assms [of "hd host"] by (cases host) auto
  ultimately show ?thesis using assms by (auto simp: SplitHostPort_def)
qed

lemma ParseUint16_decimal: "ParseUint 16 (decimal_nat p) = (if p < 65536 then Some (int p) else None)"
  using decimal_digits [of p] digits_value_decimal [of p] by (simp add: ParseUint_def)

lemma loopback_dotted:
  assumes "a \<le> 255" "b \<le> 255" "c \<le> 255" "d \<le> 255"
  shows "validLoopbackAddress (dotted_quad a b c d @ CHR '':'' # decimal_nat p) \<longleftrightarrow> a = 127 \<and> 0 < p \<and> p < 65536"
proof -
  have "SplitHostPort (dotted_quad a b c d @ CHR '':'' # decimal_nat p) = Some (dotted_quad a b c d, decimal_nat p)"
  proof (rule SplitHostPort_plain)
    fix x assume "x \<in> set (dotted_quad a b c d) \<union> set (decimal_nat p)"
    then have "digit_value x \<noteq> None \<or> x = CHR ''.''" using dotted_set decimal_set by blast
    then show "x \<notin> {CHR '':'', CHR ''['', CHR '']''}" by auto
  qed
  then show ?thesis
    using ParseAddr_dotted [OF assms] decimal_digits [of p]
    by (auto simp: validLoopbackAddress_def ParseUint16_decimal)
qed

subsection \<open>Leases\<close>

lemma ParseDuration_seconds:
  "ParseDuration product (decimal_nat n @ ''s'') = (if n \<le> 9223372036 then Some (int n * second) else None)"
proof -
  obtain x xs where xs: "decimal_nat n = x # xs" "digit_value x \<noteq> None"
    using decimal_digits [of n] by (cases "decimal_nat n") auto
  then have sign: "\<not> HasPrefix (decimal_nat n @ ''s'') ''-''" "\<not> HasPrefix (decimal_nat n @ ''s'') ''+''"
    using digit_not_sign [OF xs(2)] by (simp_all add: HasPrefix_single)
  have lead: "leadingInt (decimal_nat n @ ''s'') 0 = (if int n \<le> 2 ^ 63 then Some (int n, ''s'') else None)"
    by (rule leadingInt_digits [OF digits_value_decimal]) auto
  have term_s: "parse_term product (decimal_nat n @ ''s'') =
      (if n \<le> 9223372036 then Some (int n * second, '''') else None)"
    unfolding parse_term_def lead
    using decimal_digits [of n] by (auto simp: unit_char_def unitMap_def HasPrefix_single)
  have "duration_terms product (decimal_nat n @ ''s'') 0 = (if n \<le> 9223372036 then Some (int n * second) else None)"
    by (subst duration_terms.simps) (simp add: term_s duration_terms.simps [of product "''''"])
  moreover have "decimal_nat n @ ''s'' \<noteq> ''0''" using xs by (cases xs) auto
  ultimately show ?thesis using sign by (simp add: ParseDuration_def)
qed

lemma duration_terms_bound: "duration_terms product s d = Some v \<Longrightarrow> 0 \<le> d \<Longrightarrow> d \<le> 2 ^ 63 \<Longrightarrow> 0 \<le> v \<and> v \<le> 2 ^ 63"
proof (induction product s d rule: duration_terms.induct)
  case (1 product s d)
  show ?case
  proof (cases "s = []")
    case True
    then show ?thesis using "1.prems" by (simp add: duration_terms.simps)
  next
    case False
    then obtain x r where x: "parse_term product s = Some (x, r)"
      and v: "\<not> (d + x) mod 2 ^ 64 > 2 ^ 63" "duration_terms product r ((d + x) mod 2 ^ 64) = Some v"
      using "1.prems"(1) by (subst (asm) duration_terms.simps) (auto split: if_split_asm option.split_asm)
    from 1(1) [OF False x refl v] v(1) show ?thesis by (simp add: not_less)
  qed
qed

lemma ParseDuration_bound: "ParseDuration product s = Some d \<Longrightarrow> - (2 ^ 63) \<le> d \<and> d < 2 ^ 63"
  using duration_terms_bound [of product _ 0]
  by (fastforce simp: ParseDuration_def Let_def split: if_splits option.splits)

lemma configured_lease_Inr:
  assumes "configured_lease product cfg raw = Inr cfg'" and "FinalizeClaimLease cfg = defaultFinalizeClaimLease"
  shows "s3OperationTimeout < FinalizeClaimLease cfg'" "FinalizeClaimLease cfg' < 2 ^ 63"
    "cfg' = cfg\<lparr>FinalizeClaimLease := FinalizeClaimLease cfg'\<rparr>"
  using assms ParseDuration_bound [of product raw]
  by (auto simp: configured_lease_def Let_def defaultFinalizeClaimLease_def s3OperationTimeout_def
      split: if_splits option.splits)

subsection \<open>What an accepted configuration promises\<close>

definition config_ok :: "(string \<Rightarrow> parsed_url option) \<Rightarrow> config \<Rightarrow> bool" where
  "config_ok url_Parse cfg =
     (validLoopbackAddress (HTTPAddr cfg) \<and> DatabaseURL cfg \<noteq> '''' \<and> S3Bucket cfg \<noteq> '''' \<and> AWSRegion cfg \<noteq> '''' \<and>
      (S3Endpoint cfg = '''' \<or> validS3Endpoint url_Parse (S3Endpoint cfg)) \<and>
      s3OperationTimeout < FinalizeClaimLease cfg \<and> FinalizeClaimLease cfg < 2 ^ 63)"

lemma loadConfigFrom_Inr:
  assumes "loadConfigFrom url_Parse product getenv = Inr cfg"
  shows "config_ok url_Parse cfg" "DatabaseURL cfg = getenv ''DATABASE_URL''"
    "TrimSpace (getenv ''HTTP_ADDR'') \<noteq> '''' \<Longrightarrow> HTTPAddr cfg = TrimSpace (getenv ''HTTP_ADDR'')"
proof -
  define cfg0 where "cfg0 =
    (let addr = TrimSpace (getenv ''HTTP_ADDR'')
     in \<lparr>HTTPAddr = (if addr = '''' then defaultHTTPAddr else addr), DatabaseURL = getenv ''DATABASE_URL'',
         S3Bucket = TrimSpace (getenv ''S3_BUCKET''), AWSRegion = TrimSpace (getenv ''AWS_REGION''),
         S3Endpoint = TrimSpace (getenv ''S3_ENDPOINT''), FinalizeClaimLease = defaultFinalizeClaimLease\<rparr>)"
  have checks: "DatabaseURL cfg0 \<noteq> ''''" "S3Bucket cfg0 \<noteq> ''''" "AWSRegion cfg0 \<noteq> ''''"
    "validLoopbackAddress (HTTPAddr cfg0)" "S3Endpoint cfg0 = '''' \<or> validS3Endpoint url_Parse (S3Endpoint cfg0)"
    and lease: "configured_lease product cfg0 (TrimSpace (getenv ''FINALIZE_CLAIM_LEASE'')) = Inr cfg"
    using assms unfolding loadConfigFrom_def cfg0_def by (auto simp: Let_def split: if_splits)
  have "FinalizeClaimLease cfg0 = defaultFinalizeClaimLease" by (simp add: cfg0_def Let_def)
  note lease = configured_lease_Inr [OF lease this]
  then have same: "HTTPAddr cfg = HTTPAddr cfg0" "DatabaseURL cfg = DatabaseURL cfg0" "S3Bucket cfg = S3Bucket cfg0"
    "AWSRegion cfg = AWSRegion cfg0" "S3Endpoint cfg = S3Endpoint cfg0"
    by (metis config.select_convs config.surjective config.update_convs(6))+
  show "config_ok url_Parse cfg"
    using checks lease(1,2) unfolding config_ok_def same by (intro conjI)
  show "DatabaseURL cfg = getenv ''DATABASE_URL''" unfolding same cfg0_def by (simp add: Let_def)
  show "TrimSpace (getenv ''HTTP_ADDR'') \<noteq> '''' \<Longrightarrow> HTTPAddr cfg = TrimSpace (getenv ''HTTP_ADDR'')"
    unfolding same cfg0_def by (simp add: Let_def)
qed

end
