(* ===== verification/Startup.thy ===== *)
theory Startup
  imports Config
begin

section \<open>The life of the process\<close>

text \<open>
  Models \<^verbatim>\<open>Run\<close> of \<^verbatim>\<open>run.go\<close> with \<^verbatim>\<open>openPostgres\<close>, \<^verbatim>\<open>checkSchemaV1\<close> and \<^verbatim>\<open>newS3Client\<close>, and \<^verbatim>\<open>main\<close>: the
  order in which the process acquires and releases what it uses, on every path.  An operation returns
  the list of actions it took and its error.  The libraries' answers and the race between the end of the
  server and the cancellation of the context are fields of \<open>process\<close>.  What the server and the
  workers do meanwhile is the subject of the other theories.
\<close>

subsection \<open>Actions and answers\<close>

record http_limits =
  hl_ReadHeaderTimeout :: duration
  hl_ReadTimeout :: duration
  hl_WriteTimeout :: duration
  hl_IdleTimeout :: duration
  hl_MaxHeaderBytes :: int

record s3_options =
  so_Region :: string
  so_BaseEndpoint :: "string option"
  so_UsePathStyle :: bool

datatype action =
  OpenPool string string duration
  | ClosePool
  | NewClient s3_options
  | Listen string
  | StartFinalizer duration
  | StartMaintenance
  | StopWorkers
  | WaitWorkers
  | Serve http_limits
  | AwaitServe
  | SetStopping
  | Shutdown duration
  | CloseServer
  | LogInfo string
  | LogError string
  | Exit int

text \<open>The error of \<^verbatim>\<open>server.Serve\<close>, and what the \<^verbatim>\<open>select\<close> of \<^verbatim>\<open>Run\<close> sees first.\<close>

datatype serve_end = ServeNil | ErrServerClosed | ServeFailed
datatype wakeup = ServeEnded serve_end | ContextDone

record process =
  ps_ParseConfig :: "string \<Rightarrow> bool"
  ps_NewPool :: bool
  ps_Ping :: bool
  ps_Ledger :: "(int \<times> int) option"
  ps_LoadAWS :: "string \<Rightarrow> bool"
  ps_Listen :: "string \<Rightarrow> bool"
  ps_Select :: wakeup
  ps_Shutdown :: bool
  ps_ServeEnd :: serve_end
  ps_urlParse :: "string \<Rightarrow> parsed_url option"
  ps_product :: "int \<Rightarrow> int \<Rightarrow> nat \<Rightarrow> int"

type_synonym 'a outcome = "action list \<times> 'a"

text \<open>Actions before an operation, and deferred ones after it.\<close>

definition after :: "action list \<Rightarrow> 'a outcome \<Rightarrow> 'a outcome" where
  "after t r = (t @ fst r, snd r)"

definition deferred :: "action list \<Rightarrow> 'a outcome \<Rightarrow> 'a outcome" where
  "deferred t r = (fst r @ t, snd r)"

lemma outcome_simps [simp]:
  "fst (after t r) = t @ fst r" "snd (after t r) = snd r"
  "fst (deferred t r) = fst r @ t" "snd (deferred t r) = snd r"
  by (simp_all add: after_def deferred_def)

subsection \<open>Opening the database and the client\<close>

definition databaseStartupTimeout :: duration where "databaseStartupTimeout = 5 * second"
definition shutdownTimeout :: duration where "shutdownTimeout = 10 * second"
definition maxHeaderBytes :: int where "maxHeaderBytes = 12288"

definition validateSchemaV1 :: "int \<Rightarrow> int \<Rightarrow> string option" where
  "validateSchemaV1 rows latest =
     (if rows \<noteq> 1 \<or> latest \<noteq> 1 then Some ''schema ledger must contain exactly version 1'' else None)"

definition checkSchemaV1 :: "process \<Rightarrow> string option" where
  "checkSchemaV1 P =
     (case ps_Ledger P of
        None \<Rightarrow> Some ''schema ledger check failed''
      | Some (rows, latest) \<Rightarrow> validateSchemaV1 rows latest)"

definition openPostgres :: "process \<Rightarrow> string \<Rightarrow> (string option) outcome" where
  "openPostgres P databaseURL =
     (if \<not> ps_ParseConfig P databaseURL then ([], Some ''postgres configuration is invalid'')
      else if \<not> ps_NewPool P then ([], Some ''postgres pool creation failed'')
      else
        let opened = [OpenPool databaseURL ''s3-media-upload'' databaseStartupTimeout]
        in if \<not> ps_Ping P then (opened @ [ClosePool], Some ''postgres startup ping failed'')
           else case checkSchemaV1 P of
             Some err \<Rightarrow> (opened @ [ClosePool], Some err)
           | None \<Rightarrow> (opened, None))"

definition client_options :: "config \<Rightarrow> s3_options" where
  "client_options cfg =
     \<lparr>so_Region = AWSRegion cfg,
      so_BaseEndpoint = (if S3Endpoint cfg \<noteq> '''' then Some (S3Endpoint cfg) else None),
      so_UsePathStyle = (S3Endpoint cfg \<noteq> '''')\<rparr>"

definition newS3Client :: "process \<Rightarrow> config \<Rightarrow> (string option) outcome" where
  "newS3Client P cfg =
     (if \<not> ps_LoadAWS P (AWSRegion cfg) then ([], Some ''aws configuration load failed'')
      else ([NewClient (client_options cfg)], None))"

definition newHTTPServer :: http_limits where
  "newHTTPServer =
     \<lparr>hl_ReadHeaderTimeout = 5 * second, hl_ReadTimeout = 10 * second, hl_WriteTimeout = 10 * second,
      hl_IdleTimeout = 60 * second, hl_MaxHeaderBytes = maxHeaderBytes\<rparr>"

subsection \<open>Serving and stopping\<close>

text \<open>\<^verbatim>\<open>Run\<close> after the cancellation of the context, and from the start of the server.\<close>

definition shut_down :: "process \<Rightarrow> (string option) outcome" where
  "shut_down P =
     after ([SetStopping, LogInfo ''service.stopping'', StopWorkers, Shutdown shutdownTimeout] @
         (if ps_Shutdown P then [] else [CloseServer]) @ [AwaitServe, WaitWorkers])
       (if \<not> ps_Shutdown P then ([], Some ''http server shutdown failed'')
        else if ps_ServeEnd P \<noteq> ServeNil \<and> ps_ServeEnd P \<noteq> ErrServerClosed
        then ([], Some ''http server stopped unexpectedly'')
        else ([LogInfo ''service.stopped''], None))"

definition serve :: "process \<Rightarrow> (string option) outcome" where
  "serve P =
     after [Serve newHTTPServer, LogInfo ''service.started'']
       (case ps_Select P of
          ServeEnded err \<Rightarrow>
            ([], if err \<noteq> ErrServerClosed then Some ''http server stopped unexpectedly'' else None)
        | ContextDone \<Rightarrow> shut_down P)"

text \<open>\<^verbatim>\<open>Run\<close> once the database is open.\<close>

definition run_service :: "process \<Rightarrow> config \<Rightarrow> (string option) outcome" where
  "run_service P cfg =
     (case newS3Client P cfg of
        (t, Some err) \<Rightarrow> (t, Some err)
      | (t, None) \<Rightarrow> after t
          (if \<not> ps_Listen P (HTTPAddr cfg) then ([], Some ''http listener creation failed'')
           else after [Listen (HTTPAddr cfg), StartFinalizer (FinalizeClaimLease cfg), StartMaintenance]
             (deferred [StopWorkers, WaitWorkers] (serve P))))"

definition Run :: "process \<Rightarrow> (string \<Rightarrow> string) \<Rightarrow> (string option) outcome" where
  "Run P getenv =
     (case loadConfigFrom (ps_urlParse P) (ps_product P) getenv of
        Inl err \<Rightarrow> ([], Some err)
      | Inr cfg \<Rightarrow>
          (case openPostgres P (DatabaseURL cfg) of
             (t, Some err) \<Rightarrow> (t, Some err)
           | (t, None) \<Rightarrow> after t (deferred [ClosePool] (run_service P cfg))))"

text \<open>The actions of \<^verbatim>\<open>main\<close>, with the exit code.\<close>

definition main :: "process \<Rightarrow> (string \<Rightarrow> string) \<Rightarrow> action list" where
  "main P getenv =
     (case Run P getenv of
        (t, Some err) \<Rightarrow> t @ [LogError ''service.start_failed'', Exit 1]
      | (t, None) \<Rightarrow> t @ [Exit 0])"

subsection \<open>What every run does\<close>

text \<open>The shape of a run: what was acquired, in order, and what follows its release.\<close>

lemma openPostgres_shape:
  "openPostgres P url =
     (if snd (openPostgres P url) = None then ([OpenPool url ''s3-media-upload'' databaseStartupTimeout], None)
      else (fst (openPostgres P url), snd (openPostgres P url)))"
  by (auto simp: openPostgres_def Let_def split: option.splits)

lemma openPostgres_None:
  "snd (openPostgres P url) = None \<longleftrightarrow>
     ps_ParseConfig P url \<and> ps_NewPool P \<and> ps_Ping P \<and> ps_Ledger P = Some (1, 1)"
  by (auto simp: openPostgres_def checkSchemaV1_def validateSchemaV1_def Let_def split: option.splits)

lemma openPostgres_closes:
  "snd (openPostgres P url) \<noteq> None \<Longrightarrow>
     fst (openPostgres P url) \<in> {[], [OpenPool url ''s3-media-upload'' databaseStartupTimeout, ClosePool]}"
  by (auto simp: openPostgres_def Let_def split: option.splits)

text \<open>How the server ends, whatever the environment answers.\<close>

lemma serve_actions:
  "OpenPool u n d \<notin> set (fst (serve P))" "Listen a \<notin> set (fst (serve P))" "StartFinalizer l \<notin> set (fst (serve P))"
  by (auto simp: serve_def shut_down_def split: wakeup.splits if_splits)

definition graceful :: "process \<Rightarrow> bool" where
  "graceful P =
     (case ps_Select P of ServeEnded err \<Rightarrow> err = ErrServerClosed | ContextDone \<Rightarrow> ps_Shutdown P \<and> ps_ServeEnd P \<noteq> ServeFailed)"

lemma serve_None: "snd (serve P) = None \<longleftrightarrow> graceful P"
  using serve_end.exhaust by (auto simp: serve_def shut_down_def graceful_def split: wakeup.splits if_splits)

lemma Run_cases:
  obtains (config) err where "loadConfigFrom (ps_urlParse P) (ps_product P) getenv = Inl err" "Run P getenv = ([], Some err)"
  | (database) cfg err where "loadConfigFrom (ps_urlParse P) (ps_product P) getenv = Inr cfg"
      "snd (openPostgres P (DatabaseURL cfg)) = Some err" "Run P getenv = (fst (openPostgres P (DatabaseURL cfg)), Some err)"
  | (service) cfg where "loadConfigFrom (ps_urlParse P) (ps_product P) getenv = Inr cfg" "ps_Ledger P = Some (1, 1)"
      "Run P getenv =
        (OpenPool (DatabaseURL cfg) ''s3-media-upload'' databaseStartupTimeout # fst (run_service P cfg) @ [ClosePool],
         snd (run_service P cfg))"
proof (cases "loadConfigFrom (ps_urlParse P) (ps_product P) getenv")
  case (Inl err)
  then show ?thesis using config by (simp add: Run_def)
next
  case (Inr cfg)
  show ?thesis
  proof (cases "snd (openPostgres P (DatabaseURL cfg))")
    case (Some err)
    then show ?thesis
      using database [OF Inr Some] Inr by (cases "openPostgres P (DatabaseURL cfg)") (simp add: Run_def)
  next
    case None
    then have "openPostgres P (DatabaseURL cfg) =
        ([OpenPool (DatabaseURL cfg) ''s3-media-upload'' databaseStartupTimeout], None)"
      using openPostgres_shape [of P "DatabaseURL cfg"] by simp
    moreover have "ps_Ledger P = Some (1, 1)" using None openPostgres_None by blast
    ultimately show ?thesis
      using service [OF Inr] Inr by (simp add: Run_def after_def deferred_def)
  qed
qed

text \<open>Once the workers run, the run ends by stopping them, waiting for them and closing the pool.\<close>

lemma run_service_workers:
  assumes "StartFinalizer lease \<in> set (fst (run_service P cfg))"
  shows "lease = FinalizeClaimLease cfg" "\<exists>t. fst (run_service P cfg) = t @ [StopWorkers, WaitWorkers]"
  using assms serve_actions(3) [of lease P]
  by (auto simp: run_service_def newS3Client_def split: if_splits)

lemma run_service_listen:
  "Listen a \<in> set (fst (run_service P cfg)) \<Longrightarrow> a = HTTPAddr cfg"
  using serve_actions(2) [of a P] by (auto simp: run_service_def newS3Client_def split: if_splits)

lemma run_service_None:
  "snd (run_service P cfg) = None \<longleftrightarrow> ps_LoadAWS P (AWSRegion cfg) \<and> ps_Listen P (HTTPAddr cfg) \<and> graceful P"
  using serve_None [of P] by (simp add: run_service_def newS3Client_def)

end
