(* ===== verification/Process.thy ===== *)
theory Process
  imports Startup Lifecycle
begin

section \<open>The goroutines of the process\<close>

text \<open>
  Models \<^verbatim>\<open>Run\<close> of \<^verbatim>\<open>run.go\<close> from the start of the workers as the goroutines it consists of: \<^verbatim>\<open>Run\<close> itself, the
  finalizer, the maintenance worker, the goroutine of \<^verbatim>\<open>server.Serve\<close> with its channel, and the handlers of
  the requests in flight.  They take steps in any order.  \<^verbatim>\<open>Startup.thy\<close> follows \<^verbatim>\<open>Run\<close> alone, with the
  outcome of the race in its arguments; here the race is run, and every way it ends is one of those.

  Of \<^verbatim>\<open>net/http\<close> the model uses: \<^verbatim>\<open>Serve\<close> returns after a failure to accept, or with \<^verbatim>\<open>ErrServerClosed\<close> after
  the listener was closed, and no request is accepted from then on; \<^verbatim>\<open>Shutdown\<close> closes the listener, then
  returns without an error once no request is in flight, or with one at its deadline.  A worker returns
  only after its context is cancelled (its loop is the subject of \<^verbatim>\<open>Loops.thy\<close>).
\<close>

subsection \<open>States\<close>

datatype serve_pc = Serving | Sending serve_end | ServeReturned

text \<open>Where \<^verbatim>\<open>Run\<close> is: at the \<^verbatim>\<open>select\<close>; in \<^verbatim>\<open>Shutdown\<close> before and after closing the listener; receiving from
  \<open>serveResult\<close>; waiting for the workers; in the deferred calls with its result; returned.\<close>

datatype run_pc =
  Selecting
| ShuttingDown
| Draining
| Receiving bool
| Joining bool serve_end
| Unwinding "string option"
| DeferredWait "string option"
| DeferredClose "string option"
| RunReturned "string option"

record goroutines =
  gr_run :: run_pc
  gr_serve :: serve_pc
  gr_serveResult :: "serve_end option"
  gr_finalizer :: bool
  gr_maintenance :: bool
  gr_cancelled :: bool
  gr_stopWorkers :: bool
  gr_closed :: bool
  gr_handlers :: nat
  gr_actions :: "action list"

definition started :: "config \<Rightarrow> goroutines" where
  "started cfg =
     \<lparr>gr_run = Selecting, gr_serve = Serving, gr_serveResult = None, gr_finalizer = True, gr_maintenance = True,
      gr_cancelled = False, gr_stopWorkers = False, gr_closed = False, gr_handlers = 0,
      gr_actions = [NewClient (client_options cfg), Listen (HTTPAddr cfg), StartFinalizer (FinalizeClaimLease cfg),
        StartMaintenance, Serve newHTTPServer, LogInfo ''service.started'']\<rparr>"

definition workers_done :: "goroutines \<Rightarrow> bool" where
  "workers_done g = (\<not> gr_finalizer g \<and> \<not> gr_maintenance g)"

definition worker_context_done :: "goroutines \<Rightarrow> bool" where
  "worker_context_done g = (gr_cancelled g \<or> gr_stopWorkers g)"

text \<open>\<^verbatim>\<open>Run\<close> takes a step: its new place and the actions.\<close>

definition run_to :: "run_pc \<Rightarrow> action list \<Rightarrow> goroutines \<Rightarrow> goroutines" where
  "run_to pc acts g = g\<lparr>gr_run := pc, gr_actions := gr_actions g @ acts\<rparr>"

definition serve_error :: "serve_end \<Rightarrow> string option" where
  "serve_error err = (if err \<noteq> ErrServerClosed then Some ''http server stopped unexpectedly'' else None)"

definition shutdown_result :: "bool \<Rightarrow> serve_end \<Rightarrow> string option" where
  "shutdown_result ok err =
     (if \<not> ok then Some ''http server shutdown failed''
      else if err \<noteq> ServeNil \<and> err \<noteq> ErrServerClosed then Some ''http server stopped unexpectedly''
      else None)"

subsection \<open>Steps\<close>

inductive go_step :: "goroutines \<Rightarrow> goroutines \<Rightarrow> bool" where
  cancel: "\<not> gr_cancelled g \<Longrightarrow> go_step g (g\<lparr>gr_cancelled := True\<rparr>)"
| accept: "gr_serve g = Serving \<Longrightarrow> \<not> gr_closed g \<Longrightarrow> go_step g (g\<lparr>gr_handlers := Suc (gr_handlers g)\<rparr>)"
| answer: "gr_handlers g = Suc n \<Longrightarrow> go_step g (g\<lparr>gr_handlers := n\<rparr>)"
| serve_fails: "gr_serve g = Serving \<Longrightarrow> \<not> gr_closed g \<Longrightarrow> go_step g (g\<lparr>gr_serve := Sending ServeFailed\<rparr>)"
| serve_closed: "gr_serve g = Serving \<Longrightarrow> gr_closed g \<Longrightarrow> go_step g (g\<lparr>gr_serve := Sending ErrServerClosed\<rparr>)"
| serve_sends: "gr_serve g = Sending err \<Longrightarrow> gr_serveResult g = None \<Longrightarrow>
     go_step g (g\<lparr>gr_serve := ServeReturned, gr_serveResult := Some err\<rparr>)"
| finalizer_returns: "gr_finalizer g \<Longrightarrow> worker_context_done g \<Longrightarrow> go_step g (g\<lparr>gr_finalizer := False\<rparr>)"
| maintenance_returns: "gr_maintenance g \<Longrightarrow> worker_context_done g \<Longrightarrow> go_step g (g\<lparr>gr_maintenance := False\<rparr>)"
| select_result: "gr_run g = Selecting \<Longrightarrow> gr_serveResult g = Some err \<Longrightarrow>
     go_step g (run_to (Unwinding (serve_error err)) [] (g\<lparr>gr_serveResult := None\<rparr>))"
| select_done: "gr_run g = Selecting \<Longrightarrow> gr_cancelled g \<Longrightarrow>
     go_step g (run_to ShuttingDown [SetStopping, LogInfo ''service.stopping'', StopWorkers] (g\<lparr>gr_stopWorkers := True\<rparr>))"
| shutdown: "gr_run g = ShuttingDown \<Longrightarrow> go_step g (run_to Draining [Shutdown shutdownTimeout] (g\<lparr>gr_closed := True\<rparr>))"
| drained: "gr_run g = Draining \<Longrightarrow> gr_handlers g = 0 \<Longrightarrow> go_step g (run_to (Receiving True) [] g)"
| deadline: "gr_run g = Draining \<Longrightarrow> go_step g (run_to (Receiving False) [CloseServer] g)"
| receive: "gr_run g = Receiving ok \<Longrightarrow> gr_serveResult g = Some err \<Longrightarrow>
     go_step g (run_to (Joining ok err) [AwaitServe] (g\<lparr>gr_serveResult := None\<rparr>))"
| join: "gr_run g = Joining ok err \<Longrightarrow> workers_done g \<Longrightarrow>
     go_step g (run_to (Unwinding (shutdown_result ok err))
       (WaitWorkers # (if shutdown_result ok err = None then [LogInfo ''service.stopped''] else [])) g)"
| deferred_stop: "gr_run g = Unwinding r \<Longrightarrow>
     go_step g (run_to (DeferredWait r) [StopWorkers] (g\<lparr>gr_stopWorkers := True\<rparr>))"
| deferred_wait: "gr_run g = DeferredWait r \<Longrightarrow> workers_done g \<Longrightarrow>
     go_step g (run_to (DeferredClose r) [WaitWorkers] g)"
| deferred_close: "gr_run g = DeferredClose r \<Longrightarrow> go_step g (run_to (RunReturned r) [ClosePool] g)"

abbreviation go_steps :: "goroutines \<Rightarrow> goroutines \<Rightarrow> bool" where
  "go_steps \<equiv> go_step\<^sup>*\<^sup>*"

subsection \<open>Every interleaving is a run of the sequential model\<close>

text \<open>What the sequential model would have done up to the place where \<^verbatim>\<open>Run\<close> is.\<close>

definition stopping_actions :: "action list" where
  "stopping_actions = [SetStopping, LogInfo ''service.stopping'', StopWorkers]"

definition shutdown_actions :: "bool \<Rightarrow> action list" where
  "shutdown_actions ok = stopping_actions @ [Shutdown shutdownTimeout] @ (if ok then [] else [CloseServer])"

definition joined_actions :: "bool \<Rightarrow> serve_end \<Rightarrow> action list" where
  "joined_actions ok err = shutdown_actions ok @ [AwaitServe, WaitWorkers] @
     (if shutdown_result ok err = None then [LogInfo ''service.stopped''] else [])"

text \<open>\<^verbatim>\<open>Run\<close> leaves the \<^verbatim>\<open>select\<close> with result \<open>r\<close> after the actions \<open>t\<close>.\<close>

definition race_ended :: "goroutines \<Rightarrow> string option \<Rightarrow> action list \<Rightarrow> bool" where
  "race_ended g r t =
     (gr_serve g = ServeReturned \<and>
      ((\<exists>err. err \<noteq> ErrServerClosed \<and> r = serve_error err \<and> t = []) \<or>
       (\<exists>ok err. r = shutdown_result ok err \<and> t = joined_actions ok err \<and> err \<noteq> ServeNil \<and>
          workers_done g \<and> gr_cancelled g \<and> gr_closed g \<and> (ok \<longrightarrow> gr_handlers g = 0))))"

text \<open>What holds where \<^verbatim>\<open>Run\<close> is, after its actions \<open>t\<close>.\<close>

fun reached :: "run_pc \<Rightarrow> goroutines \<Rightarrow> action list \<Rightarrow> bool" where
  "reached Selecting g t = (t = [] \<and> \<not> gr_closed g)"
| "reached ShuttingDown g t = (t = stopping_actions \<and> gr_cancelled g \<and> \<not> gr_closed g)"
| "reached Draining g t = (t = shutdown_actions True \<and> gr_cancelled g \<and> gr_closed g)"
| "reached (Receiving ok) g t =
     (t = shutdown_actions ok \<and> gr_cancelled g \<and> gr_closed g \<and> (ok \<longrightarrow> gr_handlers g = 0))"
| "reached (Joining ok err) g t =
     (t = shutdown_actions ok @ [AwaitServe] \<and> gr_cancelled g \<and> gr_closed g \<and> (ok \<longrightarrow> gr_handlers g = 0) \<and>
      err \<noteq> ServeNil \<and> gr_serve g = ServeReturned)"
| "reached (Unwinding r) g t = race_ended g r t"
| "reached (DeferredWait r) g t = (gr_stopWorkers g \<and> (\<exists>t'. t = t' @ [StopWorkers] \<and> race_ended g r t'))"
| "reached (DeferredClose r) g t =
     (workers_done g \<and> (\<exists>t'. t = t' @ [StopWorkers, WaitWorkers] \<and> race_ended g r t'))"
| "reached (RunReturned r) g t =
     (workers_done g \<and> (\<exists>t'. t = t' @ [StopWorkers, WaitWorkers, ClosePool] \<and> race_ended g r t'))"

text \<open>\<^verbatim>\<open>Run\<close> has not yet received the end of the server.\<close>

fun awaiting :: "run_pc \<Rightarrow> bool" where
  "awaiting Selecting = True"
| "awaiting ShuttingDown = True"
| "awaiting Draining = True"
| "awaiting (Receiving _) = True"
| "awaiting _ = False"

definition end_ok :: "goroutines \<Rightarrow> serve_end \<Rightarrow> bool" where
  "end_ok g err = (err \<noteq> ServeNil \<and> (err = ErrServerClosed \<longrightarrow> gr_closed g))"

definition channel_ok :: "goroutines \<Rightarrow> bool" where
  "channel_ok g =
     ((gr_serve g \<noteq> ServeReturned \<longrightarrow> gr_serveResult g = None \<and> awaiting (gr_run g)) \<and>
      (\<forall>err. gr_serve g = Sending err \<longrightarrow> end_ok g err) \<and>
      (\<forall>err. gr_serveResult g = Some err \<longrightarrow> end_ok g err) \<and>
      (gr_serve g = ServeReturned \<longrightarrow> (gr_serveResult g = None) = (\<not> awaiting (gr_run g))))"

definition process_inv :: "config \<Rightarrow> goroutines \<Rightarrow> bool" where
  "process_inv cfg g =
     (channel_ok g \<and> (\<exists>t. gr_actions g = gr_actions (started cfg) @ t \<and> reached (gr_run g) g t))"

lemma run_to_simps [simp]:
  "gr_run (run_to pc acts g) = pc" "gr_actions (run_to pc acts g) = gr_actions g @ acts"
  "gr_serve (run_to pc acts g) = gr_serve g" "gr_serveResult (run_to pc acts g) = gr_serveResult g"
  "gr_finalizer (run_to pc acts g) = gr_finalizer g" "gr_maintenance (run_to pc acts g) = gr_maintenance g"
  "gr_cancelled (run_to pc acts g) = gr_cancelled g" "gr_stopWorkers (run_to pc acts g) = gr_stopWorkers g"
  "gr_closed (run_to pc acts g) = gr_closed g" "gr_handlers (run_to pc acts g) = gr_handlers g"
  "workers_done (run_to pc acts g) = workers_done g"
  by (simp_all add: run_to_def workers_done_def)

lemma race_ended_frame [simp]:
  "race_ended (run_to pc acts g) r t = race_ended g r t"
  "race_ended (g\<lparr>gr_stopWorkers := b\<rparr>) r t = race_ended g r t"
  by (simp_all add: race_ended_def workers_done_def)

lemma race_ended_returned: "race_ended g r t \<Longrightarrow> gr_serve g = ServeReturned"
  by (simp add: race_ended_def)

text \<open>What the other goroutines do does not disturb \<^verbatim>\<open>Run\<close>.\<close>

definition undisturbed :: "goroutines \<Rightarrow> goroutines \<Rightarrow> bool" where
  "undisturbed g g' =
     (gr_run g' = gr_run g \<and> gr_actions g' = gr_actions g \<and> gr_closed g' = gr_closed g \<and>
      gr_stopWorkers g' = gr_stopWorkers g \<and> (gr_cancelled g \<longrightarrow> gr_cancelled g') \<and>
      (workers_done g \<longrightarrow> workers_done g') \<and> (gr_serve g = ServeReturned \<longrightarrow> gr_serve g' = ServeReturned) \<and>
      (gr_closed g \<longrightarrow> gr_handlers g' \<le> gr_handlers g))"

lemma race_undisturbed: "undisturbed g g' \<Longrightarrow> race_ended g r t \<Longrightarrow> race_ended g' r t"
  unfolding race_ended_def undisturbed_def by (elim conjE disjE exE) (blast, fastforce)

lemma reached_undisturbed: "undisturbed g g' \<Longrightarrow> reached pc g t \<Longrightarrow> reached pc g' t"
proof -
  assume und: "undisturbed g g'" and "reached pc g t"
  from und have "gr_closed g' = gr_closed g" "gr_stopWorkers g' = gr_stopWorkers g" "gr_cancelled g \<Longrightarrow> gr_cancelled g'"
    "workers_done g \<Longrightarrow> workers_done g'" "gr_serve g = ServeReturned \<Longrightarrow> gr_serve g' = ServeReturned"
    "gr_closed g \<Longrightarrow> gr_handlers g' \<le> gr_handlers g" by (simp_all add: undisturbed_def)
  with \<open>reached pc g t\<close> race_undisturbed [OF und] show "reached pc g' t" by (cases pc) fastforce+
qed

lemma process_inv_others:
  "process_inv cfg g \<Longrightarrow> undisturbed g g' \<Longrightarrow> channel_ok g' \<Longrightarrow> process_inv cfg g'"
proof -
  assume und: "undisturbed g g'" and "channel_ok g'" and "process_inv cfg g"
  then obtain t where "gr_actions g = gr_actions (started cfg) @ t" "reached (gr_run g) g t"
    by (auto simp: process_inv_def)
  moreover have "gr_run g' = gr_run g" "gr_actions g' = gr_actions g" using und by (simp_all add: undisturbed_def)
  ultimately show "process_inv cfg g'"
    using reached_undisturbed [OF und] \<open>channel_ok g'\<close> by (simp add: process_inv_def)
qed

lemma race_joined:
  assumes "reached (Joining ok err) g t" and "workers_done g"
  shows "race_ended g (shutdown_result ok err)
    (t @ WaitWorkers # (if shutdown_result ok err = None then [LogInfo ''service.stopped''] else []))"
  unfolding race_ended_def using assms
  by (intro conjI disjI2 exI [of _ ok] exI [of _ err]) (simp_all add: joined_actions_def)

lemma process_inv_started: "process_inv cfg (started cfg)"
  by (simp add: process_inv_def started_def channel_ok_def)

lemma go_step_inv: "go_step g g' \<Longrightarrow> process_inv cfg g \<Longrightarrow> process_inv cfg g'"
proof (induction rule: go_step.induct)
  case (select_result g err)
  then show ?case
    by (auto simp: process_inv_def channel_ok_def end_ok_def race_ended_def serve_error_def)
next
  case (select_done g)
  then show ?case
    by (auto simp: process_inv_def channel_ok_def end_ok_def stopping_actions_def)
next
  case (shutdown g)
  then show ?case
    by (auto simp: process_inv_def channel_ok_def end_ok_def shutdown_actions_def)
next
  case (drained g)
  then show ?case
    by (auto simp: process_inv_def channel_ok_def end_ok_def)
next
  case (deadline g)
  then show ?case
    by (auto simp: process_inv_def channel_ok_def end_ok_def shutdown_actions_def)
next
  case (receive g ok err)
  then show ?case
    by (auto simp: process_inv_def channel_ok_def end_ok_def)
next
  case (join g ok err)
  then obtain t where t: "gr_actions g = gr_actions (started cfg) @ t" "reached (Joining ok err) g t"
    by (auto simp: process_inv_def simp del: reached.simps)
  have "channel_ok (run_to (Unwinding (shutdown_result ok err)) acts g)" for acts
    using join t(2) by (auto simp: process_inv_def channel_ok_def)
  then show ?case
    using t(1) race_joined [OF t(2) join(2)] by (simp add: process_inv_def)
next
  case (deferred_stop g r)
  then show ?case
    by (auto simp: process_inv_def channel_ok_def end_ok_def dest: race_ended_returned)
next
  case (deferred_wait g r)
  then show ?case
    by (auto simp: process_inv_def channel_ok_def end_ok_def dest: race_ended_returned)
next
  case (deferred_close g r)
  then show ?case
    by (auto simp: process_inv_def channel_ok_def end_ok_def dest: race_ended_returned)
qed (rule process_inv_others, assumption, simp add: undisturbed_def workers_done_def,
     (auto simp: process_inv_def channel_ok_def end_ok_def)[1])+

text \<open>What has happened stays so, and the invariant holds in every state of the process.\<close>

definition progresses :: "goroutines \<Rightarrow> goroutines \<Rightarrow> bool" where
  "progresses g g' =
     ((\<exists>t. gr_actions g' = gr_actions g @ t) \<and> (gr_cancelled g \<longrightarrow> gr_cancelled g') \<and>
      (gr_closed g \<longrightarrow> gr_closed g') \<and> (workers_done g \<longrightarrow> workers_done g'))"

interpretation goroutines: transition_system progresses go_step "started cfg" "process_inv cfg" for cfg
proof unfold_locales
  fix g g' assume "go_step g g'"
  then show "progresses g g'" by cases (auto simp: progresses_def workers_done_def run_to_def)
qed (auto simp: progresses_def process_inv_started intro: go_step_inv)

text \<open>The arguments of the sequential model that tell how the race ended.\<close>

definition with_race :: "process \<Rightarrow> wakeup \<Rightarrow> bool \<Rightarrow> serve_end \<Rightarrow> process" where
  "with_race P sel ok err = P\<lparr>ps_Select := sel, ps_Shutdown := ok, ps_ServeEnd := err\<rparr>"

lemma race_sequential:
  assumes "race_ended g r t" and "ps_LoadAWS P (AWSRegion cfg)" and "ps_Listen P (HTTPAddr cfg)"
  shows "\<exists>sel ok err. run_service (with_race P sel ok err) cfg =
    (gr_actions (started cfg) @ t @ [StopWorkers, WaitWorkers], r)"
  using assms(1) unfolding race_ended_def
proof (elim conjE disjE exE)
  fix err assume "err \<noteq> ErrServerClosed" "r = serve_error err" "t = []"
  then show ?thesis using assms(2,3)
    by (intro exI [of _ "ServeEnded err"] exI)
       (simp add: run_service_def newS3Client_def serve_def with_race_def started_def serve_error_def after_def deferred_def)
next
  fix ok err assume "r = shutdown_result ok err" "t = joined_actions ok err"
  then show ?thesis using assms(2,3)
    by (intro exI [of _ ContextDone] exI [of _ ok] exI [of _ err])
       (simp add: run_service_def newS3Client_def serve_def shut_down_def with_race_def started_def after_def deferred_def
          shutdown_result_def joined_actions_def shutdown_actions_def stopping_actions_def)
qed

lemma returned_race:
  assumes "process_inv cfg g" and "gr_run g = RunReturned r"
  obtains t where "gr_actions g = gr_actions (started cfg) @ t @ [StopWorkers, WaitWorkers, ClosePool]"
    and "race_ended g r t" and "workers_done g"
  using assms that by (auto simp: process_inv_def)

lemma race_None:
  assumes "race_ended g None t"
  shows "gr_cancelled g" and "gr_closed g" and "gr_handlers g = 0"
  using assms by (auto simp: race_ended_def serve_error_def shutdown_result_def split: if_splits)

subsection \<open>The process ends\<close>

fun run_rank :: "run_pc \<Rightarrow> nat" where
  "run_rank Selecting = 8"
| "run_rank ShuttingDown = 7"
| "run_rank Draining = 6"
| "run_rank (Receiving _) = 5"
| "run_rank (Joining _ _) = 4"
| "run_rank (Unwinding _) = 3"
| "run_rank (DeferredWait _) = 2"
| "run_rank (DeferredClose _) = 1"
| "run_rank (RunReturned _) = 0"

fun serve_rank :: "serve_pc \<Rightarrow> nat" where
  "serve_rank Serving = 2"
| "serve_rank (Sending _) = 1"
| "serve_rank ServeReturned = 0"

text \<open>The steps that are left once no request is accepted any more.\<close>

definition steps_left :: "goroutines \<Rightarrow> nat" where
  "steps_left g =
     run_rank (gr_run g) + serve_rank (gr_serve g) + gr_handlers g + of_bool (gr_finalizer g) +
     of_bool (gr_maintenance g) + of_bool (\<not> gr_cancelled g)"

lemma go_step_decreases: "go_step g g' \<Longrightarrow> gr_closed g \<Longrightarrow> gr_closed g' \<and> steps_left g' < steps_left g"
  by (induction rule: go_step.induct) (simp_all add: steps_left_def run_to_def)

lemma go_steps_bounded: "(go_step ^^ n) g g' \<Longrightarrow> gr_closed g \<Longrightarrow> n + steps_left g' \<le> steps_left g"
proof (induction n arbitrary: g)
  case (Suc n)
  from Suc.prems(1) obtain h where h: "go_step g h" "(go_step ^^ n) h g'" by (metis relpowp_Suc_D2)
  note step = go_step_decreases [OF h(1) Suc.prems(2)]
  from Suc.IH [OF h(2)] step show ?case by simp
qed simp

text \<open>Once the context is cancelled, some goroutine can always take \<^verbatim>\<open>Run\<close> further.\<close>

lemma worker_step:
  assumes "\<not> workers_done g" and "worker_context_done g"
  shows "\<exists>g'. go_step g g' \<and> steps_left g' < steps_left g"
proof (cases "gr_finalizer g")
  case True
  then show ?thesis
    using go_step.finalizer_returns [OF True assms(2)] by (intro exI) (auto simp: steps_left_def)
next
  case False
  then have "gr_maintenance g" using assms(1) by (simp add: workers_done_def)
  then show ?thesis
    using go_step.maintenance_returns [OF _ assms(2)] by (intro exI) (auto simp: steps_left_def)
qed

lemma go_progress:
  assumes inv: "process_inv cfg g" and "gr_cancelled g" and "\<forall>r. gr_run g \<noteq> RunReturned r"
  shows "\<exists>g'. go_step g g' \<and> steps_left g' < steps_left g"
proof (cases "gr_run g")
  case Selecting
  then show ?thesis
    using go_step.select_done [OF Selecting assms(2)] by (intro exI) (auto simp: steps_left_def)
next
  case ShuttingDown
  then show ?thesis using go_step.shutdown [OF ShuttingDown] by (intro exI) (auto simp: steps_left_def)
next
  case Draining
  then show ?thesis using go_step.deadline [OF Draining] by (intro exI) (auto simp: steps_left_def)
next
  case (Receiving ok)
  show ?thesis
  proof (cases "gr_serveResult g")
    case None
    then have "gr_serve g \<noteq> ServeReturned" "gr_closed g"
      using inv Receiving by (auto simp: process_inv_def channel_ok_def)
    then consider "gr_serve g = Serving" "gr_closed g" | err where "gr_serve g = Sending err"
      by (cases "gr_serve g") auto
    then show ?thesis
    proof cases
      case 1
      then show ?thesis using go_step.serve_closed [OF 1] by (intro exI) (auto simp: steps_left_def)
    next
      case 2
      then show ?thesis using go_step.serve_sends [OF 2 None] by (intro exI) (auto simp: steps_left_def)
    qed
  next
    case (Some err)
    then show ?thesis using go_step.receive [OF Receiving Some] Receiving by (intro exI) (auto simp: steps_left_def)
  qed
next
  case (Joining ok err)
  show ?thesis
  proof (cases "workers_done g")
    case True
    then show ?thesis using go_step.join [OF Joining True] Joining by (intro exI) (auto simp: steps_left_def)
  next
    case False
    then show ?thesis using worker_step assms(2) by (simp add: worker_context_done_def)
  qed
next
  case (Unwinding r)
  then show ?thesis using go_step.deferred_stop [OF Unwinding] by (intro exI) (auto simp: steps_left_def)
next
  case (DeferredWait r)
  show ?thesis
  proof (cases "workers_done g")
    case True
    then show ?thesis using go_step.deferred_wait [OF DeferredWait True] DeferredWait by (intro exI) (auto simp: steps_left_def)
  next
    case False
    then show ?thesis using worker_step assms(2) by (simp add: worker_context_done_def)
  qed
next
  case (DeferredClose r)
  then show ?thesis using go_step.deferred_close [OF DeferredClose] by (intro exI) (auto simp: steps_left_def)
qed (use assms(3) in simp)

lemma run_returns:
  "process_inv cfg g \<Longrightarrow> gr_cancelled g \<Longrightarrow> \<exists>g' r. go_steps g g' \<and> gr_run g' = RunReturned r"
proof (induction "steps_left g" arbitrary: g rule: less_induct)
  case less
  show ?case
  proof (cases "\<exists>r. gr_run g = RunReturned r")
    case False
    with go_progress [OF less.prems] obtain g' where g': "go_step g g'" "steps_left g' < steps_left g" by blast
    then have "process_inv cfg g'" "gr_cancelled g'"
      using goroutines.rely_step [OF g'(1) less.prems(1)] goroutines.inv_step [OF g'(1) less.prems(1)] less.prems(2)
      by (auto simp: progresses_def)
    with less.hyps [OF g'(2)] g'(1) show ?thesis by (blast intro: converse_rtranclp_into_rtranclp)
  qed blast
qed

text \<open>A run that ends well: the context is cancelled while no request is in flight.\<close>

definition cancelled_process :: "config \<Rightarrow> goroutines" where
  "cancelled_process cfg = (started cfg)\<lparr>gr_cancelled := True\<rparr>"

lemma cancelled_reached: "go_steps (started cfg) (cancelled_process cfg)"
  unfolding cancelled_process_def by (intro r_into_rtranclp go_step.cancel) (simp add: started_def)

lemma graceful_run: "\<exists>g. go_steps (started cfg) g \<and> gr_run g = RunReturned None"
proof -
  let ?stopping = "run_to ShuttingDown [SetStopping, LogInfo ''service.stopping'', StopWorkers]
    ((cancelled_process cfg)\<lparr>gr_stopWorkers := True\<rparr>)"
  let ?closed = "run_to Draining [Shutdown shutdownTimeout] (?stopping\<lparr>gr_closed := True\<rparr>)"
  let ?drained = "run_to (Receiving True) [] ?closed"
  let ?ended = "?drained\<lparr>gr_serve := Sending ErrServerClosed\<rparr>"
  let ?sent = "?ended\<lparr>gr_serve := ServeReturned, gr_serveResult := Some ErrServerClosed\<rparr>"
  let ?received = "run_to (Joining True ErrServerClosed) [AwaitServe] (?sent\<lparr>gr_serveResult := None\<rparr>)"
  let ?one = "?received\<lparr>gr_finalizer := False\<rparr>"
  let ?both = "?one\<lparr>gr_maintenance := False\<rparr>"
  note simps = started_def cancelled_process_def run_to_def worker_context_done_def workers_done_def shutdown_result_def
  have steps: "go_step (cancelled_process cfg) ?stopping" "go_step ?stopping ?closed" "go_step ?closed ?drained"
    "go_step ?drained ?ended" "go_step ?ended ?sent" "go_step ?sent ?received" "go_step ?received ?one" "go_step ?one ?both"
    by (rule go_step.intros; simp add: simps)+
  have "gr_run ?both = Joining True ErrServerClosed" "workers_done ?both" by (simp_all add: simps)
  from go_step.join [OF this] obtain g1 where g1: "go_step ?both g1" "gr_run g1 = Unwinding None" "workers_done g1"
    by (force simp: simps)
  from go_step.deferred_stop [OF g1(2)] g1(3) obtain g2 where
    g2: "go_step g1 g2" "gr_run g2 = DeferredWait None" "workers_done g2" by (force simp: simps)
  from go_step.deferred_wait [OF g2(2,3)] obtain g3 where g3: "go_step g2 g3" "gr_run g3 = DeferredClose None"
    by (force simp: simps)
  from go_step.deferred_close [OF g3(2)] obtain g4 where "go_step g3 g4" "gr_run g4 = RunReturned None"
    by (force simp: simps)
  with cancelled_reached [of cfg] steps g1(1) g2(1) g3(1) show ?thesis
    by (meson rtranclp.rtrancl_into_rtrancl)
qed

end
