(* ===== verification/Responses.thy ===== *)
theory Responses
  imports Http
begin

section \<open>The text of a response\<close>

text \<open>
  Models the encoding of the response bodies of \<^verbatim>\<open>http.go\<close>: the structs with their \<^verbatim>\<open>json\<close> tags and, of
  \<^verbatim>\<open>encoding/json\<close>, the encoder with its escaping of HTML characters.  A string that is valid UTF-8 is
  read back unchanged by the decoder of \<^verbatim>\<open>Json.thy\<close>, and the documents are read back by a reader of JSON, which
  stands for a client.  Instants are in UTC, as the source keeps them.
\<close>

subsection \<open>Strings\<close>

definition escape_unicode :: "nat \<Rightarrow> string" where
  "escape_unicode n =
     [CHR 0x5C, CHR ''u'', hex_digit (n div 4096 mod 16), hex_digit (n div 256 mod 16), hex_digit (n div 16 mod 16),
      hex_digit (n mod 16)]"

text \<open>One byte below \<open>0x80\<close>, as \<^verbatim>\<open>appendString\<close> writes it with \<^verbatim>\<open>escapeHTML\<close>.\<close>

definition encode_ascii :: "char \<Rightarrow> string" where
  "encode_ascii c =
     (if c = CHR 0x5C \<or> c = CHR 0x22 then [CHR 0x5C, c]
      else if c = CHR 0x08 then [CHR 0x5C, CHR ''b'']
      else if c = CHR 0x0C then [CHR 0x5C, CHR ''f'']
      else if c = CHR 0x0A then [CHR 0x5C, CHR ''n'']
      else if c = CHR 0x0D then [CHR 0x5C, CHR ''r'']
      else if c = CHR 0x09 then [CHR 0x5C, CHR ''t'']
      else if of_char c < (0x20 :: nat) \<or> c = CHR ''<'' \<or> c = CHR ''>'' \<or> c = CHR ''&'' then escape_unicode (of_char c)
      else [c])"

definition line_separator :: string where "line_separator = [CHR 0xE2, CHR 0x80, CHR 0xA8]"
definition paragraph_separator :: string where "paragraph_separator = [CHR 0xE2, CHR 0x80, CHR 0xA9]"

function encode_string :: "string \<Rightarrow> string" where
  "encode_string s =
     (case s of
        [] \<Rightarrow> []
      | c # r \<Rightarrow>
          if of_char c < (0x80 :: nat) then encode_ascii c @ encode_string r
          else if rune_length s = 0 then escape_unicode 0xFFFD @ encode_string r
          else (let rune = take (rune_length s) s
                in (if rune = line_separator then escape_unicode 0x2028
                    else if rune = paragraph_separator then escape_unicode 0x2029
                    else rune) @ encode_string (drop (rune_length s) s)))"
  by pat_completeness auto
termination
  by (relation "measure length") auto

declare encode_string.simps [simp del]

definition json_string :: "string \<Rightarrow> string" where
  "json_string s = CHR 0x22 # encode_string s @ [CHR 0x22]"

text \<open>Valid UTF-8: a sequence of well-formed runes.\<close>

function utf8_valid :: "string \<Rightarrow> bool" where
  "utf8_valid s =
     (if s = [] then True else if rune_length s = 0 then False else utf8_valid (drop (rune_length s) s))"
  by pat_completeness auto
termination
  by (relation "measure length") auto

declare utf8_valid.simps [simp del]

subsection \<open>What the encoder writes is read back\<close>

lemma hex_value_digit: "n < 16 \<Longrightarrow> hex_value (hex_digit n) = Some (int n)"
  by (drule nibble_cases) (auto simp: hex_digit_def hex_value_def)

lemma nibbles:
  fixes n :: nat
  assumes "n < 65536"
  shows "n div 4096 mod 16 * 4096 + n div 256 mod 16 * 256 + n div 16 mod 16 * 16 + n mod 16 = n"
proof -
  have split: "m div 16 * 16 + m mod 16 = m" for m :: nat by simp
  have "n div 16 div 16 = n div 256" "n div 256 div 16 = n div 4096" by (simp_all add: div_mult2_eq [symmetric])
  with split [of "n div 16"] split [of "n div 256"]
  have "n div 256 * 16 + n div 16 mod 16 = n div 16" "n div 4096 * 16 + n div 256 mod 16 = n div 256" by simp_all
  moreover have "n div 4096 mod 16 = n div 4096" using assms by simp
  ultimately show ?thesis using split [of n] by linarith
qed

lemma getu4_escape:
  assumes "n < 65536"
  shows "getu4 (escape_unicode n @ r) = Some (int n)"
proof -
  have "hex_value (hex_digit (m mod 16)) = Some (int (m mod 16))" for m by (rule hex_value_digit) simp
  then have "getu4 (escape_unicode n @ r) = Some (int (n div 4096 mod 16) * 4096 + int (n div 256 mod 16) * 256 +
      int (n div 16 mod 16) * 16 + int (n mod 16))"
    by (simp only: escape_unicode_def append_Cons append_Nil getu4.simps option.case prod.case simp_thms if_True)
  also have "\<dots> = Some (int (n div 4096 mod 16 * 4096 + n div 256 mod 16 * 256 + n div 16 mod 16 * 16 + n mod 16))"
    by (simp only: of_nat_add of_nat_mult of_nat_numeral)
  finally show ?thesis by (simp only: nibbles [OF assms])
qed

lemma unquote_unicode:
  assumes "n < 65536" and "\<not> is_surrogate (int n)"
  shows "unquote (escape_unicode n @ r) = map_option (apfst ((@) (append_rune (int n)))) (unquote r)"
  using unquote_getu4 [OF _ assms(2)] getu4_escape [OF assms(1), of r]
  by (simp only: escape_unicode_def append_Cons append_Nil)

lemma append_rune_ascii: "of_char c < (0x80 :: nat) \<Longrightarrow> append_rune (int (of_char c)) = [c]"
  by (simp add: append_rune_def)

lemma ascii_int: "of_char c < (n :: nat) \<Longrightarrow> (of_char c :: int) < int n"
  using of_nat_of_char [of c, where 'a = int] by linarith

lemma encode_pair:
  "c \<in> {CHR 0x5C, CHR 0x22, CHR 0x08, CHR 0x0C, CHR 0x0A, CHR 0x0D, CHR 0x09} \<Longrightarrow>
     \<exists>e. encode_ascii c = [CHR 0x5C, e] \<and> escape_value e = Some c"
  by (elim insertE emptyE) (simp_all add: encode_ascii_def escape_value_def)

lemma unquote_ascii:
  assumes "of_char c < (0x80 :: nat)"
  shows "unquote (encode_ascii c @ r) = map_option (apfst ((#) c)) (unquote r)"
proof (cases "c \<in> {CHR 0x5C, CHR 0x22, CHR 0x08, CHR 0x0C, CHR 0x0A, CHR 0x0D, CHR 0x09}")
  case True
  from encode_pair [OF this] obtain e where "encode_ascii c = [CHR 0x5C, e]" "escape_value e = Some c" by blast
  then show ?thesis by (simp only: append_Cons append_Nil) (subst unquote.simps, simp)
next
  case other: False
  have single: "(@) [c] = (#) c" by auto
  show ?thesis
  proof (cases "encode_ascii c = [c]")
    case True
    then have "\<not> of_char c < (0x20 :: nat)"
      using other by (auto simp: encode_ascii_def escape_unicode_def split: if_splits)
    moreover have "int (of_char c) = (of_char c :: int)" by (rule of_nat_of_char)
    moreover have "rune_length (c # r) = 1" using ascii_int [OF assms] by (simp add: rune_length_def Let_def)
    ultimately show ?thesis
      using other single unfolding True by (subst append_Cons, subst unquote.simps) simp
  next
    case False
    then have code: "encode_ascii c = escape_unicode (of_char c)"
      using other by (auto simp: encode_ascii_def split: if_splits)
    have "\<not> is_surrogate (int (of_char c))" using assms by (simp add: is_surrogate_def)
    then show ?thesis
      using unquote_unicode [of "of_char c" r] assms append_rune_ascii [OF assms] single by (simp add: code)
  qed
qed

lemma separators:
  "append_rune 0x2028 = line_separator" "append_rune 0x2029 = paragraph_separator"
  unfolding append_rune_def line_separator_def paragraph_separator_def by code_simp+

lemma unquote_bytes:
  assumes "rune_length s \<noteq> 0" and "\<not> of_char (hd s) < (0x80 :: nat)"
  shows "unquote (take (rune_length s) s @ r) = map_option (apfst ((@) (take (rune_length s) s))) (unquote r)"
proof -
  define k where "k = rune_length s"
  have k: "rune_length (take k s @ r) = k" "k \<le> length s" "k \<noteq> 0"
    using rune_length_prefix [of s k r] assms(1) by (simp_all add: k_def)
  obtain c t where s: "s = c # t" using assms(1) by (cases s) (auto simp: rune_length_def)
  obtain u where u: "take k s = c # u" using k(3) s by (cases k) auto
  have large: "(128 :: nat) \<le> of_char c" using assms(2) s by simp
  then have "(128 :: int) \<le> int (of_char c)" by linarith
  then have "\<not> of_char c < (0x20 :: int)" by (simp only: of_nat_of_char)
  moreover have "c \<noteq> CHR 0x22" "c \<noteq> CHR 0x5C" using large by auto
  moreover have "length (c # u) = k" unfolding u [symmetric] using k(2) by simp
  then have "take k (c # u @ r) = c # u" "drop k (c # u @ r) = r" by auto
  moreover have "rune_length (c # u @ r) = k" using k(1) unfolding u by simp
  ultimately have "unquote (c # u @ r) = map_option (apfst ((@) (c # u))) (unquote r)"
    using k(3) by (subst unquote.simps) (simp only: list.case if_False Let_def)
  then show ?thesis unfolding k_def [symmetric] u by (simp only: append_Cons)
qed

lemma unquote_encode:
  "utf8_valid s \<Longrightarrow> unquote (encode_string s @ CHR 0x22 # r) = Some (s, r)"
proof (induction s rule: utf8_valid.induct)
  case (1 s)
  show ?case
  proof (cases s)
    case Nil
    then show ?thesis by (simp add: encode_string.simps unquote.simps)
  next
    case (Cons c t)
    have len: "rune_length s \<noteq> 0" and rest: "utf8_valid (drop (rune_length s) s)"
      using "1.prems" Cons by (subst (asm) utf8_valid.simps, simp split: if_splits)+
    note IH = "1.IH" [OF _ len rest]
    show ?thesis
    proof (cases "of_char c < (0x80 :: nat)")
      case True
      then have "rune_length s = 1" using ascii_int [OF True] Cons by (simp add: rune_length_def Let_def)
      then have "unquote (encode_string t @ CHR 0x22 # r) = Some (t, r)" using IH Cons by simp
      then show ?thesis using unquote_ascii [OF True] True Cons by (subst encode_string.simps) simp
    next
      case False
      let ?rune = "take (rune_length s) s" and ?rest = "encode_string (drop (rune_length s) s) @ CHR 0x22 # r"
      have IH: "unquote ?rest = Some (drop (rune_length s) s, r)" using IH Cons by simp
      have "encode_string s = (if ?rune = line_separator then escape_unicode 0x2028
          else if ?rune = paragraph_separator then escape_unicode 0x2029 else ?rune) @ encode_string (drop (rune_length s) s)"
        using False len Cons by (subst encode_string.simps) (simp add: Let_def)
      moreover have "unquote (escape_unicode 0x2028 @ ?rest) = Some (line_separator @ drop (rune_length s) s, r)"
        "unquote (escape_unicode 0x2029 @ ?rest) = Some (paragraph_separator @ drop (rune_length s) s, r)"
        using unquote_unicode [of 8232 ?rest] unquote_unicode [of 8233 ?rest] IH separators
        by (simp_all add: is_surrogate_def)
      moreover have "unquote (?rune @ ?rest) = Some (?rune @ drop (rune_length s) s, r)"
        using unquote_bytes [of s ?rest] len False Cons IH by simp
      ultimately have "unquote (encode_string s @ CHR 0x22 # r) = Some (?rune @ drop (rune_length s) s, r)"
        by (cases "?rune = line_separator"; cases "?rune = paragraph_separator")
          (simp_all only: if_True if_False append_assoc simp_thms)
      then show ?thesis by (simp only: append_take_drop_id)
    qed
  qed
qed

subsection \<open>Instants\<close>

text \<open>
  \<^verbatim>\<open>time.Time.MarshalJSON\<close> of an instant in UTC: the layout \<^verbatim>\<open>RFC3339Nano\<close>.  The year is found by an estimate
  that is off by at most one.
\<close>

definition year_of :: "int \<Rightarrow> int" where
  "year_of days =
     (let e = days * 400 div 146097
      in if days_before_year (e + 1) \<le> days then e + 1 else if days_before_year e \<le> days then e else e - 1)"

function month_of :: "int \<Rightarrow> int \<Rightarrow> int \<Rightarrow> int \<times> int" where
  "month_of y m d =
     (if 12 \<le> m \<or> d < days_in_month y m then (m, d + 1) else month_of y (m + 1) (d - days_in_month y m))"
  by pat_completeness auto
termination
  by (relation "measure (\<lambda>(y, m, d). nat (12 - m))") auto

declare month_of.simps [simp del]

definition civil :: "int \<Rightarrow> int \<times> int \<times> int" where
  "civil days = (let y = year_of days in (y, month_of y 1 (days - days_before_year y)))"

definition pad :: "nat \<Rightarrow> int \<Rightarrow> string" where
  "pad k n = replicate (k - length (decimal n)) CHR ''0'' @ decimal n"

text \<open>The fraction of a second without its trailing zeros.\<close>

definition fraction_text :: "int \<Rightarrow> string" where
  "fraction_text ns = (if ns = 0 then '''' else CHR ''.'' # rev (dropWhile ((=) CHR ''0'') (rev (pad 9 ns))))"

definition unix_days :: "time \<Rightarrow> int" where
  "unix_days t = t div second div 86400 + days_before_year 1970"

definition rfc3339 :: "time \<Rightarrow> string" where
  "rfc3339 t =
     (let (y, mo, d) = civil (unix_days t); s = t div second mod 86400
      in pad 4 y @ ''-'' @ pad 2 mo @ ''-'' @ pad 2 d @ ''T'' @ pad 2 (s div 3600) @ '':'' @ pad 2 (s div 60 mod 60) @
         '':'' @ pad 2 (s mod 60) @ fraction_text (t mod second) @ ''Z'')"

text \<open>The calendar is right: the fields of an instant are those of \<^verbatim>\<open>time.Date\<close> that make it.\<close>

lemma div_bounds: "4 * (z div 4) \<le> z" "z < 4 * (z div 4) + 4" "100 * (z div 100) \<le> z" "z < 100 * (z div 100) + 100"
  "400 * (z div 400) \<le> z" "z < 400 * (z div 400) + 400" for z :: int
  by presburger+

lemma days_before_year_bounds:
  assumes "0 \<le> y"
  shows "146097 * y - 399 \<le> 400 * days_before_year y" and "400 * days_before_year y \<le> 146097 * y + 702"
proof -
  show "146097 * y - 399 \<le> 400 * days_before_year y"
    using div_bounds [of "y - 1"] assms unfolding days_before_year_def by (cases "y = 0") (simp, simp)
  show "400 * days_before_year y \<le> 146097 * y + 702"
    using div_bounds [of "y - 1"] assms unfolding days_before_year_def by (cases "y = 0") (simp, simp)
qed

lemma year_of_bounds:
  assumes "0 \<le> days"
  shows "days_before_year (year_of days) \<le> days \<and> days < days_before_year (year_of days + 1) \<and> 0 \<le> year_of days"
proof -
  define e where "e = days * 400 div 146097"
  have e: "146097 * e \<le> 400 * days" "400 * days < 146097 * e + 146097" "0 \<le> e"
    using assms unfolding e_def by (simp_all add: mult.commute)
  have "days < days_before_year (e + 1 + 1)"
    using days_before_year_bounds(1) [of "e + 1 + 1"] e by simp
  moreover have "days_before_year (e - 1) \<le> days" if "0 < e"
    using days_before_year_bounds(2) [of "e - 1"] e that by simp
  moreover have "days_before_year e \<le> days" if "e = 0"
    using that assms by (simp add: days_before_year_def)
  ultimately show ?thesis
    using e(3) unfolding year_of_def Let_def e_def [symmetric] by (cases "e = 0") auto
qed

lemma leap_days:
  fixes y :: int
  assumes "0 < k"
  shows "y div k = (y - 1) div k + (if y mod k = 0 then 1 else 0)"
proof (cases "y mod k = 0")
  case True
  then have "y - 1 = k * (y div k - 1) + (k - 1)"
    using mult_div_mod_eq [of k y] by (simp add: algebra_simps)
  from int_div_pos_eq [OF this] show ?thesis using assms True by simp
next
  case False
  have step: "y - 1 = k * (y div k) + (y mod k - 1)" using mult_div_mod_eq [of k y] by simp
  have "0 < y mod k" using assms False pos_mod_sign [of k y] by linarith
  moreover have "y mod k < k" using assms by (rule pos_mod_bound)
  ultimately have "(y - 1) div k = y div k" by (intro int_div_pos_eq [OF step]) simp_all
  then show ?thesis using False by simp
qed

lemma leap_year_cases: "y mod 400 = 0 \<Longrightarrow> y mod 100 = 0" "y mod 100 = 0 \<Longrightarrow> y mod 4 = 0" for y :: int
proof -
  show "y mod 100 = 0" if "y mod 400 = 0"
  proof -
    have "(100 :: int) dvd 400" by simp
    also have "400 dvd y" using that by (rule mod_0_imp_dvd)
    finally show ?thesis by (rule dvd_imp_mod_0)
  qed
  show "y mod 4 = 0" if "y mod 100 = 0"
  proof -
    have "(4 :: int) dvd 100" by simp
    also have "100 dvd y" using that by (rule mod_0_imp_dvd)
    finally show ?thesis by (rule dvd_imp_mod_0)
  qed
qed

lemma leap_sum:
  "(C \<Longrightarrow> B) \<Longrightarrow> (B \<Longrightarrow> A) \<Longrightarrow>
     x + 365 + (if A then 1 else 0) - (if B then 1 else 0) + (if C then 1 else 0) =
     x + (if A \<and> (\<not> B \<or> C) then 366 else 365 :: int)"
  by (cases A; cases B; cases C) auto

lemma year_length:
  assumes "0 \<le> y"
  shows "days_before_year (y + 1) = days_before_year y + sum_list (map (days_in_month y) [1..12])"
proof -
  have months: "sum_list (map (days_in_month y) [1..12]) = (if leap_year y then 366 else 365)" for y
    by (simp add: upto_rec1 days_in_month_def)
  show ?thesis
  proof (cases "y = 0")
    case True
    then show ?thesis by (simp add: months days_before_year_def leap_year_def)
  next
    case False
    have sum: "366 + 365 * y + (p + a) - (q + b) + (r + c) = 366 + 365 * (y - 1) + p - q + r + 365 + a - b + c"
      for p q r a b c :: int by simp
    have "days_before_year (y + 1) = 366 + 365 * y + y div 4 - y div 100 + y div 400"
      using assms by (simp add: days_before_year_def)
    also have "\<dots> = 366 + 365 * (y - 1) + (y - 1) div 4 - (y - 1) div 100 + (y - 1) div 400 + 365 +
        (if y mod 4 = 0 then 1 else 0) - (if y mod 100 = 0 then 1 else 0) + (if y mod 400 = 0 then 1 else 0)"
      unfolding leap_days [of 4 y, OF zero_less_numeral] leap_days [of 100 y, OF zero_less_numeral] leap_days [of 400 y, OF zero_less_numeral] by (rule sum)
    also have "366 + 365 * (y - 1) + (y - 1) div 4 - (y - 1) div 100 + (y - 1) div 400 = days_before_year y"
      using False by (simp add: days_before_year_def)
    also have "days_before_year y + 365 + (if y mod 4 = 0 then 1 else 0) - (if y mod 100 = 0 then 1 else 0) +
        (if y mod 400 = 0 then 1 else 0) = days_before_year y + (if leap_year y then 366 else 365)"
      unfolding leap_year_def by (rule leap_sum [OF leap_year_cases])
    finally show ?thesis unfolding months .
  qed
qed

lemma month_of_sound:
  "month_of y m d = (mo, dd) \<Longrightarrow> m \<le> 12 \<Longrightarrow>
     m \<le> mo \<and> mo \<le> 12 \<and> d = sum_list (map (days_in_month y) [m..mo - 1]) + dd - 1 \<and>
     (0 \<le> d \<longrightarrow> 1 \<le> dd) \<and> (d < sum_list (map (days_in_month y) [m..12]) \<longrightarrow> dd \<le> days_in_month y mo)"
proof (induction y m d rule: month_of.induct)
  case (1 y m d)
  show ?case
  proof (cases "12 \<le> m \<or> d < days_in_month y m")
    case True
    then have "mo = m" "dd = d + 1" using "1.prems"(1) by (simp_all add: month_of.simps [of y m d])
    then show ?thesis using "1.prems"(2) True by (auto simp: upto_rec1)
  next
    case False
    then have "month_of y (m + 1) (d - days_in_month y m) = (mo, dd)"
      using "1.prems"(1) by (simp add: month_of.simps [of y m d])
    from "1.IH" [OF False this] False show ?thesis by (auto simp: upto_rec1)
  qed
qed

lemma civil_sound:
  assumes "0 \<le> days" and "civil days = (y, mo, d)"
  shows "days = days_before_year y + sum_list (map (days_in_month y) [1..mo - 1]) + d - 1 \<and>
    1 \<le> mo \<and> mo \<le> 12 \<and> 1 \<le> d \<and> d \<le> days_in_month y mo \<and> 0 \<le> y"
proof -
  from assms(2) have y: "y = year_of days" and m: "month_of y 1 (days - days_before_year y) = (mo, d)"
    by (auto simp: civil_def Let_def)
  note bounds = year_of_bounds [OF assms(1), folded y]
  with year_length [of y] month_of_sound [OF m] show ?thesis by auto
qed

text \<open>The instant that the fields of its text denote.\<close>

lemma rfc3339_fields:
  assumes "civil (unix_days t) = (y, mo, d)" and "0 \<le> unix_days t"
  shows "unix_time y mo d (t div second mod 86400 div 3600) (t div second mod 86400 div 60 mod 60)
      (t div second mod 86400 mod 60) + t mod second = t"
proof -
  define q where "q = t div second"
  define s where "s = q mod 86400"
  define h where "h = s div 3600 * 3600"
  define mi where "mi = s div 60 mod 60 * 60"
  have day: "days_before_year y - days_before_year 1970 + sum_list (map (days_in_month y) [1..mo - 1]) + d - 1 = q div 86400"
    using civil_sound [OF assms(2,1)] by (simp add: unix_days_def q_def)
  have "h + mi + s mod 60 = s"
  proof -
    have c: "s div 60 div 60 = s div 3600" by (simp add: zdiv_zmult2_eq [symmetric])
    have "s div 60 * 60 + s mod 60 = s" "s div 60 div 60 * 60 + s div 60 mod 60 = s div 60"
      by (rule div_mult_mod_eq)+
    then show ?thesis unfolding c h_def mi_def by linarith
  qed
  moreover have "q div 86400 * 86400 + s = q" unfolding s_def by (rule div_mult_mod_eq)
  ultimately have "q div 86400 * 86400 + h + mi + s mod 60 = q" by simp
  then have "unix_time y mo d (s div 3600) (s div 60 mod 60) (s mod 60) = q * second"
    unfolding unix_time_def Let_def day h_def mi_def by (simp only:)
  moreover have "q * second + t mod second = t" unfolding q_def by (rule div_mult_mod_eq)
  ultimately show ?thesis by (simp only: q_def s_def)
qed

subsection \<open>Bodies\<close>

text \<open>An object from its members in the order of the struct's fields; an omitted member is absent.\<close>

definition json_member :: "string \<Rightarrow> string \<Rightarrow> string" where
  "json_member name text = json_string name @ '':'' @ text"

fun comma_separated :: "string list \<Rightarrow> string" where
  "comma_separated [] = ''''"
| "comma_separated [x] = x"
| "comma_separated (x # xs) = x @ '','' @ comma_separated xs"

definition json_object :: "string list \<Rightarrow> string" where
  "json_object members = [CHR 0x7B] @ comma_separated members @ [CHR 0x7D]"

definition json_time :: "time \<Rightarrow> string" where
  "json_time t = [CHR 0x22] @ rfc3339 t @ [CHR 0x22]"

definition uploadRequest_text :: "uploadRequest \<Rightarrow> string" where
  "uploadRequest_text q =
     json_object
       [json_member ''method'' (json_string (rq_Method q)), json_member ''url'' (json_string (rq_URL q)),
        json_member ''headers''
          (json_object (map (\<lambda>(name, v). json_member name (json_string v)) (sort_key fst (rq_Headers q)))),
        json_member ''expires_at'' (json_time (rq_ExpiresAt q))]"

definition uploadFailure_text :: "string \<Rightarrow> string" where
  "uploadFailure_text code = json_object [json_member ''code'' (json_string code)]"

definition uploadImage_text :: "uploadImage \<Rightarrow> string" where
  "uploadImage_text img =
     json_object
       [json_member ''size_bytes'' (decimal (im_SizeBytes img)),
        json_member ''content_type'' (json_string (im_ContentType img)),
        json_member ''width'' (decimal (im_Width img)), json_member ''height'' (decimal (im_Height img))]"

definition omitempty :: "string \<Rightarrow> ('a \<Rightarrow> string) \<Rightarrow> 'a option \<Rightarrow> string list" where
  "omitempty name text v = (case v of None \<Rightarrow> [] | Some x \<Rightarrow> [json_member name (text x)])"

definition uploadRepresentation_text :: "uploadRepresentation \<Rightarrow> string" where
  "uploadRepresentation_text upload =
     json_object
       ([json_member ''upload_id'' (json_string (up_UploadID upload)),
         json_member ''state'' (json_string (state_text (up_State upload))),
         json_member ''declared_size_bytes'' (decimal (up_DeclaredSizeBytes upload)),
         json_member ''declared_content_type'' (json_string (up_DeclaredContentType upload)),
         json_member ''upload_deadline'' (json_time (up_UploadDeadline upload))] @
        omitempty ''upload_request'' uploadRequest_text (up_UploadRequest upload) @
        omitempty ''failure'' uploadFailure_text (up_Failure upload) @
        omitempty ''image'' uploadImage_text (up_Image upload))"

text \<open>The body that \<^verbatim>\<open>writeJSON\<close> writes, with the line feed of \<^verbatim>\<open>Encode\<close>.  The page of \<^verbatim>\<open>/debug/vars\<close> is
  written by \<^verbatim>\<open>expvar\<close>.\<close>

fun payload_text :: "payload \<Rightarrow> string option" where
  "payload_text (ErrorPayload code message) =
     Some (json_object [json_member ''error''
       (json_object [json_member ''code'' (json_string code), json_member ''message'' (json_string message)])] @ [CHR 0x0A])"
| "payload_text (UploadPayload upload) = Some (uploadRepresentation_text upload @ [CHR 0x0A])"
| "payload_text (StatusPayload status) =
     Some (json_object [json_member ''status'' (json_string status)] @ [CHR 0x0A])"
| "payload_text (ReadyPayload status postgres s3) =
     Some (json_object [json_member ''status'' (json_string status), json_member ''checks''
       (json_object [json_member ''postgres'' (json_string postgres), json_member ''s3'' (json_string s3)])] @ [CHR 0x0A])"
| "payload_text ExpvarPayload = None"

text \<open>No text that is encoded can be taken for markup.\<close>

abbreviation markup :: "char set" where "markup \<equiv> {CHR ''<'', CHR ''>'', CHR ''&''}"

lemma hex_digit_safe: "n < 16 \<Longrightarrow> hex_digit n \<notin> markup"
  by (drule nibble_cases) (auto simp: hex_digit_def)

lemma escape_safe: "set (escape_unicode n) \<inter> markup = {}"
  using hex_digit_safe [of "n div 4096 mod 16"] hex_digit_safe [of "n div 256 mod 16"]
    hex_digit_safe [of "n div 16 mod 16"] hex_digit_safe [of "n mod 16"]
  by (simp add: escape_unicode_def)

lemma ascii_safe: "set (encode_ascii c) \<inter> markup = {}"
  using escape_safe [of "of_char c"] by (auto simp: encode_ascii_def)

lemma rune_bytes:
  assumes "rune_length s \<noteq> 0" and "\<not> of_char (hd s) < (0x80 :: nat)" and "x \<in> set (take (rune_length s) s)"
  shows "(0x80 :: int) \<le> of_char x"
proof (cases s)
  case Nil
  then show ?thesis using assms(3) by simp
next
  case (Cons c t)
  define k where "k = rune_length s"
  have "rune_length (c # t) = k" using Cons by (simp add: k_def)
  moreover have "(0x80 :: int) \<le> of_char c"
    using assms(2) Cons of_nat_of_char [of c, where 'a = int] by (simp del: of_nat_of_char)
  moreover have "x \<in> set (take k (c # t))" "k \<noteq> 0" using assms(1,3) Cons by (simp_all add: k_def)
  ultimately show ?thesis
    unfolding rune_length_def [of "c # t"] list.case Let_def continuation_Cons
    by (elim if_elim) auto
qed

lemma encode_safe: "set (encode_string s) \<inter> markup = {}"
proof (induction s rule: encode_string.induct)
  case (1 s)
  show ?case
  proof (cases s)
    case Nil
    then show ?thesis by (simp add: encode_string.simps)
  next
    case (Cons c t)
    show ?thesis
    proof (cases "of_char c < (0x80 :: nat)")
      case True
      then have "encode_string s = encode_ascii c @ encode_string t" using Cons by (subst encode_string.simps) simp
      then show ?thesis using "1.IH"(1) [OF Cons True] ascii_safe [of c] by auto
    next
      case False
      note IH = "1.IH"(2,3) [OF Cons False]
      show ?thesis
      proof (cases "rune_length s = 0")
        case True
        then have "encode_string s = escape_unicode 0xFFFD @ encode_string t"
          using Cons False by (subst encode_string.simps) simp
        then show ?thesis using IH(1) [OF True] escape_safe [of "0xFFFD"] by auto
      next
        case rune: False
        let ?rune = "take (rune_length s) s"
        have "CHR ''<'' \<notin> set ?rune" "CHR ''>'' \<notin> set ?rune" "CHR ''&'' \<notin> set ?rune"
          using rune_bytes [OF rune] False Cons by fastforce+
        moreover have "encode_string s = (if ?rune = line_separator then escape_unicode 0x2028
            else if ?rune = paragraph_separator then escape_unicode 0x2029 else ?rune) @
            encode_string (drop (rune_length s) s)"
          using False rune Cons by (subst encode_string.simps) (simp add: Let_def)
        ultimately show ?thesis
          using IH(2) [OF rune refl] escape_safe [of "0x2028"] escape_safe [of "0x2029"] by auto
      qed
    qed
  qed
qed

definition inert :: "string \<Rightarrow> bool" where "inert text = (set text \<inter> markup = {})"

lemma inert_simps [simp]:
  "inert []" "inert (c # s) \<longleftrightarrow> c \<notin> markup \<and> inert s" "inert (s @ s') \<longleftrightarrow> inert s \<and> inert s'" "inert (rev s) \<longleftrightarrow> inert s"
  by (auto simp: inert_def)

lemma inert_decimal [simp]: "inert (decimal n)"
proof -
  have "inert (decimal_nat k)" for k
    using decimal_digits [of k] by (auto simp: inert_def list_all_iff digit_value_def)
  then show ?thesis by (simp add: decimal_def)
qed

lemma inert_pad [simp]: "inert (pad k n)"
  unfolding pad_def by (simp, simp add: inert_def)

lemma inert_dropWhile: "inert s \<Longrightarrow> inert (dropWhile P s)"
  using set_dropWhileD by (fastforce simp: inert_def)

lemma inert_rfc3339 [simp]: "inert (rfc3339 t)"
  by (simp add: rfc3339_def fraction_text_def inert_dropWhile Let_def split: prod.split)

lemma inert_string [simp]: "inert (json_string s)"
  using encode_safe [of s] by (simp add: json_string_def inert_def)

lemma inert_member [simp]: "inert (json_member name text) \<longleftrightarrow> inert text"
  by (simp add: json_member_def)

lemma inert_commas [simp]: "inert (comma_separated xs) \<longleftrightarrow> list_all inert xs"
  by (induction xs rule: comma_separated.induct) auto

lemma inert_object [simp]: "inert (json_object members) \<longleftrightarrow> list_all inert members"
  by (simp add: json_object_def)

lemma inert_omitempty [simp]: "(\<And>x. inert (text x)) \<Longrightarrow> list_all inert (omitempty name text v)"
  by (simp add: omitempty_def split: option.split)

lemma inert_parts [simp]:
  "inert (uploadRequest_text q)" "inert (uploadFailure_text code)" "inert (uploadImage_text img)"
  by (simp_all add: uploadRequest_text_def uploadFailure_text_def uploadImage_text_def json_time_def list_all_iff
      split: prod.split)

lemma inert_upload [simp]: "inert (uploadRepresentation_text upload)"
  by (simp add: uploadRepresentation_text_def json_time_def)

lemma inert_payload: "payload_text p = Some text \<Longrightarrow> inert text"
  by (cases p) auto

subsection \<open>What a client reads\<close>

text \<open>A reader of JSON documents, the client's side: strings, integers and objects with any white space, the
  strings as \<^verbatim>\<open>Json.thy\<close> reads them.  The number bounds the depth and the length of the document, for
  which the length of the text is enough.\<close>

datatype json = JString string | JNumber int | JObject "(string \<times> json) list"

fun read_value :: "nat \<Rightarrow> string \<Rightarrow> (json \<times> string) option"
  and read_members :: "nat \<Rightarrow> string \<Rightarrow> ((string \<times> json) list \<times> string) option" where
  "read_value 0 s = None"
| "read_value (Suc n) s =
     (case skip_space s of
        [] \<Rightarrow> None
      | c # r \<Rightarrow>
          if c = CHR 0x22 then map_option (apfst JString) (unquote r)
          else if c = CHR 0x7B then
            (if HasPrefix (skip_space r) [CHR 0x7D] then Some (JObject [], tl (skip_space r))
             else map_option (apfst JObject) (read_members n r))
          else map_option (apfst JNumber) (int64_literal (c # r)))"
| "read_members 0 s = None"
| "read_members (Suc n) s =
     (case string_literal (skip_space s) of
        None \<Rightarrow> None
      | Some (name, r) \<Rightarrow>
          if \<not> HasPrefix (skip_space r) '':'' then None
          else (case read_value n (tl (skip_space r)) of
                  None \<Rightarrow> None
                | Some (v, r) \<Rightarrow>
                    if HasPrefix (skip_space r) [CHR 0x7D] then Some ([(name, v)], tl (skip_space r))
                    else if HasPrefix (skip_space r) '','' then
                      map_option (apfst ((#) (name, v))) (read_members n (tl (skip_space r)))
                    else None))"

definition read_json :: "string \<Rightarrow> json option" where
  "read_json s =
     (case read_value (length s) s of
        None \<Rightarrow> None | Some (v, r) \<Rightarrow> if skip_space r = [] then Some v else None)"

text \<open>The text \<open>x\<close> is read as \<open>v\<close>, whatever follows it that cannot continue a number.\<close>

definition reads :: "string \<Rightarrow> json \<Rightarrow> bool" where
  "reads x v = (x \<noteq> [] \<and> (\<forall>n c r. ends_number c \<longrightarrow> length x \<le> n \<longrightarrow> read_value n (x @ c # r) = Some (v, c # r)))"

definition member_reads :: "string \<Rightarrow> string \<times> json \<Rightarrow> bool" where
  "member_reads m kv = (\<exists>x. m = json_member (fst kv) x \<and> utf8_valid (fst kv) \<and> reads x (snd kv))"

lemma HasPrefix_head [simp]: "HasPrefix (c # s) [x] \<longleftrightarrow> c = x"
  by (simp add: HasPrefix_def)

lemma delimiters_end [simp]: "ends_number (CHR '','')" "ends_number (CHR 0x7D)" "ends_number (CHR 0x0A)"
  by (simp_all add: ends_number_def digit_value_def)

lemma reads_quoted:
  assumes "\<And>r. unquote (l @ CHR 0x22 # r) = Some (s, r)"
  shows "reads ([CHR 0x22] @ l @ [CHR 0x22]) (JString s)"
  unfolding reads_def
proof (intro conjI allI impI)
  fix n c r assume "length ([CHR 0x22] @ l @ [CHR 0x22]) \<le> n"
  then obtain k where "n = Suc k" by (cases n) auto
  then show "read_value n (([CHR 0x22] @ l @ [CHR 0x22]) @ c # r) = Some (JString s, c # r)"
    using assms [of "c # r"] by simp
qed simp

lemma reads_string: "utf8_valid s \<Longrightarrow> reads (json_string s) (JString s)"
  using reads_quoted [OF unquote_encode [of s]] by (simp add: json_string_def)

lemma reads_decimal:
  assumes "- (2 ^ 63) \<le> n" "n < 2 ^ 63"
  shows "reads (decimal n) (JNumber n)"
  unfolding reads_def
proof (intro conjI allI impI)
  show some: "decimal n \<noteq> []" using decimal_digits [of "nat n"] by (simp add: decimal_def)
  fix m c r assume "ends_number c" and "length (decimal n) \<le> m"
  then obtain k where m: "m = Suc k" using some by (cases m) auto
  obtain x t where x: "decimal n @ c # r = x # t" "\<not> json_space x" "int64_literal (x # t) = Some (n, c # r)"
    by (rule decimal_literal [OF assms, of "[]" c r]) (use \<open>ends_number c\<close> that in auto)
  have "x \<noteq> CHR 0x22 \<and> x \<noteq> CHR 0x7B"
    using x(3) by (auto simp: int64_literal_def scan_number_def scan_int_def HasPrefix_def digit_value_def)
  with x show "read_value m (decimal n @ c # r) = Some (JNumber n, c # r)" by (simp add: m)
qed

lemma digit_plain: "digit_value c \<noteq> None \<Longrightarrow> plain_char c"
proof -
  assume "digit_value c \<noteq> None"
  then have "(48 :: nat) \<le> of_char c" "of_char c \<le> (57 :: nat)"
    by (auto simp: digit_value_def less_eq_char_def split: if_splits)
  moreover have "int (of_char c) = of_char c" by (rule of_nat_of_char)
  ultimately show ?thesis unfolding plain_char_def by (auto simp del: of_nat_of_char)
qed

lemma plain_decimal [simp]: "list_all plain_char (decimal n)"
proof -
  have "list_all plain_char (decimal_nat k)" for k
    using decimal_digits [of k] digit_plain by (auto simp: list_all_iff)
  then show ?thesis by (simp add: decimal_def plain_char_def)
qed

lemma plain_pad [simp]: "list_all plain_char (pad k n)"
  unfolding pad_def by (simp, simp add: list_all_iff plain_char_def)

lemma plain_dropWhile: "list_all plain_char s \<Longrightarrow> list_all plain_char (dropWhile P s)"
  using set_dropWhileD by (fastforce simp: list_all_iff)

lemma plain_rfc3339: "list_all plain_char (rfc3339 t)"
  by (simp add: rfc3339_def fraction_text_def plain_dropWhile Let_def split: prod.split) (simp add: plain_char_def)

lemma reads_time: "reads (json_time t) (JString (rfc3339 t))"
  unfolding json_time_def by (intro reads_quoted unquote_denotes denotes_plain plain_rfc3339)

lemma member_reads_json [intro]: "utf8_valid k \<Longrightarrow> reads x v \<Longrightarrow> member_reads (json_member k x) (k, v)"
  by (auto simp: member_reads_def)

lemma read_commas:
  "list_all2 member_reads ms kvs \<Longrightarrow> ms \<noteq> [] \<Longrightarrow> length (comma_separated ms) \<le> n \<Longrightarrow>
     read_members n (comma_separated ms @ CHR 0x7D # r) = Some (kvs, r)"
proof (induction ms arbitrary: kvs n)
  case (Cons m ms)
  from Cons.prems(1) obtain k v kvs' where kvs: "kvs = (k, v) # kvs'" and m: "member_reads m (k, v)"
    and rest: "list_all2 member_reads ms kvs'" by (auto simp: list_all2_Cons1)
  from m obtain x where x: "m = json_member k x" "utf8_valid k" "reads x v" by (auto simp: member_reads_def)
  have len: "length x < length m" by (simp add: x(1) json_member_def)
  show ?case
  proof (cases ms)
    case Nil
    with Cons.prems(3) len obtain j where n: "n = Suc j" "length x \<le> j" by (cases n) auto
    show ?thesis
      using x(3) n(2) unquote_encode [OF x(2)] rest
      by (simp add: Nil n(1) kvs x(1) json_member_def json_string_def string_literal_def reads_def)
  next
    case (Cons m' ms')
    with Cons.prems(3) len obtain j where n: "n = Suc j" "length x \<le> j" "length (comma_separated ms) \<le> j"
      by (cases n) auto
    from Cons.IH [OF rest _ n(3)] Cons
    have "read_members j (comma_separated ms @ CHR 0x7D # r) = Some (kvs', r)" by simp
    then show ?thesis
      using x(3) n(2) unquote_encode [OF x(2)]
      by (simp add: Cons n(1) kvs x(1) json_member_def json_string_def string_literal_def reads_def)
  qed
qed simp

lemma reads_object:
  assumes "list_all2 member_reads ms kvs" and "ms \<noteq> []"
  shows "reads (json_object ms) (JObject kvs)"
  unfolding reads_def
proof (intro conjI allI impI)
  fix n c r assume "length (json_object ms) \<le> n"
  then obtain j where n: "n = Suc j" "length (comma_separated ms) \<le> j" by (cases n) (auto simp: json_object_def)
  from assms obtain k x ms' where "ms = json_member k x # ms'" by (cases ms) (auto simp: member_reads_def list_all2_Cons1)
  then obtain t where "comma_separated ms = CHR 0x22 # t"
    by (cases ms') (auto simp: json_member_def json_string_def)
  then show "read_value n (json_object ms @ c # r) = Some (JObject kvs, c # r)"
    using read_commas [OF assms n(2), of "c # r"] by (simp add: json_object_def n(1))
qed (simp add: json_object_def)

lemma reads_empty: "reads (json_object []) (JObject [])"
  unfolding reads_def
proof (intro conjI allI impI)
  fix n c r assume "length (json_object []) \<le> n"
  then obtain j where "n = Suc j" by (cases n) (auto simp: json_object_def)
  then show "read_value n (json_object [] @ c # r) = Some (JObject [], c # r)" by (simp add: json_object_def)
qed (simp add: json_object_def)

lemma read_line: "reads x v \<Longrightarrow> read_json (x @ [CHR 0x0A]) = Some v"
  unfolding read_json_def reads_def
  by (elim conjE allE [of _ "length (x @ [CHR 0x0A])"] allE [of _ "CHR 0x0A"] allE [of _ "[]"])
     (simp del: read_value.simps, simp add: skip_space_def json_space_def)

text \<open>The documents of the interface: what a client is to find under which name.  The texts in them must be
  valid UTF-8, which the encoder would otherwise replace, and the numbers fit into 64 bits.\<close>

definition request_json :: "uploadRequest \<Rightarrow> json" where
  "request_json q = JObject
     [(''method'', JString (rq_Method q)), (''url'', JString (rq_URL q)),
      (''headers'', JObject (map (\<lambda>(name, v). (name, JString v)) (sort_key fst (rq_Headers q)))),
      (''expires_at'', JString (rfc3339 (rq_ExpiresAt q)))]"

definition image_json :: "uploadImage \<Rightarrow> json" where
  "image_json img = JObject
     [(''size_bytes'', JNumber (im_SizeBytes img)), (''content_type'', JString (im_ContentType img)),
      (''width'', JNumber (im_Width img)), (''height'', JNumber (im_Height img))]"

definition int64 :: "int \<Rightarrow> bool" where "int64 n = (- (2 ^ 63) \<le> n \<and> n < 2 ^ 63)"

definition request_valid :: "uploadRequest \<Rightarrow> bool" where
  "request_valid q =
     (utf8_valid (rq_Method q) \<and> utf8_valid (rq_URL q) \<and>
      (\<forall>(name, v)\<in>set (rq_Headers q). utf8_valid name \<and> utf8_valid v))"

definition image_valid :: "uploadImage \<Rightarrow> bool" where
  "image_valid img =
     (int64 (im_SizeBytes img) \<and> utf8_valid (im_ContentType img) \<and> int64 (im_Width img) \<and> int64 (im_Height img))"

definition upload_valid :: "uploadRepresentation \<Rightarrow> bool" where
  "upload_valid upload =
     (utf8_valid (up_UploadID upload) \<and> utf8_valid (state_text (up_State upload)) \<and>
      int64 (up_DeclaredSizeBytes upload) \<and> utf8_valid (up_DeclaredContentType upload) \<and>
      pred_option request_valid (up_UploadRequest upload) \<and> pred_option utf8_valid (up_Failure upload) \<and>
      pred_option image_valid (up_Image upload))"

lemma names_valid:
  "list_all utf8_valid [''method'', ''url'', ''headers'', ''expires_at'', ''code'', ''message'', ''error'', ''status'', ''checks'',
     ''postgres'', ''s3'']"
  "list_all utf8_valid [''size_bytes'', ''content_type'', ''width'', ''height'', ''upload_id'', ''state'', ''declared_size_bytes'',
     ''declared_content_type'', ''upload_deadline'', ''upload_request'', ''failure'', ''image'']"
  by (code_simp, code_simp)

lemmas names_valid_simps [simp] = names_valid [unfolded list.pred_inject simp_thms]

lemma reads_number: "int64 n \<Longrightarrow> reads (decimal n) (JNumber n)"
  by (rule reads_decimal) (simp_all add: int64_def)

lemma reads_headers:
  assumes "\<forall>(name, v)\<in>set hs. utf8_valid name \<and> utf8_valid v"
  shows "reads (json_object (map (\<lambda>(name, v). json_member name (json_string v)) hs))
    (JObject (map (\<lambda>(name, v). (name, JString v)) hs))"
proof (cases "hs = []")
  case False
  have "list_all2 member_reads (map (\<lambda>(name, v). json_member name (json_string v)) hs)
      (map (\<lambda>(name, v). (name, JString v)) hs)"
    using assms by (auto simp: list_all2_map1 list_all2_map2 list_all2_same split: prod.split intro!: member_reads_json reads_string)
  then show ?thesis by (rule reads_object) (simp add: False)
qed (simp add: reads_empty)

lemma reads_request: "request_valid q \<Longrightarrow> reads (uploadRequest_text q) (request_json q)"
  unfolding uploadRequest_text_def request_json_def request_valid_def
  by (intro reads_object list_all2_Cons [THEN iffD2] conjI member_reads_json reads_string reads_time reads_headers) simp_all

lemma reads_image: "image_valid img \<Longrightarrow> reads (uploadImage_text img) (image_json img)"
  unfolding uploadImage_text_def image_json_def image_valid_def
  by (intro reads_object list_all2_Cons [THEN iffD2] conjI member_reads_json reads_string reads_number) simp_all

lemma reads_failure: "utf8_valid code \<Longrightarrow> reads (uploadFailure_text code) (JObject [(''code'', JString code)])"
  unfolding uploadFailure_text_def
  by (intro reads_object list_all2_Cons [THEN iffD2] conjI member_reads_json reads_string) simp_all

lemma omitempty_reads:
  "utf8_valid name \<Longrightarrow> (\<And>x. v = Some x \<Longrightarrow> reads (text x) (json x)) \<Longrightarrow>
     list_all2 member_reads (omitempty name text v) (case v of None \<Rightarrow> [] | Some x \<Rightarrow> [(name, json x)])"
  by (auto simp: omitempty_def split: option.split)

definition upload_json :: "uploadRepresentation \<Rightarrow> (string \<times> json) list" where
  "upload_json upload =
     [(''upload_id'', JString (up_UploadID upload)), (''state'', JString (state_text (up_State upload))),
      (''declared_size_bytes'', JNumber (up_DeclaredSizeBytes upload)),
      (''declared_content_type'', JString (up_DeclaredContentType upload)),
      (''upload_deadline'', JString (rfc3339 (up_UploadDeadline upload)))] @
     (case up_UploadRequest upload of None \<Rightarrow> [] | Some q \<Rightarrow> [(''upload_request'', request_json q)]) @
     (case up_Failure upload of None \<Rightarrow> [] | Some code \<Rightarrow> [(''failure'', JObject [(''code'', JString code)])]) @
     (case up_Image upload of None \<Rightarrow> [] | Some img \<Rightarrow> [(''image'', image_json img)])"

lemma reads_upload:
  assumes "upload_valid upload"
  shows "reads (uploadRepresentation_text upload) (JObject (upload_json upload))"
  unfolding uploadRepresentation_text_def upload_json_def
  by (intro reads_object list_all2_appendI omitempty_reads list_all2_Cons [THEN iffD2] conjI member_reads_json
      reads_string reads_number reads_time reads_request reads_failure reads_image)
     (use assms in \<open>auto simp: upload_valid_def\<close>)

lemma reads_nested:
  "utf8_valid x \<Longrightarrow> utf8_valid k \<Longrightarrow> utf8_valid k' \<Longrightarrow> reads body v \<Longrightarrow>
     reads (json_object [json_member k (json_string x), json_member k' body]) (JObject [(k, JString x), (k', v)])"
  "utf8_valid k \<Longrightarrow> reads body v \<Longrightarrow> reads (json_object [json_member k body]) (JObject [(k, v)])"
  by (intro reads_object list_all2_Cons [THEN iffD2] conjI member_reads_json reads_string, simp_all)+

lemma read_payload:
  "upload_valid upload \<Longrightarrow> payload_text (UploadPayload upload) = Some body \<Longrightarrow> read_json body = Some (JObject (upload_json upload))"
  "utf8_valid code \<Longrightarrow> utf8_valid message \<Longrightarrow> payload_text (ErrorPayload code message) = Some body \<Longrightarrow>
     read_json body = Some (JObject [(''error'', JObject [(''code'', JString code), (''message'', JString message)])])"
  "utf8_valid status \<Longrightarrow> utf8_valid pg \<Longrightarrow> utf8_valid s3 \<Longrightarrow> payload_text (ReadyPayload status pg s3) = Some body \<Longrightarrow>
     read_json body = Some (JObject [(''status'', JString status),
       (''checks'', JObject [(''postgres'', JString pg), (''s3'', JString s3)])])"
  by (auto intro!: read_line reads_upload reads_nested reads_string)

end
