(* ===== verification/Progress.thy ===== *)
theory Progress
  imports Finalizer Completion
begin

section \<open>Progress when nothing interferes\<close>

text \<open>
  The contracts of the other theories say what holds if an operation succeeds.  This theory says that
  it does succeed: in a \<open>calm\<close> environment no other session commits or holds a lock, no statement,
  commit or rollback fails, the entropy source answers and the server's clock does not run backwards.
  \<open>yields E now d m Q\<close> is the total contract of a program there: started in the database \<open>d\<close> when
  the clock is past \<open>now\<close>, it ends with a value and a database in \<open>Q\<close>.
\<close>

subsection \<open>Calm environments\<close>

definition calm :: "environment \<Rightarrow> bool" where
  "calm E =
     ((\<forall>k d. env_peers E k d = d) \<and> (\<forall>k s. \<not> env_locked E k s) \<and> (\<forall>k. env_begin E k = None) \<and>
      (\<forall>k. env_stmt E k = None) \<and> (\<forall>k. env_commit E k = CommitOk) \<and> (\<forall>k. env_rollback E k = None) \<and>
      (\<forall>k. \<exists>f. env_rand E k = Inr f) \<and> (\<forall>j k. j \<le> k \<longrightarrow> server_clock E j \<le> server_clock E k))"

lemma calmD:
  assumes "calm E"
  shows "env_peers E k d = d" "\<not> env_locked E k s" "env_begin E k = None" "env_stmt E k = None"
    "env_commit E k = CommitOk" "env_rollback E k = None" "\<exists>f. env_rand E k = Inr f"
    "j \<le> k \<Longrightarrow> server_clock E j \<le> server_clock E k"
  using assms unfolding calm_def by blast+

definition yields :: "environment \<Rightarrow> time \<Rightarrow> db \<Rightarrow> (world, 'a) state \<Rightarrow> ('a \<Rightarrow> db \<Rightarrow> bool) \<Rightarrow> bool" where
  "yields E now d m Q =
     (calm E \<longrightarrow> (\<forall>w. w_db w = d \<longrightarrow> now \<le> server_clock E (tick w) \<longrightarrow>
        wp m (\<lambda>r w'. tick w \<le> tick w' \<and> Q r (w_db w')) w))"

lemma yields_wp:
  assumes "yields E now d m Q" and "calm E" and "w_db w = d" and "now \<le> server_clock E (tick w)"
  shows "wp m (\<lambda>r w'. tick w \<le> tick w' \<and> Q r (w_db w')) w"
  using assms unfolding yields_def by blast

lemma yields_run:
  assumes "yields E now (w_db w) m Q" and "calm E" and "now \<le> server_clock E (tick w)" and "run_state m w = (r, w')"
  shows "Q r (w_db w')"
  using yields_wp [OF assms(1,2) refl assms(3)] assms(4) unfolding wp_iff_run by blast

lemma yields_calm: "(calm E \<Longrightarrow> yields E now d m Q) \<Longrightarrow> yields E now d m Q"
  by (simp add: yields_def)

lemma yields_mono: "yields E now d m A \<Longrightarrow> (\<And>r d'. A r d' \<Longrightarrow> Q r d') \<Longrightarrow> yields E now d m Q"
  unfolding yields_def by (blast intro: wp_mono)

lemma yields_return: "Q x d \<Longrightarrow> yields E now d (State_Monad.return x) Q"
  by (simp add: yields_def wp)

lemma yields_bind:
  assumes "yields E now d m A" and "\<And>r d'. A r d' \<Longrightarrow> yields E now d' (f r) Q"
  shows "yields E now d (State_Monad.bind m f) Q"
  unfolding yields_def wp_bind
proof (intro impI allI)
  fix w :: world assume calm: "calm E" and w: "w_db w = d" "now \<le> server_clock E (tick w)"
  show "wp m (\<lambda>r. wp (f r) (\<lambda>s w''. tick w \<le> tick w'' \<and> Q s (w_db w''))) w"
  proof (rule wp_mono [OF yields_wp [OF assms(1) calm w]])
    fix r and w' :: world assume w': "tick w \<le> tick w' \<and> A r (w_db w')"
    have "now \<le> server_clock E (tick w')"
      using w(2) calmD(8) [OF calm, of "tick w" "tick w'"] w' by simp
    from yields_wp [OF assms(2) calm refl this] w'
    have "wp (f r) (\<lambda>s w''. tick w' \<le> tick w'' \<and> Q s (w_db w'')) w'" by blast
    then show "wp (f r) (\<lambda>s w''. tick w \<le> tick w'' \<and> Q s (w_db w'')) w'"
      by (rule wp_mono) (use w' in simp)
  qed
qed

lemma yields_later:
  assumes "yields E now d m Q" and "now \<le> now'"
  shows "yields E now' d m Q"
  unfolding yields_def
proof (intro allI impI)
  fix w :: world assume "calm E" and "w_db w = d" and "now' \<le> server_clock E (tick w)"
  moreover from this(3) assms(2) have "now \<le> server_clock E (tick w)" by simp
  ultimately show "wp m (\<lambda>r w'. tick w \<le> tick w' \<and> Q r (w_db w')) w"
    using yields_wp [OF assms(1)] by blast
qed

text \<open>One tick: the program continues with that reading, and the clock is past it.\<close>

lemma yields_tick:
  assumes "\<And>k. now \<le> server_clock E k \<Longrightarrow> yields E (server_clock E k) d (f k) Q"
  shows "yields E now d (State_Monad.bind next_tick f) Q"
  unfolding yields_def
proof (intro allI impI)
  fix w :: world assume calm: "calm E" and w: "w_db w = d" "now \<le> server_clock E (tick w)"
  let ?w = "w\<lparr>tick := Suc (tick w)\<rparr>"
  have "w_db ?w = d" "server_clock E (tick w) \<le> server_clock E (tick ?w)"
    using w calmD(8) [OF calm, of "tick w" "Suc (tick w)"] by simp_all
  from yields_wp [OF assms [OF w(2)] calm this]
  have "wp (f (tick w)) (\<lambda>r w'. tick w \<le> tick w' \<and> Q r (w_db w')) ?w"
    by (rule wp_mono) simp
  then show "wp (State_Monad.bind next_tick f) (\<lambda>r w'. tick w \<le> tick w' \<and> Q r (w_db w')) w"
    by (simp add: wp next_tick_def)
qed

lemma yields_modify:
  assumes g: "\<And>w. tick (g w) = tick w" "\<And>w. w_db (g w) = h (w_db w)" and "yields E now (h d) (f ()) Q"
  shows "yields E now d (State_Monad.bind (modify g) f) Q"
  unfolding yields_def
proof (intro allI impI)
  fix w :: world assume "calm E" and "w_db w = d" and "now \<le> server_clock E (tick w)"
  then have "wp (f ()) (\<lambda>r w'. tick (g w) \<le> tick w' \<and> Q r (w_db w')) (g w)"
    using yields_wp [OF assms(3), of "g w"] g by simp
  then show "wp (State_Monad.bind (modify g) f) (\<lambda>r w'. tick w \<le> tick w' \<and> Q r (w_db w')) w"
    by (simp add: wp modify_def g)
qed

subsection \<open>The operations of the runtime\<close>

lemma yields_outputs:
  assumes "yields E now d (f ()) Q"
  shows "yields E now d (State_Monad.bind (set_tx_open b) f) Q"
    "yields E now d (State_Monad.bind (log_info name attrs) f) Q"
    "yields E now d (State_Monad.bind (metric_add m k) f) Q"
    "yields E now d (State_Monad.bind (s3_record ev) f) Q"
  unfolding set_tx_open_def log_info_def metric_add_def metric_update_def s3_record_def
  by (rule yields_modify [where h = id]; simp add: assms split: option.splits)+

lemma yields_peers:
  assumes "yields E now d (f ()) Q"
  shows "yields E now d (State_Monad.bind (run_peers E n) f) Q"
proof (rule yields_calm)
  assume "calm E"
  then show ?thesis
    unfolding run_peers_def by (intro yields_modify [where h = id]) (simp_all add: assms calmD(1))
qed

lemma yields_current: "yields E now d (f d) Q \<Longrightarrow> yields E now d (State_Monad.bind current_db f) Q"
  by (simp add: yields_def current_db_def wp)

lemma yields_read:
  assumes "\<And>k. now \<le> server_clock E k \<Longrightarrow> yields E (server_clock E k) d (f (g k (server_clock E k))) Q"
  shows "yields E now d (State_Monad.bind next_tick (\<lambda>k. f (case env_stmt E k of
    Some err \<Rightarrow> Inl err | None \<Rightarrow> g k (timestamptz (env_clock E k))))) Q"
proof (rule yields_calm)
  assume "calm E"
  then show ?thesis
    by (intro yields_tick) (simp add: calmD(4) assms flip: server_clock_def)
qed

lemma yields_exec:
  assumes "\<And>k. now \<le> server_clock E k \<Longrightarrow> yields E (server_clock E k) d (f (g (server_clock E k) t)) Q"
  shows "yields E now d (State_Monad.bind (exec_sql E g t) f) Q"
  unfolding exec_sql_def State_Monad.bind_assoc State_Monad.bind_left_identity
  by (rule yields_read) (rule assms)

lemma yields_query:
  assumes "\<And>k. now \<le> server_clock E k \<Longrightarrow> yields E (server_clock E k) d (f (g k (server_clock E k) t)) Q"
  shows "yields E now d (State_Monad.bind (query_sql E g t) f) Q"
  unfolding query_sql_def State_Monad.bind_assoc State_Monad.bind_left_identity
  by (rule yields_read) (rule assms)

lemma yields_clock:
  assumes "\<And>k. now \<le> server_clock E k \<Longrightarrow> yields E (server_clock E k) d (f (Inr (server_clock E k))) Q"
  shows "yields E now d (State_Monad.bind (select_clock E t) f) Q"
  unfolding select_clock_def by (rule yields_query) (rule assms)

lemma yields_pool_query:
  assumes "\<And>k. now \<le> server_clock E k \<Longrightarrow> yields E (server_clock E k) d (f (g (server_clock E k) d)) Q"
  shows "yields E now d (State_Monad.bind (pool_query E g) f) Q"
proof (rule yields_calm)
  assume "calm E"
  then show ?thesis
    unfolding pool_query_def State_Monad.bind_assoc State_Monad.bind_left_identity
    by (intro yields_tick yields_peers yields_current) (simp add: calmD(4) assms flip: server_clock_def)
qed

lemma yields_time_Now:
  assumes "\<And>t. yields E now d (f t) Q"
  shows "yields E now d (State_Monad.bind (time_Now E) f) Q"
  unfolding time_Now_def State_Monad.bind_assoc State_Monad.bind_left_identity
  by (rule yields_tick) (rule yields_later [OF assms])

lemma yields_set_local:
  assumes "yields E now d (f None) Q"
  shows "yields E now d (State_Monad.bind (set_local E) f) Q"
proof (rule yields_calm)
  assume "calm E"
  then show ?thesis
    unfolding set_local_def State_Monad.bind_assoc
    by (intro yields_tick) (simp add: calmD(4) yields_later [OF assms])
qed

lemma yields_begin:
  assumes "yields E now d (f (Inr d)) Q"
  shows "yields E now d (State_Monad.bind (beginUploadTransaction E) f) Q"
proof (rule yields_calm)
  assume calm: "calm E"
  show ?thesis
    unfolding beginUploadTransaction_def State_Monad.bind_assoc
  proof (rule yields_tick, rule yields_peers, simp only: calmD(3) [OF calm] option.case State_Monad.bind_assoc)
    fix k assume k: "now \<le> server_clock E k"
    show "yields E (server_clock E k) d (State_Monad.bind (set_tx_open True) (\<lambda>_. State_Monad.bind (set_local E)
        (\<lambda>a. State_Monad.bind (case a of None \<Rightarrow> State_Monad.bind (set_local E) (\<lambda>b. case b of
            None \<Rightarrow> State_Monad.bind current_db (\<lambda>d. State_Monad.return (Inr d)) | Some err \<Rightarrow> State_Monad.return (Inl err))
          | Some err \<Rightarrow> State_Monad.return (Inl err)) f))) Q"
      by (rule yields_outputs, rule yields_set_local, simp only: option.case State_Monad.bind_assoc,
          rule yields_set_local, simp only: option.case State_Monad.bind_assoc State_Monad.bind_left_identity,
          rule yields_current, rule yields_later [OF assms k])
  qed
qed

lemma yields_commit:
  assumes "yields E now t (f None) Q"
  shows "yields E now d (State_Monad.bind (commit_tx E t) f) Q"
proof (rule yields_calm)
  assume "calm E"
  then show ?thesis
    unfolding commit_tx_def State_Monad.bind_assoc
    by (intro yields_tick yields_outputs)
       (simp add: calmD(5), rule yields_modify [where h = "\<lambda>_. t"], simp_all add: yields_later [OF assms])
qed

lemma yields_deferring: "yields E now d body Q \<Longrightarrow> yields E now d (deferring_rollback body) Q"
  unfolding deferring_rollback_def
  by (erule yields_bind) (intro yields_outputs yields_return)

lemma yields_uuid:
  assumes "\<And>token. yields E now d (f (Inr token)) Q"
  shows "yields E now d (State_Monad.bind (newUploadUUID E) f) Q"
proof (rule yields_calm)
  assume calm: "calm E"
  have "\<exists>token. (case env_rand E k of Inl err \<Rightarrow> Inl err | Inr g \<Rightarrow> Inr (uuid_text (map g [0..<16]))) = Inr token" for k
    using calmD(7) [OF calm, of k] by auto
  then show ?thesis
    unfolding newUploadUUID_def State_Monad.bind_assoc State_Monad.bind_left_identity
    by (intro yields_tick) (metis assms yields_later)
qed

subsection \<open>Statements that succeed\<close>

text \<open>A statement on one row changes that row if the new row passes the checks.\<close>

definition put_row :: "upload_row \<Rightarrow> db \<Rightarrow> db" where
  "put_row v d = d\<lparr>uploads := map (\<lambda>u. if u_upload_id u = u_upload_id v then v else u) (uploads d)\<rparr>"

lemma put_row_tables [simp]:
  "candidates (put_row v d) = candidates d" "tombstones (put_row v d) = tombstones d"
  "u_upload_id ` set (uploads (put_row v d)) = u_upload_id ` set (uploads d)"
proof -
  have "map u_upload_id (uploads (put_row v d)) = map u_upload_id (uploads d)"
    by (simp add: put_row_def cong: map_cong)
  then show "u_upload_id ` set (uploads (put_row v d)) = u_upload_id ` set (uploads d)"
    by (metis list.set_map)
qed (simp_all add: put_row_def)

lemma filter_one: "distinct xs \<Longrightarrow> x \<in> set xs \<Longrightarrow> (\<And>y. y \<in> set xs \<Longrightarrow> p y \<longleftrightarrow> y = x) \<Longrightarrow> filter p xs = [x]"
proof (induction xs)
  case (Cons y ys)
  show ?case
  proof (cases "y = x")
    case True
    then have "filter p ys = []" using Cons.prems by (auto simp: filter_empty_conv)
    then show ?thesis using True Cons.prems by simp
  next
    case False
    then show ?thesis using Cons by auto
  qed
qed simp

lemma find_append: "find p (xs @ ys) = (case find p xs of None \<Rightarrow> find p ys | Some x \<Rightarrow> Some x)"
  by (induction xs) auto

lemma unique_row: "distinct (map k xs) \<Longrightarrow> x \<in> set xs \<Longrightarrow> y \<in> set xs \<Longrightarrow> k x = k y \<Longrightarrow> x = y"
  by (auto simp: distinct_map dest: inj_onD)

lemma update_row:
  assumes ids: "distinct (map u_upload_id (uploads d))" and u: "u \<in> set (uploads d)" "p u"
    and one: "\<And>v. p v \<Longrightarrow> u_upload_id v = u_upload_id u"
    and f: "upload_ok (f u)" "u_upload_id (f u) = u_upload_id u"
    and key: "\<And>k. u_final_key (f u) = Some k \<Longrightarrow>
      \<exists>c\<in>set (candidates d). c_upload_id c = u_upload_id u \<and> c_object_key c = k"
  shows "update_uploads p f d = Inr (1, put_row (f u) d)"
proof -
  have only: "p v \<longleftrightarrow> v = u" if "v \<in> set (uploads d)" for v
    using unique_row [OF ids that u(1)] one u(2) by blast
  have "distinct (uploads d)" using ids by (simp add: distinct_map)
  then have "filter p (uploads d) = [u]" by (rule filter_one [OF _ u(1) only])
  moreover have "map (\<lambda>v. if p v then f v else v) (uploads d) =
      map (\<lambda>v. if u_upload_id v = u_upload_id (f u) then f u else v) (uploads d)"
  proof (rule map_cong [OF refl])
    fix v assume v: "v \<in> set (uploads d)"
    show "(if p v then f v else v) = (if u_upload_id v = u_upload_id (f u) then f u else v)"
      using only [OF v] unique_row [OF ids v u(1)] f(2) by auto
  qed
  ultimately show ?thesis
    using f(1) key by (auto simp: update_uploads_def put_row_def Let_def list_ex_iff split: option.splits)
qed

lemma find_the_row:
  assumes "distinct (map u_upload_id (uploads d))" and "u \<in> set (uploads d)" and "p u"
    and "\<And>v. p v \<Longrightarrow> u_upload_id v = u_upload_id u"
  shows "find p (uploads d) = Some u"
proof (cases "find p (uploads d)")
  case None
  then show ?thesis using assms(2,3) by (auto simp: find_None_iff)
next
  case (Some v)
  from find_SomeD [OF Some] have v: "v \<in> set (uploads d)" "u_upload_id v = u_upload_id u" using assms(4) by blast+
  have "v = u" by (rule unique_row [OF assms(1) v(1) assms(2) v(2)])
  then show ?thesis using Some by (simp only:)
qed

lemma put_row_in: "u \<in> set (uploads d) \<Longrightarrow> u_upload_id v = u_upload_id u \<Longrightarrow> v \<in> set (uploads (put_row v d))"
  by (force simp: put_row_def)

text \<open>Stored horizons are whole microseconds, so a duty is never earlier than the horizon it is taken from.\<close>

definition horizons_whole :: "db \<Rightarrow> bool" where
  "horizons_whole d = (\<forall>u\<in>set (uploads d). timestamptz (u_max_write_expires_at u) = u_max_write_expires_at u)"

lemma whole_update:
  assumes "update_uploads p f d = Inr (n, d')" and "horizons_whole d"
    and "\<And>u. u \<in> set (uploads d) \<Longrightarrow> timestamptz (u_max_write_expires_at u) = u_max_write_expires_at u \<Longrightarrow>
      timestamptz (u_max_write_expires_at (f u)) = u_max_write_expires_at (f u)"
  shows "horizons_whole d'"
  using assms by (auto simp: horizons_whole_def update_uploads_Inr(2) [OF assms(1)])

lemma whole_ensured: "ensured uid targets d d' \<Longrightarrow> horizons_whole d \<Longrightarrow> horizons_whole d'"
  by (drule ensured_appends, drule appended_tombstones_frame(1)) (simp add: horizons_whole_def)

lemma whole_max: "timestamptz s = s \<Longrightarrow> timestamptz (max s (timestamptz t)) = max s (timestamptz t)"
  by (simp add: max_def)

lemma whole_step: "db_step d d' \<Longrightarrow> horizons_whole d \<Longrightarrow> horizons_whole d'"
proof (induction rule: db_step.induct)
  case create
  then show ?case by (auto simp: horizons_whole_def new_upload_row_def dest!: insert_upload_Inr)
next
  case register
  then show ?case by (auto simp: horizons_whole_def dest!: insert_candidate_Inr)
next
  case reserve
  then show ?case by (auto simp: horizons_whole_def sql_reserve_def dest!: update_tombstones_Inr(2))
next
  case cleanup_result
  then show ?case by (auto simp: horizons_whole_def sql_cleanup_result_def dest!: update_tombstones_Inr(2))
qed (auto simp: sql_update_defs settle_def whole_max elim!: whole_update whole_ensured)

lemma reachable_whole: "reachable d \<Longrightarrow> horizons_whole d"
  unfolding reachable_def
proof (induction rule: rtranclp_induct)
  case base
  show ?case by (simp add: horizons_whole_def empty_db_def)
next
  case (step d d')
  then show ?case using whole_step by blast
qed

lemma reachable_step: "reachable d \<Longrightarrow> db_step d d' \<Longrightarrow> reachable d'"
  unfolding reachable_def by (rule rtranclp.rtrancl_into_rtrancl)

text \<open>The duty for the staging object of an upload that had no duty is recorded.\<close>

lemma staging_target_simps [simp]:
  "tt_ObjectKey (staging_target key horizon) = key" "tt_CandidateSHA256 (staging_target key horizon) = None"
  "tt_DeleteNotBefore (staging_target key horizon) = horizon"
  by (simp_all add: staging_target_def)

lemma ensure_staging:
  assumes "uid \<in> u_upload_id ` set (uploads t)" and free: "staging_key_of uid \<notin> t_object_key ` set (tombstones t)"
    and "timestamptz horizon = horizon"
    and rest: "\<And>t'. ensured uid [staging_target (staging_key_of uid) horizon] t t' \<Longrightarrow> yields E now d (f (Inr t')) Q"
  shows "yields E now d (State_Monad.bind (ensureTombstones E uid [staging_target (staging_key_of uid) horizon] t) f) Q"
proof -
  define row where "row now' = new_tombstone_row (staging_key_of uid) uid None horizon now'" for now'
  define t' where "t' now' = t\<lparr>tombstones := tombstones t @ [row now']\<rparr>" for now'
  note row = row_def new_tombstone_row_def
  have inserted: "sql_insert_tombstone uid (staging_target (staging_key_of uid) horizon) now' t = Inr (1, t' now')" for now'
    using assms(1-3)
    by (auto simp: sql_insert_tombstone_def insert_tombstone_def tombstone_ok_def row t'_def max_int4_def)
  have found: "find_tombstone (staging_key_of uid) (t' now') = Some (row now')" for now'
  proof -
    have "find (\<lambda>r. t_object_key r = staging_key_of uid) (tombstones t) = None"
      using free by (force simp: find_None_iff)
    then show ?thesis by (simp add: find_tombstone_def find_append t'_def row)
  qed
  have fits: "\<not> tombstone_conflicts uid (staging_target (staging_key_of uid) horizon) (row now')" for now'
    by (simp add: tombstone_conflicts_def row bytes_of_def)
  have "ensured uid [staging_target (staging_key_of uid) horizon] t (t' now')" for now'
    by (rule ensured_Cons [OF inserted _ fits ensured_Nil]) (simp add: found)
  then have "yields E k d (f (Inr (t' now'))) Q" if "now \<le> k" for k now'
    using yields_later [OF rest that] by blast
  then show ?thesis
    unfolding ensureTombstones.simps State_Monad.bind_assoc staging_target_simps
    by (intro yields_exec)
       (simp only: inserted sum.case prod.case State_Monad.bind_assoc, intro yields_query,
        simp add: select_tombstone_def found fits)
qed

lemma open_staging_free:
  assumes "db_inv d" and "u \<in> set (uploads d)" and "\<not> terminal (u_state u)"
  shows "staging_key_of (u_upload_id u) \<notin> t_object_key ` set (tombstones d)"
proof
  assume "staging_key_of (u_upload_id u) \<in> t_object_key ` set (tombstones d)"
  then obtain t where t: "t \<in> set (tombstones d)" "t_object_key t = staging_key_of (u_upload_id u)" by force
  moreover have "tombstone_ok t" using assms(1) t(1) by (simp add: db_inv_def tables_ok_def)
  ultimately have "t_upload_id t = u_upload_id u" by (auto simp: tombstone_ok_def split: option.splits)
  then show False
    using open_no_tombstone [OF _ assms(2,3) t(1)] assms(1) by (simp add: db_inv_def)
qed

subsection \<open>The expiry sweep\<close>

definition none_due :: "time \<Rightarrow> db \<Rightarrow> bool" where
  "none_due now d = (\<forall>u\<in>set (uploads d). u_state u = Pending \<longrightarrow> now < u_upload_deadline u)"

definition lapsed_row :: "time \<Rightarrow> upload_row \<Rightarrow> upload_row" where
  "lapsed_row now u = u\<lparr>u_state := Expired, u_terminal_at := Some now,
     u_expiry_reason := Some ''upload_deadline_elapsed''\<rparr>"

lemma lapsed_row_ok: "upload_ok u \<Longrightarrow> u_state u = Pending \<Longrightarrow> upload_ok (lapsed_row now u)"
  by (auto simp: lapsed_row_def upload_ok_def state_shape_ok_def reconcile_failure_ok_def
      rejection_phase_ok_def rejection_reason_ok_def no_rejection_def)

lemma expire_row:
  assumes "tables_ok d" and u: "u \<in> set (uploads d)" "u_state u = Pending" "u_upload_deadline u \<le> now"
  shows "sql_expire_pending (u_upload_id u) now d = Inr (1, put_row (lapsed_row now u) d)"
proof -
  have "upload_ok u" using assms by (simp add: tables_ok_def)
  then have "upload_ok (lapsed_row now u)" using u(2) by (rule lapsed_row_ok)
  moreover have "u_final_key u = None" using \<open>upload_ok u\<close> u(2) by (simp add: upload_ok_def state_shape_ok_def)
  ultimately show ?thesis
    unfolding sql_expire_pending_def lapsed_row_def
    by (intro update_row u(1)) (use u assms(1) in \<open>auto simp: tables_ok_def\<close>)
qed

lemma stored_row:
  assumes "reachable d" and "u \<in> set (uploads d)"
  shows "tables_ok d" "upload_ok u" "u_staging_key u = staging_key_of (u_upload_id u)"
    "timestamptz (u_max_write_expires_at u) = u_max_write_expires_at u"
  using reachable_db_inv [OF assms(1)] reachable_whole [OF assms(1)] assms(2)
  by (auto simp: db_inv_def tables_ok_def horizons_whole_def upload_ok_def)

lemma yields_expire_locked:
  assumes reach: "reachable t" and u: "u \<in> set (uploads t)" "u_state u = Pending" "u_upload_deadline u \<le> now'"
    and rest: "\<And>t'. db_step t t' \<Longrightarrow> yields E now d (f (Inr (True, t'))) Q"
  shows "yields E now d (State_Monad.bind
    (transitionPendingExpiredLocked E (locked_now (scanStoredUpload u c) now') t) f) Q"
proof -
  note row = stored_row [OF reach u(1)]
  note expired = expire_row [OF row(1) u]
  have free: "staging_key_of (u_upload_id u) \<notin> t_object_key ` set (tombstones t)"
    using open_staging_free [OF reachable_db_inv [OF reach] u(1)] u(2) by simp
  have "yields E k d (State_Monad.bind (ensureTombstones E (u_upload_id u)
      [staging_target (u_staging_key u) (u_max_write_expires_at u)] (put_row (lapsed_row now' u) t))
      (\<lambda>x. State_Monad.bind (case x of Inl err \<Rightarrow> State_Monad.return (Inl err)
        | Inr t2 \<Rightarrow> State_Monad.return (Inr (True, t2))) f)) Q" if "now \<le> k" for k
    unfolding row(3)
    by (rule ensure_staging)
       (use u(1) free row(4) in \<open>auto intro: yields_later [OF rest that] step_expire_pending [OF u expired, unfolded row(3)]\<close>)
  then show ?thesis
    unfolding transitionPendingExpiredLocked_def State_Monad.bind_assoc using u(2,3)
    by (simp del: ensureTombstones.simps, intro yields_exec)
       (simp add: expired State_Monad.bind_assoc del: ensureTombstones.simps)
qed

definition drained :: "time \<Rightarrow> go_error + string option \<Rightarrow> db \<Rightarrow> bool" where
  "drained now r d = (reachable d \<and> ((\<exists>uid. r = Inr (Some uid)) \<or> r = Inr None \<and> none_due now d))"

lemma yields_expireNext:
  assumes reach: "reachable d"
  shows "yields E now d (expireNextPendingUpload E) (drained now)"
proof (rule yields_calm)
  assume "calm E"
  then have free: "env_locked E k = (\<lambda>_. False)" for k by (auto simp: calmD(2))
  show ?thesis
    unfolding expireNextPendingUpload_def Let_def
  proof (intro yields_deferring yields_begin, simp only: sum.case, rule yields_query, goal_cases)
    case (1 k)
    then have k: "now \<le> server_clock E k" .
    show ?case
    proof (cases "next_expired_pending (\<lambda>_. False) (server_clock E k) d")
      case None
      then have "none_due now d"
        using k by (force simp: next_expired_pending_def first_by_None none_due_def)
      then show ?thesis
        using reach None by (simp add: lock_next_expired_def free drained_def yields_return)
    next
      case (Some u)
      then have u: "u \<in> set (uploads d)" "u_state u = Pending" "u_upload_deadline u \<le> server_clock E k"
        unfolding next_expired_pending_def by (auto dest: first_by_Some(1,2))
      have "yields E (server_clock E j) d (State_Monad.bind (transitionPendingExpiredLocked E
          (locked_now (scanStoredUpload u (u_created_at u)) (server_clock E j)) d) f) (drained now)"
        if "server_clock E k \<le> server_clock E j" "\<And>t'. f (Inr (True, t')) = State_Monad.bind (commit_tx E t') (g t')"
          "\<And>t'. g t' None = State_Monad.return (Inr (Some (u_upload_id u)))" for j f g
        by (rule yields_expire_locked [OF reach u(1,2)])
           (use u(3) that reachable_step [OF reach] in \<open>auto intro!: yields_commit yields_return simp: drained_def\<close>)
      then show ?thesis
        by (simp add: lock_next_expired_def free Some, intro yields_clock) simp
    qed
  qed
qed

lemma yields_sweep_expiries:
  "reachable d \<Longrightarrow> yields E now d (sweep_expiries E remaining count)
     (\<lambda>(n, errors) d'. errors = 0 \<and> reachable d' \<and> (n = count + remaining \<or> none_due now d'))"
proof (induction remaining arbitrary: count d)
  case 0
  then show ?case by (simp add: yields_return)
next
  case (Suc remaining)
  show ?case
    unfolding sweep_expiries.simps
  proof (rule yields_bind [OF yields_expireNext [OF Suc.prems]], goal_cases)
    case (1 r d')
    with Suc.IH [of d' "Suc count"] show ?case
      by (auto simp: drained_def intro!: yields_return yields_outputs)
  qed
qed

lemma yields_sweepPendingExpiries:
  assumes "reachable d"
  shows "yields E now d (sweepPendingExpiries E)
    (\<lambda>(n, errors) d'. errors = 0 \<and> reachable d' \<and> (n = expiryBatchSize \<or> none_due now d'))"
  unfolding sweepPendingExpiries_def
  by (intro yields_time_Now yields_bind [OF yields_sweep_expiries [OF assms]])
     (auto intro!: yields_time_Now yields_outputs yields_return)

subsection \<open>A claim that holds\<close>

definition held_row :: "upload_row \<Rightarrow> string \<Rightarrow> time \<Rightarrow> upload_row" where
  "held_row u token e = u\<lparr>u_claim_token := Some token, u_claim_expires_at := Some e\<rparr>"

lemma held_row_simps [simp]:
  "u_upload_id (held_row u token e) = u_upload_id u" "u_state (held_row u token e) = u_state u"
  "u_claim_token (held_row u token e) = Some token" "u_claim_expires_at (held_row u token e) = Some e"
  "u_final_key (held_row u token e) = u_final_key u"
  "parent_of (held_row u token e) now = parent_of u now"
  by (simp_all add: held_row_def parent_of_def)

lemma held_row_ok: "upload_ok u \<Longrightarrow> u_state u = Finalizing \<Longrightarrow> upload_ok (held_row u token e)"
  by (auto simp: held_row_def upload_ok_def state_shape_ok_def reconcile_failure_ok_def
      rejection_phase_ok_def rejection_reason_ok_def no_rejection_def)

lemma held_row_again: "(held_row u token e)\<lparr>u_claim_expires_at := Some e'\<rparr> = held_row u token e'"
  by (simp add: held_row_def)

lemma no_final_key: "upload_ok u \<Longrightarrow> u_state u = Finalizing \<Longrightarrow> u_final_key u = None"
  by (simp add: upload_ok_def)

text \<open>The claim \<open>c\<close> of the upload \<open>u\<close> is on its row and outlasts every reading of the clock.\<close>

definition holds :: "environment \<Rightarrow> upload_row \<Rightarrow> finalizeClaim \<Rightarrow> db \<Rightarrow> bool" where
  "holds E u c d =
     (reachable d \<and> u_state u = Finalizing \<and> upload_ok u \<and> timestamptz (u_max_write_expires_at u) = u_max_write_expires_at u \<and>
      c = claim_of_row u (fc_Token c) (fc_ExpiresAt c) \<and>
      (\<exists>e. (\<forall>k. server_clock E k < e) \<and> held_row u (fc_Token c) e \<in> set (uploads d)))"

lemma claim_of_row_declared [simp]:
  "fc_DeclaredSize (claim_of_row u token e) = u_declared_size u"
  "fc_DeclaredContentType (claim_of_row u token e) = u_declared_content_type u"
  by (simp_all add: claim_of_row_def)

lemma holds_claim:
  assumes "holds E u c d"
  shows "fc_UploadID c = u_upload_id u" "fc_StagingKey c = u_staging_key u"
    "fc_DeclaredSize c = u_declared_size u" "fc_DeclaredContentType c = u_declared_content_type u"
proof -
  have "c = claim_of_row u (fc_Token c) (fc_ExpiresAt c)" using assms by (simp add: holds_def)
  then show "fc_UploadID c = u_upload_id u" "fc_StagingKey c = u_staging_key u"
    "fc_DeclaredSize c = u_declared_size u" "fc_DeclaredContentType c = u_declared_content_type u"
    by (metis claim_of_row_simps(1,2) claim_of_row_declared)+
qed

lemma holdsE:
  assumes "holds E u c d"
  obtains e where "held_row u (fc_Token c) e \<in> set (uploads d)" "\<And>k. server_clock E k < e"
    "find_claimed (fc_UploadID c) (fc_Token c) d = Some (held_row u (fc_Token c) e)"
    "distinct (map u_upload_id (uploads d))"
proof -
  from assms obtain e where e: "held_row u (fc_Token c) e \<in> set (uploads d)" "\<And>k. server_clock E k < e"
    by (auto simp: holds_def)
  have ids: "distinct (map u_upload_id (uploads d))"
    using assms reachable_db_inv [of d] by (simp add: holds_def db_inv_def tables_ok_def)
  have "find_claimed (fc_UploadID c) (fc_Token c) d = Some (held_row u (fc_Token c) e)"
    unfolding find_claimed_def by (rule find_the_row [OF ids e(1)]) (use assms holds_claim(1) [OF assms] in \<open>auto simp: holds_def\<close>)
  then show thesis using that e ids by blast
qed

text \<open>The claim after a step that keeps its row.\<close>

lemma holds_step:
  assumes "holds E u c d" and "db_step d d'" and "held_row u (fc_Token c) e \<in> set (uploads d')"
    and "\<And>k. server_clock E k < e"
  shows "holds E u (c\<lparr>fc_ExpiresAt := x\<rparr>) d'"
proof -
  have "(claim_of_row u token y)\<lparr>fc_ExpiresAt := x\<rparr> = claim_of_row u token x" for token y
    by (simp add: claim_of_row_def)
  moreover have "c = claim_of_row u (fc_Token c) (fc_ExpiresAt c)" using assms(1) by (simp add: holds_def)
  ultimately have "c\<lparr>fc_ExpiresAt := x\<rparr> = claim_of_row u (fc_Token c) x" by metis
  then show ?thesis
    using assms reachable_step by (auto simp: holds_def)
qed

definition unhurried :: "environment \<Rightarrow> duration \<Rightarrow> bool" where
  "unhurried E lease = (\<forall>j k. server_clock E k < server_clock E j + timestamptz lease)"

lemma lease_outlasts: "unhurried E lease \<Longrightarrow> server_clock E k < timestamptz (server_clock E j + lease)"
  using timestamptz_add [of "env_clock E j" lease] by (simp add: unhurried_def server_clock_def)

definition finalizing_due :: "time \<Rightarrow> upload_row \<Rightarrow> bool" where
  "finalizing_due now u =
     (u_state u = Finalizing \<and> by_now (u_reconcile_after u) now \<and>
      (u_claim_token u = None \<or> by_now (u_claim_expires_at u) now))"

lemma by_now_mono: "by_now t now \<Longrightarrow> now \<le> now' \<Longrightarrow> by_now t now'"
  by (auto simp: by_now_def split: option.splits)

lemma yields_claimNext:
  assumes reach: "reachable d" and due: "v \<in> set (uploads d)" "finalizing_due now v" and lease: "unhurried E lease"
  shows "yields E now d (claimNextFinalizing E lease) (\<lambda>r d'. \<exists>u\<in>set (uploads d). \<exists>c.
    u_state u = Finalizing \<and> r = Inr (Some c) \<and> holds E u c d' \<and> candidates d' = candidates d)" (is "yields _ _ _ _ ?Q")
proof (rule yields_calm)
  assume "calm E"
  then have free: "env_locked E k = (\<lambda>_. False)" for k by (auto simp: calmD(2))
  have found: "\<exists>u. next_finalizing (\<lambda>_. False) (server_clock E k) d = Some u" if "now \<le> server_clock E k" for k
  proof -
    have "finalizing_due (server_clock E k) v"
      using due(2) by_now_mono [OF _ that] by (auto simp: finalizing_due_def)
    then show ?thesis
      using due(1) by (cases "next_finalizing (\<lambda>_. False) (server_clock E k) d")
        (auto simp: next_finalizing_def first_by_None finalizing_due_def)
  qed
  have claimed: "sql_claim (u_upload_id u) token (server_clock E j + lease) d = Inr (1, put_row (held_row u token (timestamptz (server_clock E j + lease))) d) \<and>
      ?Q (Inr (Some (claim_of_row u token (server_clock E j + lease)))) (put_row (held_row u token (timestamptz (server_clock E j + lease))) d)"
    if next_u: "next_finalizing (\<lambda>_. False) n d = Some u" for u n j token
  proof -
    from next_finalizing_SomeD [OF next_u] have u: "u \<in> set (uploads d)" "u_state u = Finalizing" by auto
    note row = stored_row [OF reach u(1)]
    let ?e = "timestamptz (server_clock E j + lease)"
    have claim: "sql_claim (u_upload_id u) token (server_clock E j + lease) d = Inr (1, put_row (held_row u token ?e) d)"
      unfolding sql_claim_def held_row_def
      by (rule update_row [OF _ u(1)])
         (use u row held_row_ok [OF row(2) u(2)] in \<open>auto simp: held_row_def tables_ok_def upload_ok_def state_shape_ok_def\<close>)
    have "reachable (put_row (held_row u token ?e) d)"
      by (rule reachable_step [OF reach step_claim [OF next_u claim]])
    moreover have "held_row u token ?e \<in> set (uploads (put_row (held_row u token ?e) d))"
      by (rule put_row_in [OF u(1)]) simp
    ultimately have "holds E u (claim_of_row u token (server_clock E j + lease)) (put_row (held_row u token ?e) d)"
      using u(2) row(2,4) lease_outlasts [OF lease] by (auto simp: holds_def)
    then show ?thesis using claim u by auto
  qed
  show ?thesis
    unfolding claimNextFinalizing_def Let_def
  proof (intro yields_uuid, simp only: sum.case, intro yields_deferring yields_begin, simp only: sum.case, rule yields_query, goal_cases)
    case (1 token k)
    from found [OF this] obtain u where u: "next_finalizing (\<lambda>_. False) (server_clock E k) d = Some u" by blast
    show ?case
      by (simp add: lock_next_finalizing_def free u,
          intro yields_clock, simp only: sum.case, intro yields_exec)
         (simp add: claimed [OF u, THEN conjunct1], intro yields_commit, simp only: option.case,
          rule yields_return, insert claimed [OF u, THEN conjunct2], simp)
  qed
qed

lemma yields_renew:
  assumes held: "holds E u c d" and lease: "unhurried E lease"
  shows "yields E now d (renewFinalizeClaim E c lease)
    (\<lambda>(c', r) d'. r = Inr True \<and> holds E u c' d' \<and> candidates d' = candidates d)" (is "yields _ _ _ _ ?Q")
proof -
  from held obtain e where e: "held_row u (fc_Token c) e \<in> set (uploads d)" "\<And>k. server_clock E k < e"
    and found: "find_claimed (fc_UploadID c) (fc_Token c) d = Some (held_row u (fc_Token c) e)"
    and ids: "distinct (map u_upload_id (uploads d))" by (rule holdsE) blast
  have u: "u_state u = Finalizing" "upload_ok u" using held by (simp_all add: holds_def)
  note claim = holds_claim [OF held]
  let ?e = "\<lambda>k. timestamptz (server_clock E k + lease)"
  let ?d = "\<lambda>k. put_row (held_row u (fc_Token c) (?e k)) d"
  have "sql_renew (fc_UploadID c) (fc_Token c) (server_clock E k + lease) d =
      Inr (1, put_row ((held_row u (fc_Token c) e)\<lparr>u_claim_expires_at := Some (?e k)\<rparr>) d)" for k
    unfolding sql_renew_def
    by (rule update_row [OF ids e(1)])
       (use u claim held_row_ok [OF u(2,1)] no_final_key [OF u(2,1)] in \<open>auto simp: held_row_again\<close>)
  then have renewed: "sql_renew (fc_UploadID c) (fc_Token c) (server_clock E k + lease) d = Inr (1, ?d k)" for k
    by (simp only: held_row_again)
  have "db_step d (?d k)" for k
    by (rule step_renew [OF found _ renewed]) (use e(2) [of k] in \<open>simp add: after_now_def\<close>)
  from holds_step [OF held this put_row_in [OF e(1)] lease_outlasts [OF lease]]
  have "?Q (c\<lparr>fc_ExpiresAt := server_clock E k + lease\<rparr>, Inr True) (?d k)" for k by simp
  then show ?thesis
    unfolding renewFinalizeClaim_def Let_def
    by (intro yields_deferring yields_begin, simp only: sum.case, intro yields_query)
       (simp add: lock_claim_expiry_def found scan_null_def, intro yields_clock,
        simp add: e(2), intro yields_exec, simp add: renewed, intro yields_commit, simp add: yields_return)
qed

lemma yields_lock_parent:
  assumes held: "holds E u c t"
    and rest: "\<And>k. now \<le> server_clock E k \<Longrightarrow> claimed_parent c t (parent_of u (server_clock E k)) \<Longrightarrow>
      yields E now d (f (Inr (Some (parent_of u (server_clock E k))))) Q"
  shows "yields E now d (State_Monad.bind (lockFinalizeParent E c t) f) Q"
proof -
  from held obtain e where e: "\<And>k. server_clock E k < e"
    and found: "find_claimed (fc_UploadID c) (fc_Token c) t = Some (held_row u (fc_Token c) e)" by (rule holdsE) blast
  have "claimed_parent c t (parent_of u (server_clock E k))" for k
    using found e [of k] unfolding claimed_parent_def by (intro exI [of _ "held_row u (fc_Token c) e"]) (simp add: after_now_def)
  then have "yields E (server_clock E j) d (f (Inr (Some (parent_of u (server_clock E k))))) Q"
    if "now \<le> server_clock E k" "server_clock E k \<le> server_clock E j" for k j
    using yields_later [OF rest] that by (meson order_trans)
  then show ?thesis
    unfolding lockFinalizeParent_def State_Monad.bind_assoc
    by (intro yields_query, simp add: lock_parent_row_def found scan_null_def State_Monad.bind_assoc)
       (intro yields_clock, simp add: e)
qed

lemma yields_observation:
  assumes "holds E u c d"
  shows "yields E now d (prepareMissingObservation E c) (\<lambda>r d'. d' = d \<and> (\<exists>x. r = Inr (Some x)))"
  unfolding prepareMissingObservation_def
  by (intro yields_deferring yields_begin, simp only: sum.case, intro yields_lock_parent [OF assms] yields_return) simp

text \<open>A transaction whose closure asks for the commit is committed at the first attempt.\<close>

lemma yields_transaction:
  assumes "yields E now d (apply_tx v d) (\<lambda>(v', r) d'. d' = d \<and> (\<exists>t. r = Inr (True, t) \<and> R v' t))"
    and "\<And>v' t. R v' t \<Longrightarrow> yields E now t (f (v', True, False, None)) Q"
  shows "yields E now d (State_Monad.bind (retryUploadTransaction E apply_tx v) f) Q"
  unfolding retryUploadTransaction_def databaseTxAttempts_def numeral_2_eq_2 retry_attempts.simps(2) State_Monad.bind_assoc
  by (intro yields_begin, simp only: sum.case State_Monad.bind_assoc, rule yields_bind [OF assms(1)])
     (auto simp: State_Monad.bind_assoc intro!: yields_commit assms(2))

subsection \<open>Registering and publishing\<close>

lemma find_candidate_append:
  assumes "candidates_of uid d = []" and "c_upload_id row = uid" and "c_sha256 row = sha"
  shows "find_candidate uid sha (d\<lparr>candidates := candidates d @ [row]\<rparr>) = Some row"
    and "candidates_of uid (d\<lparr>candidates := candidates d @ [row]\<rparr>) = [row]"
proof -
  have none: "c_upload_id r \<noteq> uid" if "r \<in> set (candidates d)" for r
    using assms(1) that set_candidates_of [of uid d] by auto
  then have "find (\<lambda>r. c_upload_id r = uid \<and> c_sha256 r = sha) (candidates d) = None"
    by (auto simp: find_None_iff)
  then show "find_candidate uid sha (d\<lparr>candidates := candidates d @ [row]\<rparr>) = Some row"
    by (simp add: find_candidate_def find_append assms)
  show "candidates_of uid (d\<lparr>candidates := candidates d @ [row]\<rparr>) = [row]"
    using none by (simp add: candidates_of_def filter_empty_conv assms)
qed

lemma register_statement:
  assumes held: "holds E u c d" and bare: "candidates_of (u_upload_id u) d = []"
    and ok: "candidate_ok (new_candidate_row (u_upload_id u) candidate n)"
  shows "\<exists>t. sql_register (fc_UploadID c) candidate n d = Inr (1, t) \<and>
    select_candidate (fc_UploadID c) (tc_SHA256 candidate) t = Inr candidate \<and> holds E u c t \<and>
    map candidate_of_row (candidates_of (u_upload_id u) t) = [candidate]"
proof -
  note claim = holds_claim [OF held]
  from held obtain e where e: "held_row u (fc_Token c) e \<in> set (uploads d)" "\<And>k. server_clock E k < e"
    and found: "find_claimed (fc_UploadID c) (fc_Token c) d = Some (held_row u (fc_Token c) e)" by (rule holdsE) blast
  define row where "row = new_candidate_row (u_upload_id u) candidate n"
  define t where "t = d\<lparr>candidates := candidates d @ [row]\<rparr>"
  have row: "c_upload_id row = u_upload_id u" "c_sha256 row = tc_SHA256 candidate" "candidate_of_row row = candidate"
    "length (tc_SHA256 candidate) = 32"
    using ok by (simp_all add: row_def new_candidate_row_def candidate_of_row_def candidate_ok_def)
  note appended = find_candidate_append [OF bare row(1,2), folded t_def]
  have "c_upload_id r \<noteq> u_upload_id u" if "r \<in> set (candidates d)" for r
    using bare that set_candidates_of [of "u_upload_id u" d] by auto
  then have registered: "sql_register (fc_UploadID c) candidate n d = Inr (1, t)"
    using ok imageI [OF e(1), of u_upload_id] row(1)
    by (auto simp: sql_register_def insert_candidate_def claim row_def t_def)
  have "db_step d t"
    by (rule step_register [OF found, of "server_clock E 0" row])
       (use e(2) registered [unfolded sql_register_def claim, folded row_def] in \<open>simp_all add: after_now_def claim row\<close>)
  then have "holds E u (c\<lparr>fc_ExpiresAt := fc_ExpiresAt c\<rparr>) t"
    by (rule holds_step [OF held _ _ e(2)]) (simp add: t_def e(1))
  then show ?thesis
    using registered appended by (simp add: select_candidate_def claim scanTrackedCandidate_def row)
qed

lemma yields_register:
  assumes held: "holds E u c d" and bare: "candidates_of (u_upload_id u) d = []"
    and ok: "\<And>n. candidate_ok (new_candidate_row (u_upload_id u) candidate n)"
  shows "yields E now d (registerCandidate E c candidate) (\<lambda>r d'. r = Inr (True, False) \<and> holds E u c d' \<and>
    map candidate_of_row (candidates_of (u_upload_id u) d') = [candidate])"
proof -
  have "yields E now d (register_body E c candidate v d) (\<lambda>(v', r) x. x = d \<and> (\<exists>t. r = Inr (True, t) \<and>
      v' = (True, False) \<and> holds E u c t \<and> map candidate_of_row (candidates_of (u_upload_id u) t) = [candidate]))" for v
    unfolding register_body_def
  proof (intro yields_lock_parent [OF held], simp, intro yields_exec, goal_cases)
    case (1 j k)
    from register_statement [OF held bare ok, of "server_clock E k"] show ?case
      by (auto intro!: yields_query yields_return simp: Let_def)
  qed
  then show ?thesis
    unfolding registerCandidate_def
    by (rule yields_transaction) (auto intro!: yields_return)
qed

lemma open_candidate_free:
  assumes "db_inv d" and "u \<in> set (uploads d)" and "\<not> terminal (u_state u)" and "length sha = 32"
  shows "find_tombstone (candidate_key_of (u_upload_id u) sha) d = None"
proof (rule ccontr)
  assume "find_tombstone (candidate_key_of (u_upload_id u) sha) d \<noteq> None"
  then obtain t where t: "t \<in> set (tombstones d)" "t_object_key t = candidate_key_of (u_upload_id u) sha"
    by (auto dest: find_tombstone_SomeD)
  moreover have "tombstone_ok t" using assms(1) t(1) by (simp add: db_inv_def tables_ok_def)
  ultimately have "t_upload_id t = u_upload_id u"
    using assms(4) by (auto simp: tombstone_ok_def candidate_key_inj split: option.splits)
  then show False
    using open_no_tombstone [OF _ assms(2,3) t(1)] assms(1) by (simp add: db_inv_def)
qed

lemma ready_row_ok:
  assumes "upload_ok u" and "u_state u = Finalizing"
  shows "upload_ok ((settle Ready now (held_row u token e))\<lparr>u_final_key := Some key\<rparr>)"
  using assms
  by (auto simp: held_row_def settle_def upload_ok_def state_shape_ok_def reconcile_failure_ok_def
      rejection_phase_ok_def rejection_reason_ok_def no_rejection_def)

text \<open>What the ready transition reads while its only candidate is the selected one.\<close>

lemma publishable:
  assumes held: "holds E u c d" and cands: "map candidate_of_row (candidates_of (u_upload_id u) d) = [candidate]"
  shows "select_candidates (u_upload_id u) k n d = Inr [candidate]"
    and "find_tombstone (tc_ObjectKey candidate) d = None"
    and "staging_key_of (u_upload_id u) \<notin> t_object_key ` set (tombstones d)"
    and "u_upload_id u \<in> u_upload_id ` set (uploads d)"
    and "\<exists>row\<in>set (candidates d). c_upload_id row = u_upload_id u \<and> c_object_key row = tc_ObjectKey candidate"
    and "terminalTombstones (parent_of u n) [candidate] (tc_ObjectKey candidate) =
      [staging_target (staging_key_of (u_upload_id u)) (u_max_write_expires_at u)]"
proof -
  have u: "u_state u = Finalizing" "upload_ok u" and inv: "db_inv d"
    using held by (auto simp: holds_def intro: reachable_db_inv)
  from held obtain e where e: "held_row u (fc_Token c) e \<in> set (uploads d)" by (rule holdsE) blast
  from cands obtain row where row: "candidates_of (u_upload_id u) d = [row]" "candidate = candidate_of_row row" by auto
  then have stored: "row \<in> set (candidates d)" "c_upload_id row = u_upload_id u"
    using set_candidates_of [of "u_upload_id u" d] by auto
  then have "candidate_ok row" using inv by (simp add: db_inv_def tables_ok_def)
  then have key: "tc_ObjectKey candidate = candidate_key_of (u_upload_id u) (c_sha256 row)" "length (c_sha256 row) = 32"
    "c_object_key row = tc_ObjectKey candidate"
    using stored(2) row(2) by (auto simp: candidate_ok_def candidate_of_row_def)
  show "select_candidates (u_upload_id u) k n d = Inr [candidate]"
    by (simp add: select_candidates_def row scanTrackedCandidate_def key)
  show "find_tombstone (tc_ObjectKey candidate) d = None"
    unfolding key(1) using open_candidate_free [OF inv e _ key(2)] u(1) by simp
  show "staging_key_of (u_upload_id u) \<notin> t_object_key ` set (tombstones d)"
    using open_staging_free [OF inv e] u(1) by simp
  show "u_upload_id u \<in> u_upload_id ` set (uploads d)" using imageI [OF e, of u_upload_id] by simp
  show "\<exists>row\<in>set (candidates d). c_upload_id row = u_upload_id u \<and> c_object_key row = tc_ObjectKey candidate"
    using stored key(3) by blast
  show "terminalTombstones (parent_of u n) [candidate] (tc_ObjectKey candidate) =
      [staging_target (staging_key_of (u_upload_id u)) (u_max_write_expires_at u)]"
    using u(2) by (simp add: terminalTombstones_def upload_ok_def)
qed

lemma ready_statement:
  assumes held: "holds E u c d" and same: "uploads t = uploads d" "candidates t = candidates d"
    and row: "\<exists>row\<in>set (candidates d). c_upload_id row = u_upload_id u \<and> c_object_key row = key"
  shows "\<exists>t'. sql_ready (u_upload_id u) (fc_Token c) (server_clock E k) key t = Inr (1, t') \<and> published (u_upload_id u) key t'"
proof -
  have u: "u_state u = Finalizing" "upload_ok u" using held by (simp_all add: holds_def)
  from held obtain e where e: "held_row u (fc_Token c) e \<in> set (uploads d)" "\<And>k. server_clock E k < e"
    and ids: "distinct (map u_upload_id (uploads d))" by (rule holdsE) blast
  let ?row = "(settle Ready (server_clock E k) (held_row u (fc_Token c) e))\<lparr>u_final_key := Some key\<rparr>"
  have "sql_ready (u_upload_id u) (fc_Token c) (server_clock E k) key t = Inr (1, put_row ?row t)"
    unfolding sql_ready_def
    by (rule update_row) (use same ids e row u(1) ready_row_ok [OF u(2,1)] in \<open>auto simp: after_now_def settle_def\<close>)
  moreover have "?row \<in> set (uploads (put_row ?row t))"
    by (rule put_row_in [of "held_row u (fc_Token c) e"]) (use e(1) same in \<open>simp_all add: settle_def\<close>)
  then have "published (u_upload_id u) key (put_row ?row t)"
    unfolding published_def by (rule bexI [rotated]) (simp add: settle_def)
  ultimately show ?thesis by blast
qed

lemma yields_ready_transition:
  assumes held: "holds E u c d" and cands: "map candidate_of_row (candidates_of (u_upload_id u) d) = [candidate]"
  shows "yields E now d (transitionFinalizeReady E c candidate)
    (\<lambda>r d'. r = Inr True \<and> published (u_upload_id u) (tc_ObjectKey candidate) d')"
proof -
  note reads = publishable [OF held cands]
  have whole: "timestamptz (u_max_write_expires_at u) = u_max_write_expires_at u" using held by (simp add: holds_def)
  have "yields E now d (ready_body E c candidate () d) (\<lambda>(v', r) x. x = d \<and>
      (\<exists>t. r = Inr (True, t) \<and> published (u_upload_id u) (tc_ObjectKey candidate) t))"
    unfolding ready_body_def lockAllCandidates_def
  proof (intro yields_lock_parent [OF held], simp only: sum.case option.case holds_claim [OF held], intro yields_query,
      simp add: reads(1) del: ensureTombstones.simps, intro yields_query,
      simp add: reads(2,6) del: ensureTombstones.simps, rule ensure_staging [OF reads(4,3) whole], goal_cases)
    case (1 k m n t)
    then have same: "uploads t = uploads d" "candidates t = candidates d"
      using appended_tombstones_frame [OF ensured_appends] by blast+
    from ready_statement [OF held same reads(5), of k] show ?case by (auto intro!: yields_exec yields_return)
  qed
  then show ?thesis
    unfolding transitionFinalizeReady_def
    by (rule yields_transaction) (auto intro!: yields_return simp: commit_result_def)
qed

subsection \<open>A round of the finalizer\<close>

lemma yields_phase:
  assumes "\<And>t. yields E now d (f t) Q"
  shows "yields E now d (State_Monad.bind (phase E c p) f) Q"
  unfolding phase_def State_Monad.bind_assoc State_Monad.bind_left_identity
  by (intro yields_time_Now yields_outputs assms)

lemma yields_finish:
  assumes "yields E now d (f ()) Q"
  shows "yields E now d (State_Monad.bind (finish E c p started outcome) f) Q"
  unfolding finish_def State_Monad.bind_assoc
  by (intro yields_time_Now yields_outputs assms)

lemma yields_capture:
  assumes "\<And>k. capture_response (env_get E k key) limit = r" and "yields E now d (f r) Q"
  shows "yields E now d (State_Monad.bind (captureS3Object E key limit) f) Q"
  unfolding captureS3Object_def Let_def State_Monad.bind_assoc State_Monad.bind_left_identity
  by (intro yields_tick yields_outputs) (simp add: assms(1) yields_later [OF assms(2)])

lemma yields_put:
  assumes "\<And>k. env_put E k key raw ctype = r" and "yields E now d (f r) Q"
  shows "yields E now d (State_Monad.bind (putCandidateObject E key raw ctype) f) Q"
  unfolding putCandidateObject_def Let_def State_Monad.bind_assoc State_Monad.bind_left_identity
  by (intro yields_tick yields_outputs) (simp add: assms(1) yields_later [OF assms(2)])

lemma yields_renewing:
  assumes "holds E u c d" and "unhurried E lease"
    and "\<And>c' d'. holds E u c' d' \<Longrightarrow> candidates d' = candidates d \<Longrightarrow> yields E now d' (continue c') Q"
  shows "yields E now d (renewing E c lease p continue) Q"
  unfolding renewing_def
  by (rule yields_bind [OF yields_renew [OF assms(1,2)]]) (auto intro: assms(3))

definition done_with :: "upload_row \<Rightarrow> string \<Rightarrow> bool \<times> go_error option \<Rightarrow> db \<Rightarrow> bool" where
  "done_with u key r d = (r = (True, None) \<and> published (u_upload_id u) key d)"

lemma yields_ready:
  assumes "holds E u c d" and "map candidate_of_row (candidates_of (u_upload_id u) d) = [candidate]"
  shows "yields E now d (processed (ready E c candidate)) (done_with u (tc_ObjectKey candidate))"
proof -
  have "yields E now d (ready E c candidate) (\<lambda>r d'. r = None \<and> published (u_upload_id u) (tc_ObjectKey candidate) d')"
    unfolding ready_def
    by (intro yields_phase yields_bind [OF yields_ready_transition [OF assms]])
       (auto intro!: yields_finish yields_outputs yields_return)
  then show ?thesis
    unfolding processed_def by (rule yields_bind) (auto intro!: yields_return simp: done_with_def)
qed

text \<open>
  S3 holds a valid image of the declaration under the staging key, and serves it again under the
  digest key once it has been stored there; no candidate of the upload was recorded before.
\<close>

definition serves :: "environment \<Rightarrow> string \<Rightarrow> byte list \<Rightarrow> bool" where
  "serves E key raw = (\<forall>k. env_get E k key = GetObject (Some (int (length raw))) raw None None)"

definition deliverable :: "environment \<Rightarrow> db \<Rightarrow> upload_row \<Rightarrow> byte list \<Rightarrow> bool" where
  "deliverable E d u raw =
     (candidates_of (u_upload_id u) d = [] \<and> serves E (u_staging_key u) raw \<and>
      (\<exists>v. valid_image E raw (u_declared_size u) (u_declared_content_type u) v) \<and>
      serves E (candidate_key_of (u_upload_id u) (Sum256 raw)) raw \<and>
      (\<forall>k. env_put E k (candidate_key_of (u_upload_id u) (Sum256 raw)) raw (u_declared_content_type u) = None))"

lemma served:
  assumes "serves E key raw" and "int (length raw) \<le> maxUploadSizeBytes"
  shows "capture_response (env_get E k key) maxUploadSizeBytes =
    Inr \<lparr>os_Bytes = Some raw, os_ContentLength = int (length raw)\<rparr>"
proof -
  have "take (nat (maxUploadSizeBytes + 1)) raw = raw" using assms(2) by (intro take_all) linarith
  then show ?thesis
    using assms by (simp add: serves_def capture_response_def close_body_def read_body_def Let_def)
qed

lemma candidates_of_same: "candidates d' = candidates d \<Longrightarrow> candidates_of uid d' = candidates_of uid d"
  by (simp add: candidates_of_def)

lemma yields_publish:
  assumes held: "holds E u c d" and lease: "unhurried E lease" and bare: "candidates_of (u_upload_id u) d = []"
    and v: "valid_image E raw (u_declared_size u) (u_declared_content_type u) v"
    and get: "serves E (candidate_key_of (u_upload_id u) (Sum256 raw)) raw"
    and put: "\<And>k. env_put E k (candidate_key_of (u_upload_id u) (Sum256 raw)) raw (u_declared_content_type u) = None"
  shows "yields E now d (publish_validated E lease c v) (done_with u (candidate_key_of (u_upload_id u) (Sum256 raw)))"
proof -
  note claim = holds_claim [OF held]
  have uid: "fc_UploadID c' = u_upload_id u" if "holds E u c' d'" for c' d' using holds_claim(1) [OF that] .
  let ?key = "candidate_key_of (u_upload_id u) (Sum256 raw)"
  let ?cand = "new_candidate c v"
  have cand: "tc_ObjectKey ?cand = ?key" "tc_SHA256 ?cand = Sum256 raw" "tc_EncodedSize ?cand = int (length raw)"
    and img: "vi_Bytes v = raw" "vi_ContentType v = u_declared_content_type u"
    using v by (simp_all add: new_candidate_def valid_image_def candidate_key_of_def claim)
  have short: "int (length raw) \<le> maxUploadSizeBytes" using v by (simp add: valid_image_def)
  have size: "1 \<le> u_declared_size u" using held by (simp add: holds_def upload_ok_def)
  have ok: "candidate_ok (new_candidate_row (u_upload_id u) ?cand n)" for n
    using v size contentTypeForImageFormat_known [of "vi_Format v"]
    by (auto simp: candidate_ok_def new_candidate_row_def new_candidate_def valid_image_def limits max_declared_size_def
        candidate_key_of_def claim)
  have matches: "candidateMatchesSnapshot ?cand \<lparr>os_Bytes = Some raw, os_ContentLength = int (length raw)\<rparr>"
    by (simp add: candidateMatchesSnapshot_def bytes_of_def cand)
  have verify: "yields E now d' (verify_published E c' ?cand None) (done_with u ?key)"
    if "holds E u c' d'" "map candidate_of_row (candidates_of (u_upload_id u) d') = [?cand]" for c' d'
    unfolding verify_published_def
    by (intro yields_phase yields_capture [OF served [OF get short, folded cand(1)]])
       (use yields_ready [OF that, unfolded cand(1)] in \<open>auto simp: matches intro!: yields_finish\<close>)
  have stored: "yields E now d' (State_Monad.bind (phase E c' ''candidate_put'') (\<lambda>started.
      State_Monad.bind (putCandidateObject E (tc_ObjectKey ?cand) (vi_Bytes v) (vi_ContentType v)) (\<lambda>putErr.
      State_Monad.bind (finish E c' ''candidate_put'' started (if putErr \<noteq> None then ''unknown'' else ''stored'')) (\<lambda>_.
      renewing E c' lease ''candidate_verify'' (\<lambda>claim. verify_published E claim ?cand putErr))))) (done_with u ?key)"
    if "holds E u c' d'" "map candidate_of_row (candidates_of (u_upload_id u) d') = [?cand]" for c' d'
    unfolding cand(1) img
    by (intro yields_phase yields_put [OF put] yields_finish yields_renewing [OF that(1) lease] verify, assumption)
       (subst candidates_of_same, assumption, rule that(2))
  have renewed: "yields E now d' (renewing E c lease ''candidate_put'' (\<lambda>claim.
      State_Monad.bind (phase E claim ''candidate_put'') (\<lambda>started.
      State_Monad.bind (putCandidateObject E (tc_ObjectKey ?cand) (vi_Bytes v) (vi_ContentType v)) (\<lambda>putErr.
      State_Monad.bind (finish E claim ''candidate_put'' started (if putErr \<noteq> None then ''unknown'' else ''stored'')) (\<lambda>_.
      renewing E claim lease ''candidate_verify'' (\<lambda>claim. verify_published E claim ?cand putErr)))))) (done_with u ?key)"
    if "holds E u c d'" "map candidate_of_row (candidates_of (u_upload_id u) d') = [?cand]" for d'
    by (rule yields_renewing [OF that(1) lease], rule stored, assumption)
       (subst candidates_of_same, assumption, rule that(2))
  show ?thesis
    unfolding publish_validated_def Let_def
    by (intro yields_phase yields_bind [OF yields_register [OF held bare ok]])
       (elim conjE, simp only: sum.case prod.case simp_thms if_True if_False, intro yields_finish renewed)
qed

lemma yields_observe:
  assumes held: "holds E u c d" and lease: "unhurried E lease" and good: "deliverable E d u raw"
  shows "yields E now d (observe_staging E lease [] c) (done_with u (candidate_key_of (u_upload_id u) (Sum256 raw)))"
proof -
  note claim = holds_claim [OF held]
  from good obtain v where v: "valid_image E raw (u_declared_size u) (u_declared_content_type u) v"
    and bare: "candidates_of (u_upload_id u) d = []" and s3: "serves E (u_staging_key u) raw"
      "serves E (candidate_key_of (u_upload_id u) (Sum256 raw)) raw"
      "\<And>k. env_put E k (candidate_key_of (u_upload_id u) (Sum256 raw)) raw (u_declared_content_type u) = None"
    unfolding deliverable_def by blast
  have short: "int (length raw) \<le> maxUploadSizeBytes" using v by (simp add: valid_image_def)
  have accepted: "validateImageBytes E raw (int (length raw)) (u_declared_size u) (u_declared_content_type u) = Inr (Inr v)"
    by (rule validateImageBytes_accepts [OF v]) simp
  have "yields E now d (validate_staging E lease c \<lparr>os_Bytes = Some raw, os_ContentLength = int (length raw)\<rparr>)
      (done_with u (candidate_key_of (u_upload_id u) (Sum256 raw)))" for now
    unfolding validate_staging_def
    by (intro yields_phase) (simp add: bytes_of_def claim accepted, intro yields_finish yields_publish [OF held lease bare v s3(2,3)])
  then show ?thesis
    unfolding observe_staging_def
    by (intro yields_bind [OF yields_observation [OF held]])
       (auto intro!: yields_phase yields_capture [OF served [OF s3(1) short, folded claim(2)]] yields_finish)
qed

lemma yields_processNext:
  assumes reach: "reachable d" and due: "v \<in> set (uploads d)" "finalizing_due now v" and lease: "unhurried E lease"
    and good: "\<And>u. u \<in> set (uploads d) \<Longrightarrow> u_state u = Finalizing \<Longrightarrow> \<exists>raw. deliverable E d u raw"
  shows "yields E now d (processNext E lease) (\<lambda>r d'. \<exists>u\<in>set (uploads d). \<exists>raw. u_state u = Finalizing \<and>
    deliverable E d u raw \<and> done_with u (candidate_key_of (u_upload_id u) (Sum256 raw)) r d')" (is "yields _ _ _ _ ?Q")
  unfolding processNext_def
proof (rule yields_bind [OF yields_claimNext [OF reach due lease]], elim bexE exE conjE, goal_cases)
  case (1 r d' u c)
  then have u: "u \<in> set (uploads d)" "u_state u = Finalizing" and r: "r = Inr (Some c)"
    and held: "holds E u c d'" and same: "candidates d' = candidates d" by simp_all
  from good [OF u] obtain raw where raw: "deliverable E d u raw" by blast
  then have "deliverable E d'' u raw" if "candidates d'' = candidates d'" for d''
    using that same by (simp add: deliverable_def candidates_of_def)
  then have round: "yields E now d' (verify_candidates E lease c [] (\<lambda>c. renewing E c lease ''staging_observe''
      (observe_staging E lease []))) (done_with u (candidate_key_of (u_upload_id u) (Sum256 raw)))" for now
    by (auto intro!: yields_renewing [OF held lease] yields_observe [OF _ lease])
  have loaded: "select_claimed_candidates (fc_UploadID c) (fc_Token c) n d' = Inr []" for n
    using raw holds_claim(1) [OF held] candidates_of_same [OF same]
    by (simp add: select_claimed_candidates_def deliverable_def split: option.splits)
  have "?Q x d''" if "done_with u (candidate_key_of (u_upload_id u) (Sum256 raw)) x d''" for x d''
    using that u raw by blast
  from yields_mono [OF round this] show ?case
    unfolding r sum.case option.case loadTrackedCandidates_def
    by (intro yields_phase yields_finish yields_pool_query) (simp only: loaded sum.case)
qed

subsection \<open>From the completion request to the published object\<close>

definition requested_row :: "time \<Rightarrow> upload_row \<Rightarrow> upload_row" where
  "requested_row now u = u\<lparr>u_state := Finalizing, u_completion_requested_at := Some now,
     u_reconcile_after := Some now\<rparr>"

lemma requested_row_simps [simp]:
  "u_upload_id (requested_row now u) = u_upload_id u" "u_state (requested_row now u) = Finalizing"
  "u_staging_key (requested_row now u) = u_staging_key u" "u_declared_size (requested_row now u) = u_declared_size u"
  "u_declared_content_type (requested_row now u) = u_declared_content_type u"
  by (simp_all add: requested_row_def)

lemma requested_row_ok:
  "upload_ok u \<Longrightarrow> u_state u = Pending \<Longrightarrow> now < u_upload_deadline u \<Longrightarrow> upload_ok (requested_row now u)"
  by (auto simp: requested_row_def upload_ok_def state_shape_ok_def reconcile_failure_ok_def
      rejection_phase_ok_def rejection_reason_ok_def no_rejection_def)

definition requested_result :: "upload_row \<Rightarrow> completeUploadResult" where
  "requested_result u = \<lparr>co_Upload = (row_representation u)\<lparr>up_State := Finalizing\<rparr>,
     co_Transition = ''pending_to_finalizing''\<rparr>"

lemma yields_complete:
  assumes reach: "reachable d" and u: "u \<in> set (uploads d)" "u_state u = Pending"
    and early: "\<And>k. server_clock E k < u_upload_deadline u"
    and rest: "\<And>k. now \<le> server_clock E k \<Longrightarrow> db_step d (put_row (requested_row (server_clock E k) u) d) \<Longrightarrow>
      yields E (server_clock E k) (put_row (requested_row (server_clock E k) u) d) (f (Inr (requested_result u))) Q"
  shows "yields E now d (State_Monad.bind (completeUploadByID E (u_upload_id u)) f) Q"
proof -
  note row = stored_row [OF reach u(1)]
  have ids: "distinct (map u_upload_id (uploads d))" using row(1) by (simp add: tables_ok_def)
  have "find_upload_by_id (u_upload_id u) d = Some u"
    unfolding find_upload_by_id_def by (rule find_the_row [OF ids u(1)]) simp_all
  then have locked: "lock_by_id (u_upload_id u) k n d = Inr (scanStoredUpload u (u_created_at u))" for k n
    by (simp add: lock_by_id_def)
  have result: "completed_result (locked_now (scanStoredUpload u n) n') = requested_result u" for n n'
    by (simp add: completed_result_def requested_result_def scanStoredUpload_def decorateUploadRepresentation_def
        locked_now_def row_representation_def u(2))
  have "u_final_key u = None" using row(2) u(2) by (simp add: upload_ok_def)
  then have upd: "sql_complete_pending (u_upload_id u) (server_clock E k) d = Inr (1, put_row (requested_row (server_clock E k) u) d)" for k
    unfolding sql_complete_pending_def requested_row_def
    by (intro update_row ids u(1)) (use u(2) early requested_row_ok [OF row(2) u(2) early] in \<open>auto simp: requested_row_def\<close>)
  have step: "db_step d (put_row (requested_row (server_clock E k) u) d)" for k
    by (rule step_complete [OF upd])
  have requested: "yields E (server_clock E k) d (State_Monad.bind (exec_sql E (\<lambda>_. sql_complete_pending (u_upload_id u) (server_clock E k)) d)
      (\<lambda>updated. State_Monad.bind (finish_completion E no_recovery (requested_result u) updated) (\<lambda>r.
        State_Monad.bind (set_tx_open False) (\<lambda>_. g r)))) Q"
    if "now \<le> server_clock E k" "g (Inr (requested_result u)) = f (Inr (requested_result u))" for k g
    by (intro yields_exec, simp add: upd finish_completion_def State_Monad.bind_assoc, intro yields_commit,
        simp add: that(2), intro yields_outputs)
       (simp add: that(2) yields_later [OF rest [OF that(1) step]])
  show ?thesis
    unfolding completeUploadByID_def completeUploadAttempt_def deferring_rollback_def State_Monad.bind_assoc
    by (intro yields_begin, simp only: sum.case State_Monad.bind_assoc, intro yields_query,
        simp only: locked sum.case State_Monad.bind_assoc, intro yields_clock)
       (simp add: complete_locked_def Let_def u(2) early result State_Monad.bind_assoc, rule requested, simp_all)
qed

lemma yields_completed_round:
  assumes reach: "reachable d" and u: "u \<in> set (uploads d)" "u_state u = Pending"
    and early: "\<And>k. server_clock E k < u_upload_deadline u" and lease: "unhurried E lease"
    and only: "\<And>v. v \<in> set (uploads d) \<Longrightarrow> u_state v \<noteq> Finalizing"
    and good: "deliverable E d u raw"
  shows "yields E now d (do { completed \<leftarrow> completeUploadByID E (u_upload_id u);
      round \<leftarrow> processNext E lease; State_Monad.return (completed, round) })
    (\<lambda>(completed, round) d'. completed = Inr (requested_result u) \<and>
      done_with u (candidate_key_of (u_upload_id u) (Sum256 raw)) round d')"
proof (rule yields_complete [OF reach u early])
  fix k assume "db_step d (put_row (requested_row (server_clock E k) u) d)" (is "db_step d ?d")
  then have reach': "reachable ?d" by (rule reachable_step [OF reach])
  let ?v = "requested_row (server_clock E k) u"
  have v: "?v \<in> set (uploads ?d)" by (rule put_row_in [OF u(1)]) simp
  have due: "finalizing_due (server_clock E k) ?v"
    using stored_row(2) [OF reach u(1)] u(2)
    by (simp add: finalizing_due_def by_now_def requested_row_def upload_ok_def state_shape_ok_def)
  have alone: "w = ?v" if "w \<in> set (uploads ?d)" "u_state w = Finalizing" for w
    using that only by (auto simp: put_row_def split: if_splits)
  have good': "deliverable E ?d ?v raw"
    using good by (simp add: deliverable_def candidates_of_def)
  have same: "raw' = raw" if "deliverable E ?d ?v raw'" for raw'
    using that good' by (simp add: deliverable_def serves_def)
  have "yields E (server_clock E k) ?d (processNext E lease)
      (done_with u (candidate_key_of (u_upload_id u) (Sum256 raw)))"
  proof (rule yields_mono [OF yields_processNext [OF reach' v due lease]])
    fix w assume "w \<in> set (uploads ?d)" and "u_state w = Finalizing"
    from alone [OF this] good' show "\<exists>raw. deliverable E ?d w raw" by blast
  next
    fix r d'
    assume "\<exists>w\<in>set (uploads ?d). \<exists>raw. u_state w = Finalizing \<and> deliverable E ?d w raw \<and>
        done_with w (candidate_key_of (u_upload_id w) (Sum256 raw)) r d'"
    then obtain w raw' where w: "w \<in> set (uploads ?d)" "u_state w = Finalizing" and raw': "deliverable E ?d w raw'"
      and r: "done_with w (candidate_key_of (u_upload_id w) (Sum256 raw')) r d'" by blast
    note eq = alone [OF w]
    have "raw' = raw" by (rule same) (use raw' in \<open>simp only: eq\<close>)
    then show "done_with u (candidate_key_of (u_upload_id u) (Sum256 raw)) r d'"
      using r by (simp add: eq done_with_def)
  qed
  then show "yields E (server_clock E k) ?d (State_Monad.bind (processNext E lease)
      (\<lambda>round. State_Monad.return (Inr (requested_result u), round)))
    (\<lambda>(completed, round) d'. completed = Inr (requested_result u) \<and>
      done_with u (candidate_key_of (u_upload_id u) (Sum256 raw)) round d')"
    by (rule yields_bind) (simp add: yields_return)
qed

end
