(* ===== verification/Spec2Isabelle.thy ===== *)
theory Spec2Isabelle
  imports Scenario Abstraction Identifiers Process Responses Progress
begin

text \<open>
  A model of \<^verbatim>\<open>s3-media-upload\<close>: a Go service that hands out presigned URLs for direct uploads to an
  S3-compatible store, keeps the lifecycle of every upload in PostgreSQL, validates uploaded images,
  publishes them under a content-addressed key and removes what is left over.  The development models the
  code of \<^verbatim>\<open>src/internal/app\<close>, the schema of \<^verbatim>\<open>src/migrations/0001_initial.sql\<close> and
  \<^verbatim>\<open>src/cmd/s3-media-upload/main.go\<close>, and proves what a client and an operator may rely on.

  \<^bold>\<open>The program.\<close>  An upload is \<^verbatim>\<open>pending\<close> when it is created, \<^verbatim>\<open>finalizing\<close> once the client asked for
  completion, and ends as \<^verbatim>\<open>ready\<close>, \<^verbatim>\<open>rejected\<close> or \<^verbatim>\<open>expired\<close>.  Request handlers create, complete and read
  uploads; one worker, the finalizer, claims finalizing uploads, captures and validates the staging
  object, records a candidate, writes it, reads it back and publishes it; the other worker, maintenance,
  expires uploads that were never completed and deletes the objects that have a recorded cleanup duty
  (a tombstone).  All of them meet in three tables.  PostgreSQL transactions are short and contain no S3
  call; a commit whose outcome is unknown is followed by a confirmation that reads the row again.

  \<^bold>\<open>How the code is represented.\<close>  Structs are records, enumerations are datatypes, a Go error is a value of
  \<open>go_error\<close> and a fallible result the left or right side of a sum.  Instants and durations are integers in
  nanoseconds, rounded to microseconds where they become parameters of a statement.  Bytes are 8-bit
  words, the digest works on 32-bit words, strings are lists of bytes.  A program is a computation of the
  library's state monad on the record \<open>world\<close>: the committed database, the number of readings taken from
  the environment, the S3 calls made, the log and the metrics.  The environment is a record of functions
  from the index of a reading to an answer: the clocks, what other sessions committed before a transaction
  began, the errors of statements, the three outcomes of a commit (applied; lost; applied but reported as an
  error), the answers of S3, of the signer, of \<^verbatim>\<open>url.Parse\<close>, of the image decoders and of the entropy source.
  A theorem about every environment therefore covers every fault and every order of committed transactions.

  \<^bold>\<open>The theories.\<close>
  \<^item> \<^verbatim>\<open>Prelude\<close>: time, bytes, strings, ordered selection and a weakest-precondition calculus.
    \<^verbatim>\<open>Golang\<close>: the functions of Go's standard library on the request path.
  \<^item> \<^verbatim>\<open>Errors\<close>: sentinel errors, the classification of storage and database errors, public failure codes and
    the two retry schedules (locale \<open>capped_backoff\<close>, interpreted by both).
  \<^item> \<^verbatim>\<open>Schema\<close>: the three tables with their constraints.  \<^verbatim>\<open>Statements\<close> and \<^verbatim>\<open>Tombstones\<close>: every SQL statement as a
    function on the tables.  \<^verbatim>\<open>Protocol\<close>: the step relation \<open>db_step\<close> of committed transactions and its
    invariant \<open>db_inv\<close>.  \<^verbatim>\<open>Lifecycle\<close>: what never changes along a run (locale \<open>transition_system\<close>).
    \<^verbatim>\<open>Abstraction\<close>: the abstract machine \<open>lifecycle\<close> of phases and condemned keys which the tables refine.
  \<^item> \<^verbatim>\<open>Runtime\<close>: world, environment, transactions (\<^verbatim>\<open>retryUploadTransaction\<close>) and identifiers.  \<^verbatim>\<open>Effects\<close>: the
    program logic (\<open>quiet\<close>, \<open>service\<close>, \<open>triple\<close>), the relation \<open>svc_step\<close> and the table of metrics.
  \<^item> \<^verbatim>\<open>Sha256\<close>, \<^verbatim>\<open>Storage\<close>, \<^verbatim>\<open>Validate\<close>: the digest; capture, write and removal of objects and the checks of
    signed requests (\<^verbatim>\<open>storage.go\<close>, \<^verbatim>\<open>storage_finalize.go\<close>); the validator (\<^verbatim>\<open>validate.go\<close>).
  \<^item> \<^verbatim>\<open>Uploads\<close>, \<^verbatim>\<open>Completion\<close>: creation, replay, reads and completion (\<^verbatim>\<open>postgres.go\<close>).
    \<^verbatim>\<open>Claims\<close>, \<^verbatim>\<open>Finalizer\<close>: \<^verbatim>\<open>reconcile.go\<close>.  \<^verbatim>\<open>Expiry\<close>: \<^verbatim>\<open>expiry.go\<close>.  \<^verbatim>\<open>Cleanup\<close>: \<^verbatim>\<open>cleanup.go\<close>.
    \<^verbatim>\<open>Loops\<close>: the loops of both workers (locale \<open>worker\<close>).
  \<^item> \<^verbatim>\<open>Json\<close>, \<^verbatim>\<open>Http\<close>, \<^verbatim>\<open>Responses\<close>, \<^verbatim>\<open>Identifiers\<close>: the decoder of the create body over a model of
    \<^verbatim>\<open>encoding/json\<close>; routing, the response recorder and every handler (\<^verbatim>\<open>http.go\<close>; locale
    \<open>upload_operations\<close>, interpreted by the wiring of \<^verbatim>\<open>run.go\<close>); the text of a response, over a model of the
    encoder with its instants; the UUIDs.
  \<^item> \<^verbatim>\<open>Config\<close>, \<^verbatim>\<open>Startup\<close>, \<^verbatim>\<open>Process\<close>: \<^verbatim>\<open>config.go\<close>; the life of the process (\<^verbatim>\<open>run.go\<close>, \<^verbatim>\<open>main.go\<close>), first as \<^verbatim>\<open>Run\<close>
    alone, then as the goroutines it consists of (\<open>go_step\<close>).
  \<^item> \<^verbatim>\<open>Progress\<close>: total contracts (\<open>yields\<close>) of the expiry sweep, of completion and of a round of the finalizer
    in an environment where nothing interferes (\<open>calm\<close>).
  \<^item> \<^verbatim>\<open>Scenario\<close>: one concrete environment and the runs of the operations in it, at which the properties
    below are applied.

  \<^bold>\<open>What is shown.\<close>  Each handler and worker moves the database along committed transactions of the protocol
  only (\<open>svc_step\<close>), so the invariants of the protocol hold whatever runs concurrently: published objects
  are protected from cleanup (C1, C11), terminal uploads keep their duties (C2), uploads only evolve forward
  (C3), and the tables refine the abstract machine (C4); C5 gives both retry schedules in closed form.  C6 to
  C9 and C40 say what the answers of the HTTP interface mean; C10 to C12 and C16 to C27 what the workers and
  their transactions have done when they report success, that the loops return, that a transaction is repeated
  only after a rollback, that the sweeps are bounded and that the gauges and the validator are exact; C13 to
  C15 that the work gets done when nothing interferes; C28 to C30 concern object storage, C32 to C35 identifiers, routes and bodies; C37 to C39 the configuration and the
  order in which the process acquires and releases resources; C31 and C36 say that the goroutines are joined
  and that the process ends.

  \<^bold>\<open>Loops and bounds.\<close>  A worker loop is a \<open>partial_function\<close>, so not returning is the value \<open>None\<close>; C12 shows that
  it returns once the context is cancelled.  Sweeps recurse on the number of turns left (the batch sizes 100
  and 10 of the source), transactions on the two attempts of the source; every other recursion is structural
  or has a measure, so no fuel is used.  The reader of JSON documents in \<open>Responses\<close>, the client's side, is bounded by
  the length of the text, which is enough for every nesting.

  \<^bold>\<open>Hypotheses on the environment.\<close>  For safety only \<open>peers_ok\<close>: what other sessions commit are transactions of this
  service.  Progress (C13 to C15) is claimed of a \<open>calm\<close> environment: no other session interferes, no statement or
  commit fails, the server's clock does not run backwards; a round of the finalizer further needs that no lease
  runs out meanwhile (\<open>unhurried\<close>) and that S3 serves a valid image and keeps what is stored (\<open>deliverable\<close>).
  The concurrency control of PostgreSQL is not modelled but assumed: other sessions commit before a transaction
  begins, and \<open>Runtime\<close> runs the transaction on that database and its own changes.  What the source does to
  deserve this (\<^verbatim>\<open>FOR UPDATE\<close> on the parent or the duty, or the insertion of a unique key, in its first
  statement) is therefore visible in the model only as the selection of the row, and no theorem depends on it.
  A statement reads the server's clock once; only the query of the gauges, whose result is a function of all
  its readings, gets one reading for every call of \<^verbatim>\<open>clock_timestamp()\<close>.

  \<^bold>\<open>Not modelled.\<close>  Row locks and overlapping transactions (see above), the text of log records beyond name and attributes, the \<^verbatim>\<open>expvar\<close> page, the failure of the JSON
  encoder for instants after the year 9999, the AWS SDK and \<^verbatim>\<open>pgx\<close> (their answers are the environment's), the
  timers behind deadlines (a deadline shows as an error answer), fairness of the scheduler (\<open>Process\<close> says what
  can happen next, not when), the role and migration bookkeeping of the schema file, and the tests.
\<close>

section \<open>Reading off a run\<close>

lemma triple_run_from:
  assumes "triple (idle w (w_db w)) m (closed w P)"
    and "reachable (w_db w)" and "\<not> tx_open w" and "run_state m w = (r, w')"
  shows "svc_step w w'" and "\<not> tx_open w'" and "P r (w_db w')" and "reachable (w_db w')"
proof -
  have "wp m (closed w P) w" using assms(1,3) svc.refl by (auto simp: triple_def idle_def)
  then have "closed w P r w'" using assms(4) by (rule wp_run)
  then show "svc_step w w'" and "\<not> tx_open w'" and "P r (w_db w')" by (simp_all add: closed_def)
  then show "reachable (w_db w')" using reachable_steps [OF assms(2)] by (simp add: svc_step_def)
qed

lemma triple_run:
  assumes "\<And>w\<^sub>0 d. db_inv d \<Longrightarrow> triple (idle w\<^sub>0 d) m (closed w\<^sub>0 P)"
    and "reachable (w_db w)" and "\<not> tx_open w" and "run_state m w = (r, w')"
  shows "svc_step w w'" and "\<not> tx_open w'" and "P r (w_db w')" and "reachable (w_db w')"
  using triple_run_from [OF assms(1) [OF reachable_db_inv [OF assms(2)]] assms(2-4)] by blast+

lemmas service_result = triple_run [OF service_triple]

lemma recorded_duties:
  assumes "db_inv d" and "u \<in> set (uploads d)" and "terminal (u_state u)"
  shows "u_staging_key u \<in> t_object_key ` set (tombstones d)"
    and "c \<in> set (candidates d) \<Longrightarrow> c_upload_id c = u_upload_id u \<Longrightarrow> u_final_key u \<noteq> Some (c_object_key c) \<Longrightarrow>
      c_object_key c \<in> t_object_key ` set (tombstones d)"
proof -
  have duty: "duty_for u d" using assms by (simp add: db_inv_def duties_recorded_def)
  then show "u_staging_key u \<in> t_object_key ` set (tombstones d)" unfolding duty_for_def by (metis imageI)
  assume "c \<in> set (candidates d)" "c_upload_id c = u_upload_id u" "u_final_key u \<noteq> Some (c_object_key c)"
  with duty show "c_object_key c \<in> t_object_key ` set (tombstones d)" unfolding duty_for_def by (metis imageI)
qed

section \<open>Properties of the stored state\<close>

text \<open>C1: In every reachable database a ready upload names a recorded candidate of its own, stored under the
  digest of its bytes, and no cleanup duty of any upload names that object.\<close>

theorem published_object_protected:
  assumes "reachable d" and "u \<in> set (uploads d)" and "u_state u = Ready"
  shows "\<exists>c\<in>set (candidates d). c_upload_id c = u_upload_id u \<and> u_final_key u = Some (c_object_key c) \<and>
    c_object_key c = candidate_key_of (u_upload_id u) (c_sha256 c) \<and>
    c_object_key c \<notin> t_object_key ` set (tombstones d)"
proof -
  note inv = reachable_db_inv [OF assms(1)]
  have tabs: "tables_ok d" using inv by (simp add: db_inv_def)
  obtain key where key: "u_final_key u = Some key" using ready_key [OF inv assms(2,3)] ..
  from ready_candidate(2) [OF inv assms(2) key] obtain c where
    c: "c \<in> set (candidates d)" "c_upload_id c = u_upload_id u" "c_object_key c = key" by blast
  have "phases (view d) (u_upload_id u) = Some (Published key)"
    using assms(2,3) key tabs by (auto simp: phase_table_row phase_of_def)
  with view_safe [OF inv] have "key \<notin> t_object_key ` set (tombstones d)"
    unfolding safe_iff by (simp del: view_simps(1))
  with c key candidate_row_key [OF tabs c(1)] show ?thesis by (intro bexI [of _ c]) auto
qed

theorem published_object_protected_witness:
  "\<exists>c\<in>set (candidates ready_db). c_upload_id c = new_id 11 \<and> u_final_key (ready_row (epoch + 54 * minute)) = Some (c_object_key c) \<and>
    c_object_key c = candidate_key_of (new_id 11) (c_sha256 c) \<and>
    c_object_key c \<notin> t_object_key ` set (tombstones ready_db)"
proof -
  have "ready_row (epoch + 54 * minute) \<in> set (uploads ready_db)"
    and "u_state (ready_row (epoch + 54 * minute)) = Ready"
    and id: "u_upload_id (ready_row (epoch + 54 * minute)) = new_id 11"
    by (simp_all add: ready_db_def ready_row_def settle_def claim_rows)
  from published_object_protected [OF reachable_ready this(1,2)] show ?thesis unfolding id .
qed

text \<open>C2: In every reachable database an upload in a terminal state has a cleanup duty for its staging object, not
  to be carried out before the last write capability has ended, and one for each of its candidates
  except the one it publishes.\<close>

theorem terminal_upload_has_duties:
  assumes "reachable d" and "u \<in> set (uploads d)" and "u_state u \<in> {Ready, Rejected, Expired}"
  shows "(\<exists>t\<in>set (tombstones d). t_object_key t = u_staging_key u \<and> u_max_write_expires_at u \<le> t_delete_not_before t) \<and>
    (\<forall>c\<in>set (candidates d). c_upload_id c = u_upload_id u \<and> u_final_key u \<noteq> Some (c_object_key c) \<longrightarrow>
       (\<exists>t\<in>set (tombstones d). t_object_key t = c_object_key c))"
proof -
  have "terminal (u_state u)" using assms(3) by auto
  with reachable_db_inv [OF assms(1)] assms(2) have "duty_for u d"
    by (simp add: db_inv_def duties_recorded_def)
  then show ?thesis by (auto simp: duty_for_def)
qed

theorem terminal_upload_has_duties_witness:
  "\<exists>t\<in>set (tombstones ready_db). t_object_key t = staging_key_of (new_id 11) \<and> epoch + 15 * minute \<le> t_delete_not_before t"
  using terminal_upload_has_duties [OF reachable_ready, of "ready_row (epoch + 54 * minute)"]
  by (simp add: ready_db_def ready_row_def settle_def claim_rows)

text \<open>C3: Whatever transactions commit between two reachable databases, an upload keeps its identity, its
  declaration and its deadline; its write horizon never shrinks; its state moves only along pending,
  finalizing, terminal; a terminal row never changes again; candidates are permanent, and a cleanup
  duty keeps its object and its date.\<close>

theorem upload_evolves:
  assumes "reachable d" and "db_steps d d'" and "u \<in> set (uploads d)"
  shows "(\<exists>u'\<in>set (uploads d'). u_upload_id u' = u_upload_id u \<and> u_idempotency_key u' = u_idempotency_key u \<and>
      u_staging_key u' = u_staging_key u \<and> u_declared_size u' = u_declared_size u \<and>
      u_declared_content_type u' = u_declared_content_type u \<and> u_upload_deadline u' = u_upload_deadline u \<and>
      u_max_write_expires_at u \<le> u_max_write_expires_at u' \<and>
      (u_state u' \<noteq> u_state u \<longrightarrow>
         u_state u = Pending \<and> u_state u' \<in> {Finalizing, Ready, Rejected, Expired} \<or>
         u_state u = Finalizing \<and> u_state u' \<in> {Ready, Rejected, Expired}) \<and>
      (u_state u \<in> {Ready, Rejected, Expired} \<longrightarrow> u' = u)) \<and>
    set (candidates d) \<subseteq> set (candidates d') \<and>
    (\<forall>t\<in>set (tombstones d). \<exists>t'\<in>set (tombstones d'). t_object_key t' = t_object_key t \<and>
      t_upload_id t' = t_upload_id t \<and> t_delete_not_before t' = t_delete_not_before t)"
proof (intro conjI)
  from reachable_evolves [OF assms(1,2)] have e: "evolves d d'" .
  with assms(3) obtain u' where "u' \<in> set (uploads d')" "row_evolves u u'" unfolding evolves_def by blast
  then show "\<exists>u'\<in>set (uploads d'). u_upload_id u' = u_upload_id u \<and> u_idempotency_key u' = u_idempotency_key u \<and>
      u_staging_key u' = u_staging_key u \<and> u_declared_size u' = u_declared_size u \<and>
      u_declared_content_type u' = u_declared_content_type u \<and> u_upload_deadline u' = u_upload_deadline u \<and>
      u_max_write_expires_at u \<le> u_max_write_expires_at u' \<and>
      (u_state u' \<noteq> u_state u \<longrightarrow>
         u_state u = Pending \<and> u_state u' \<in> {Finalizing, Ready, Rejected, Expired} \<or>
         u_state u = Finalizing \<and> u_state u' \<in> {Ready, Rejected, Expired}) \<and>
      (u_state u \<in> {Ready, Rejected, Expired} \<longrightarrow> u' = u)"
    unfolding row_evolves_def less_eq_upload_state_def by (intro bexI [of _ u']) (auto simp: terminal_def)
  show "set (candidates d) \<subseteq> set (candidates d')" using e by (simp add: evolves_def)
  show "\<forall>t\<in>set (tombstones d). \<exists>t'\<in>set (tombstones d'). t_object_key t' = t_object_key t \<and>
      t_upload_id t' = t_upload_id t \<and> t_delete_not_before t' = t_delete_not_before t"
    using e by (fastforce simp: evolves_def tombstone_evolves_def)
qed

theorem upload_evolves_witness:
  "(\<exists>u\<in>set (uploads reserved_db). u_upload_id u = new_id 11 \<and> u = republished_row) \<and> the_candidate \<in> set (candidates reserved_db)"
proof -
  have steps: "db_steps republished_db reserved_db"
    by (rule leaves_steps [OF run_reserve service_sound [OF service_reserveNextCleanup [OF scenario_peers]]
        reachable_republished])
  have row: "republished_row \<in> set (uploads republished_db)" "u_state republished_row = Ready"
    "u_upload_id republished_row = new_id 11" "the_candidate \<in> set (candidates republished_db)"
    by (simp_all add: cleanup_rows)
  from upload_evolves [OF reachable_republished steps row(1)] show ?thesis
    unfolding row by (auto simp: row)
qed

text \<open>C4: The tables implement the abstract machine: read as phases of uploads and condemned keys, every run of
  committed transactions is a run of the machine that opens, checks and closes uploads and condemns
  only keys that it does not serve.\<close>

theorem service_refines_lifecycle:
  assumes "reachable d" and "db_steps d d'"
  shows "life_step\<^sup>*\<^sup>* (view d) (view d') \<and> outcomes_last (view d) (view d') \<and> served (view d') \<inter> condemned (view d') = {}"
proof -
  have r: "life_step\<^sup>*\<^sup>* (view d) (view d')" by (rule steps_view [OF assms(2) reachable_db_inv [OF assms(1)]])
  from reachable_view [OF assms(1)] have "life_step\<^sup>*\<^sup>* nothing (view d)" .
  with r machine.from_init_inv machine.from_init_rely show ?thesis
    unfolding safe_def by (meson rtranclp_trans)
qed

theorem service_refines_lifecycle_witness:
  "life_step\<^sup>*\<^sup>* nothing (view ready_db) \<and> served (view ready_db) \<inter> condemned (view ready_db) = {}"
  using service_refines_lifecycle [OF reachable_empty, of ready_db] reachable_ready
  by (simp add: reachable_def view_empty)


text \<open>A cleanup duty is reserved for deletion only once it is due: the lease of a reservation ends a whole
  lease after the earliest date of the duty.\<close>

theorem reservation_only_when_due:
  assumes "reachable d" and "t \<in> set (tombstones d)" and "t_reservation_expires_at t = Some e"
  shows "t_delete_not_before t \<le> e - cleanupReservationLease"
  using reachable_reservations_due [OF assms(1)] assms(2,3) by (auto simp: reservations_due_def)

theorem reservation_only_when_due_witness:
  "epoch + 15 * minute \<le> (epoch + 6095 * minute + 30 * second) - cleanupReservationLease"
  using reservation_only_when_due [OF reachable_reserved, of reserved_duty]
  by (simp add: reserved_db_def reserved_duty_def staging_duty_def new_tombstone_row_def)

section \<open>Properties of the HTTP interface\<close>

text \<open>C6: A successful answer of the create handler decoded a valid declaration and a valid idempotency key, and
  shows the stored upload with that key and that declaration in its stored state; a write capability
  in it is only given while the upload takes writes, was signed for the staging key and the type on
  the row, and ends no later than the write horizon the row records.\<close>

theorem create_answer:
  assumes "peers_ok E" and "reachable (w_db w)" and "\<not> tx_open w"
    and "run_state (serveCreateUpload (wired E stopping) new_recorder request) w = ((response, uid, ''''), w')"
  shows "\<exists>c k upload u. decodeCreateUploadBody (hr_Body request) = Some c \<and> valid_declaration c \<and>
      header_values (hr_Header request) ''Idempotency-Key'' = [k] \<and> idempotencyKeyPattern k \<and>
      rc_body response = [UploadPayload upload] \<and> up_UploadID upload = uid \<and>
      u \<in> set (uploads (w_db w')) \<and> u_upload_id u = uid \<and> up_State upload = u_state u \<and>
      u_idempotency_key u = k \<and> u_declared_size u = cc_SizeBytes c \<and> u_declared_content_type u = cc_ContentType c \<and>
      (\<forall>q. up_UploadRequest upload = Some q \<longrightarrow> u_state u \<in> {Pending, Finalizing} \<and>
         timestamptz (rq_ExpiresAt q) \<le> u_max_write_expires_at u \<and>
         upload_granted E (u_staging_key u) (u_declared_content_type u) q)"
proof -
  note run = service_result [OF service_api.serve_create [OF assms(1) fresh_recorder(1)] assms(2-4)]
  from run(3) obtain c k upload v u where
    front: "decodeCreateUploadBody (hr_Body request) = Some c" "valid_declaration c"
      "header_values (hr_Header request) ''Idempotency-Key'' = [k]" "idempotencyKeyPattern k"
      "rc_body response = [UploadPayload upload]" "up_UploadID upload = uid"
    and v: "v \<in> set (uploads (w_db w'))" "u_upload_id v = uid" "u_idempotency_key v = k"
      "u_declared_size v = cc_SizeBytes c" "u_declared_content_type v = cc_ContentType c"
    and u: "u \<in> set (uploads (w_db w'))" "u_upload_id u = uid" "u_state u = up_State upload"
      "\<forall>q. up_UploadRequest upload = Some q \<longrightarrow>
         capability_covered (upload_granted E) (c\<lparr>cc_IdempotencyKey := k\<rparr>) u q"
    by (auto simp: declared_by_def answer_ok_def)
  have "v = u"
    using unique_upload [of "w_db w'" v u] reachable_db_inv [OF run(4)] u(1,2) v(1,2) by (simp add: db_inv_def)
  with front v u show ?thesis
    by (intro exI [of _ c] exI [of _ k] exI [of _ upload] exI [of _ u]) (auto simp: capability_covered_def)
qed

theorem create_answer_witness:
  "\<exists>k (upload::uploadRepresentation). idempotencyKeyPattern k \<and> up_UploadID upload = new_id 11 \<and> up_State upload = Pending \<and>
     (\<exists>u\<in>set (uploads pending_db). u_upload_id u = new_id 11 \<and> u_idempotency_key u = k)"
proof -
  obtain r w' where run: "run_state (serveCreateUpload (wired scenario False) new_recorder create_request)
      (at_db empty_db 11) = (r, w')" and r: "snd r = (new_id 11, '''')" and d: "w_db w' = pending_db"
    by (rule leavesE [OF run_serve_create]) auto
  from r have "r = (fst r, new_id 11, '''')" by (metis prod.collapse)
  with run have "run_state (serveCreateUpload (wired scenario False) new_recorder create_request)
      (at_db empty_db 11) = ((fst r, new_id 11, ''''), w')" by simp
  from create_answer [OF scenario_peers _ _ this] reachable_empty show ?thesis
    by (auto simp: d pending_db_def pending_row_def new_upload_row_def)
qed

text \<open>C7: A successful answer of the completion handler shows the stored upload, in the state it has at that
  moment: 202 if it is being finalized, 200 if it is terminal, never a pending one and never with a
  write capability.\<close>

theorem complete_answer:
  assumes "peers_ok E" and "reachable (w_db w)" and "\<not> tx_open w"
    and "run_state (serveCompleteUpload (wired E stopping) new_recorder request uploadID) w = ((response, uid, ''''), w')"
  shows "\<exists>upload u. rc_body response = [UploadPayload upload] \<and> up_UploadID upload = uploadID \<and>
      up_UploadRequest upload = None \<and>
      u \<in> set (uploads (w_db w')) \<and> u_upload_id u = uploadID \<and> up_State upload = u_state u \<and>
      (rc_status response = 202 \<and> u_state u = Finalizing \<or>
       rc_status response = 200 \<and> u_state u \<in> {Ready, Rejected, Expired})"
  using triple_run(3) [OF service_api.serve_complete [OF assms(1) fresh_recorder(1)] assms(2-4)]
  by (fastforce simp: in_state_def terminal_def)

theorem complete_answer_witness:
  "\<exists>upload::uploadRepresentation. up_UploadID upload = new_id 11 \<and> up_State upload = Finalizing \<and>
     (\<exists>u\<in>set (uploads finalizing_db). u_upload_id u = new_id 11 \<and> up_State upload = u_state u)"
proof -
  obtain w uid w' where "run_state (serveCompleteUpload (wired scenario False) new_recorder empty_request (new_id 11))
      (at_db pending_db 20) = ((w, uid, ''''), w')" and d: "w_db w' = finalizing_db"
    by (rule leavesE [OF run_complete]) auto
  from complete_answer [OF scenario_peers _ _ this(1)] reachable_pending show ?thesis
    by (auto simp: d finalizing_db_def finalizing_row_def pending_row_def new_upload_row_def)
qed

text \<open>C8: A successful answer of the content handler is a redirect to a grant that was signed for the object
  which the ready upload publishes, and 409, 422 and 410 tell that the upload is not yet terminal,
  rejected or expired.\<close>

theorem content_answer:
  assumes "peers_ok E" and "reachable (w_db w)" and "\<not> tx_open w"
    and "run_state (serveGetContent (wired E stopping) new_recorder request uploadID) w = ((response, uid, code), w')"
  shows "(code = '''' \<longrightarrow> (\<exists>u\<in>set (uploads (w_db w')). \<exists>key url expiresAt h. u_upload_id u = uploadID \<and>
        u_state u = Ready \<and> u_final_key u = Some key \<and> key \<notin> t_object_key ` set (tombstones (w_db w')) \<and>
        content_granted E key (url, expiresAt) \<and> rc_sent response = Some (307, h) \<and> h ''Location'' = Some url)) \<and>
    (rc_status response = 409 \<longrightarrow> in_state uploadID {Pending, Finalizing} (w_db w')) \<and>
    (rc_status response = 422 \<longrightarrow> in_state uploadID {Rejected} (w_db w')) \<and>
    (rc_status response = 410 \<longrightarrow> in_state uploadID {Expired} (w_db w'))"
proof -
  note run = service_result [OF service_api.serve_content [OF assms(1) fresh_recorder(1)] assms(2-4)]
  note fenced = final_key_uncondemned [OF reachable_db_inv [OF run(4)]]
  show ?thesis
  proof (intro conjI impI)
    assume "code = ''''"
    with run(3) obtain u key url expiresAt h where "u \<in> set (uploads (w_db w'))" "u_upload_id u = uploadID"
      "u_state u = Ready" "u_final_key u = Some key" "content_granted E key (url, expiresAt)"
      "rc_sent response = Some (307, h)" "h ''Location'' = Some url" unfolding content_served.simps by blast
    with fenced show "\<exists>u\<in>set (uploads (w_db w')). \<exists>key url expiresAt h. u_upload_id u = uploadID \<and>
        u_state u = Ready \<and> u_final_key u = Some key \<and> key \<notin> t_object_key ` set (tombstones (w_db w')) \<and>
        content_granted E key (url, expiresAt) \<and> rc_sent response = Some (307, h) \<and> h ''Location'' = Some url"
      by blast
  qed (use run(3) in simp_all)
qed

theorem content_answer_witness:
  "\<exists>u\<in>set (uploads ready_db). \<exists>key url expiresAt. u_final_key u = Some key \<and>
     key \<notin> t_object_key ` set (tombstones ready_db) \<and> content_granted scenario key (url, expiresAt)"
proof -
  obtain w uid w' where "run_state (serveGetContent (wired scenario False) new_recorder empty_request (new_id 11))
      (at_db ready_db 100) = ((w, uid, ''''), w')" and d: "w_db w' = ready_db"
    by (rule leavesE [OF run_content]) auto
  from content_answer [OF scenario_peers _ _ this(1)] reachable_ready show ?thesis
    unfolding d at_db_simps by blast
qed

text \<open>C9: Every request is answered exactly once: the response has the status that was sent with its header, and
  while it is served the database only moves along committed transactions, no transaction stays open,
  no S3 call happens inside one and no unregistered metric is touched.\<close>

theorem every_request_answered:
  assumes "peers_ok E" and "reachable (w_db w)" and "\<not> tx_open w"
    and "run_state (ServeHTTP E (wired E stopping) request) w = (response, w')"
  shows "(\<exists>status h. status \<noteq> 0 \<and> rc_status response = status \<and> rc_sent response = Some (status, h)) \<and>
    db_steps (w_db w) (w_db w') \<and> \<not> tx_open w' \<and> s3_in_tx w' = s3_in_tx w \<and> (metrics_ready w \<longrightarrow> \<not> panicked w')"
  using triple_run(1-3) [OF service_api.serve_http [OF assms(1)] assms(2-4)]
  by (auto simp: answered_def svc_step_def metrics_ready_def)

theorem every_request_answered_witness:
  "\<exists>response w'. run_state (ServeHTTP scenario (wired scenario False) create_request) (at_db empty_db 10) = (response, w') \<and>
     rc_status response = 201 \<and> (\<exists>h. rc_sent response = Some (201, h)) \<and> db_steps empty_db pending_db"
proof -
  obtain response w' where run: "run_state (ServeHTTP scenario (wired scenario False) create_request) (at_db empty_db 10)
      = (response, w')" and "rc_status response = 201" "w_db w' = pending_db"
    by (rule leavesE [OF run_create]) auto
  with every_request_answered [OF scenario_peers _ _ run] reachable_empty show ?thesis by fastforce
qed

section \<open>Properties of the workers\<close>

text \<open>C10: One pass of the finalizer announces an upload as ready only after it has read, under the key that names
  the digest of the bytes, exactly those bytes; and it writes an object only under the digest of its
  bytes, after the candidate with that key was recorded.\<close>

theorem finalizer_reads_back:
  assumes "peers_ok E" and "reachable (w_db w)" and "\<not> tx_open w"
    and "run_state (processNext E lease) w = (r, w')"
  shows "\<exists>es ls. s3_events w' = s3_events w @ es \<and> logged w' = logged w @ ls \<and>
    (\<forall>attrs. (''upload.transition'', attrs) \<in> set ls \<longrightarrow> (''state_to'', AStr ''ready'') \<in> set attrs \<longrightarrow>
       (\<exists>uid snapshot. (''upload_id'', AStr uid) \<in> set attrs \<and>
          S3Get (candidate_key_of uid (Sum256 (bytes_of (os_Bytes snapshot)))) (Inr snapshot) \<in> set (s3_events w'))) \<and>
    (\<forall>key raw ctype err. S3Put key raw ctype err \<in> set es \<longrightarrow>
       (\<exists>uid. key = candidate_key_of uid (Sum256 raw)) \<and> key \<in> c_object_key ` set (candidates (w_db w')))"
proof -
  have "svc_step w w'"
    by (rule sound_run(1) [OF sound_processNext [OF assms(1)] reachable_db_inv [OF assms(2)] assms(3,4)])
  then obtain es ls where w': "s3_events w' = s3_events w @ es" "logged w' = logged w @ ls"
    and ok: "\<forall>e\<in>set es. event_covered (w_db w') e" "\<forall>l\<in>set ls. verified_ready (s3_events w') l"
    unfolding svc_step_def audited_def by blast
  have "\<forall>key raw ctype err. S3Put key raw ctype err \<in> set es \<longrightarrow>
      (\<exists>uid. key = candidate_key_of uid (Sum256 raw)) \<and> key \<in> c_object_key ` set (candidates (w_db w'))"
    using ok(1) by fastforce
  moreover have "\<forall>attrs. (''upload.transition'', attrs) \<in> set ls \<longrightarrow> (''state_to'', AStr ''ready'') \<in> set attrs \<longrightarrow>
       (\<exists>uid snapshot. (''upload_id'', AStr uid) \<in> set attrs \<and>
          S3Get (candidate_key_of uid (Sum256 (bytes_of (os_Bytes snapshot)))) (Inr snapshot) \<in> set (s3_events w'))"
    using ok(2) by (fastforce simp: verified_ready_def read_back_def)
  ultimately show ?thesis using w' by blast
qed

theorem finalizer_reads_back_witness:
  "\<exists>uid (snapshot::objectSnapshot). candidate_key_of uid (Sum256 (bytes_of (os_Bytes snapshot))) = c_object_key the_candidate"
proof -
  obtain r w' where run: "run_state (processNext scenario a_lease) (at_db recorded_db 6000) = (r, w')"
    and ann: "list_ex announces_ready (logged w')"
    and es: "s3_events w' = [S3Get (c_object_key the_candidate) (Inr the_snapshot)]"
    by (rule leavesE [OF run_finalizer]) auto
  from ann obtain attrs where "(''upload.transition'', attrs) \<in> set (logged w')" "(''state_to'', AStr ''ready'') \<in> set attrs"
    by (auto simp: list_ex_iff)
  with finalizer_reads_back [OF scenario_peers _ _ run] reachable_recorded es show ?thesis by fastforce
qed

text \<open>C11: One pass of the cleanup worker deletes only objects under a recorded cleanup duty, and never one that an
  upload publishes, then or in any database reached later.\<close>

theorem cleanup_never_deletes_published:
  assumes "peers_ok E" and "reachable (w_db w)" and "\<not> tx_open w"
    and "run_state (cleanupNext E) w = (r, w')"
    and "S3Delete key err \<in> set (drop (length (s3_events w)) (s3_events w'))"
    and "db_steps (w_db w') d" and "u \<in> set (uploads d)"
  shows "key \<in> t_object_key ` set (tombstones d) \<and> u_final_key u \<noteq> Some key"
proof -
  note run = service_result [OF service_cleanupNext [OF assms(1)] assms(2-4)]
  from run(1) obtain es where "s3_events w' = s3_events w @ es" "\<forall>e\<in>set es. event_covered (w_db w') e"
    unfolding svc_step_def audited_def by blast
  moreover from this(1) have "S3Delete key err \<in> set es" using assms(5) by simp
  ultimately have "event_covered (w_db w') (S3Delete key err)" by blast
  from event_covered_later [OF this assms(6)] have "key \<in> t_object_key ` set (tombstones d)" by simp
  moreover from this have "u_final_key u \<noteq> Some key"
    using final_key_uncondemned [OF reachable_db_inv [OF reachable_steps [OF run(4) assms(6)]] assms(7)] by blast
  ultimately show ?thesis by blast
qed

theorem cleanup_never_deletes_published_witness:
  "staging_key_of (new_id 11) \<in> t_object_key ` set (tombstones (cleaned_db (epoch + 6104 * minute))) \<and>
     u_final_key republished_row \<noteq> Some (staging_key_of (new_id 11))"
proof -
  obtain r w' where run: "run_state (cleanupNext scenario) (at_db republished_db 6100) = (r, w')"
    and d: "w_db w' = cleaned_db (epoch + 6104 * minute)" "s3_events w' = [S3Delete (staging_key_of (new_id 11)) None]"
    by (rule leavesE [OF run_cleanup])
  show ?thesis
    using cleanup_never_deletes_published [OF scenario_peers _ _ run, of "staging_key_of (new_id 11)" None
        "w_db w'" republished_row] reachable_republished
    by (simp add: d) (auto simp add: cleaned_db_def republished_db_def)
qed

text \<open>C12: Both worker loops return once the context is cancelled from some reading on; when they return, the
  database was only moved along committed transactions, no transaction is open, no S3 call was made
  inside one, and no unregistered metric was touched.\<close>

theorem workers_return:
  assumes "peers_ok E" and "\<And>k. K \<le> k \<Longrightarrow> env_cancelled E k" and "reachable (w_db w)" and "\<not> tx_open w"
  shows "\<exists>w1 w2. runFinalizer E lease w = Some w1 \<and> runMaintenance E w = Some w2 \<and>
    (\<forall>w'\<in>{w1, w2}. db_steps (w_db w) (w_db w') \<and> reachable (w_db w') \<and> \<not> tx_open w' \<and>
       s3_in_tx w' = s3_in_tx w \<and> (metrics_ready w \<longrightarrow> \<not> panicked w'))"
proof -
  note inv = reachable_db_inv [OF assms(3)]
  obtain w1 where w1: "for_loop (poll E (finalizer_turn E (processNext E lease))) w = Some w1"
    using finalizer.loop_returns [OF assms(1,2) inv assms(4)] by blast
  obtain w2 where w2: "for_loop (poll E (maintenance_turn E (maintenance_sweep E))) w = Some w2"
    using maintenance.loop_returns [OF assms(1,2) inv assms(4)] by blast
  have good: "db_steps (w_db w) (w_db w') \<and> reachable (w_db w') \<and> \<not> tx_open w' \<and>
      s3_in_tx w' = s3_in_tx w \<and> (metrics_ready w \<longrightarrow> \<not> panicked w')" if "svc_step w w' \<and> \<not> tx_open w'" for w'
    using that reachable_steps [OF assms(3)] by (auto simp: svc_step_def metrics_ready_def)
  have "svc_step w w1 \<and> \<not> tx_open w1"
    by (rule finalizer.loop_step [OF w1 refl assms(1) inv assms(4)])
  moreover have "svc_step w w2 \<and> \<not> tx_open w2"
    by (rule maintenance.loop_step [OF w2 refl assms(1) inv assms(4)])
  ultimately show ?thesis
    using w1 w2 good by (auto simp: runFinalizer_def runFinalizerLoop_def runMaintenance_def runMaintenanceLoop_def)
qed

theorem workers_return_witness:
  "\<exists>w1 w2. runFinalizer scenario a_lease (at_db finalizing_db 30) = Some w1 \<and> runMaintenance scenario (at_db finalizing_db 30) = Some w2 \<and>
     db_steps finalizing_db (w_db w1) \<and> db_steps finalizing_db (w_db w2)"
  using workers_return [OF scenario_peers, of 1000 "at_db finalizing_db 30" a_lease] reachable_finalizing by auto

section \<open>Progress\<close>

text \<open>The concrete environment with its clock stopped: no lease runs out in it.\<close>

definition paused :: environment where "paused = scenario\<lparr>env_clock := \<lambda>_. clock_at 50\<rparr>"

lemma paused_clock [simp]: "server_clock paused k = clock_at 50"
  by (simp add: server_clock_def paused_def)

lemma scenario_calm: "calm scenario"
  by (simp add: calm_def scenario_def server_clock_def clock_at_def)

lemma paused_calm: "calm paused"
  using scenario_calm by (simp add: calm_def paused_def server_clock_def)

lemma paused_unhurried: "unhurried paused a_lease"
proof -
  have "timestamptz a_lease = a_lease" by (simp add: a_lease_def timestamptz_def)
  then show ?thesis by (simp add: unhurried_def a_lease_def)
qed

lemma paused_deliverable:
  assumes "candidates_of (u_upload_id u) d = []" and "u_declared_size u = 3" and "u_declared_content_type u = ''image/png''"
  shows "deliverable paused d u [1, 2, 3]"
proof -
  have "valid_image paused [1, 2, 3] 3 ''image/png'' \<lparr>vi_Bytes = [1, 2, 3], vi_SHA256 = Sum256 [1, 2, 3], vi_SizeBytes = 3,
      vi_ContentType = ''image/png'', vi_Format = ''png'', vi_Width = 1, vi_Height = 1\<rparr>"
    by (simp add: valid_image_def contentTypeForImageFormat_def limits paused_def)
  then show ?thesis using assms by (auto simp: deliverable_def serves_def paused_def)
qed

text \<open>C13: Left in peace, an upload whose completion is requested before its deadline gets published: the request moves
  it to finalizing, and the finalizer's next round, if S3 serves a valid image of the declaration under the
  staging key and keeps what is stored, succeeds and leaves it ready under the digest of those bytes.\<close>

theorem completed_upload_is_published:
  assumes "calm E" and "unhurried E lease" and "reachable (w_db w)"
    and "u \<in> set (uploads (w_db w))" and "u_state u = Pending" and "\<forall>k. server_clock E k < u_upload_deadline u"
    and "\<forall>v\<in>set (uploads (w_db w)). u_state v \<noteq> Finalizing" and "deliverable E (w_db w) u raw"
    and "run_state (completeUploadByID E (u_upload_id u)) w = (reply, w1)"
    and "run_state (processNext E lease) w1 = (round, w2)"
  shows "(\<exists>res. reply = Inr res \<and> co_Transition res = ''pending_to_finalizing'' \<and> up_State (co_Upload res) = Finalizing) \<and>
    round = (True, None) \<and> published (u_upload_id u) (candidate_key_of (u_upload_id u) (Sum256 raw)) (w_db w2)"
proof -
  have run: "run_state (do { completed \<leftarrow> completeUploadByID E (u_upload_id u);
      round \<leftarrow> processNext E lease; State_Monad.return (completed, round) }) w = ((reply, round), w2)"
    using assms(9,10) by simp
  from yields_run [OF yields_completed_round [OF assms(3-5) _ assms(2) _ assms(8)] assms(1) order_refl run] assms(6,7)
  show ?thesis by (simp add: requested_result_def done_with_def)
qed

theorem completed_upload_is_published_witness:
  "\<exists>reply w1 w2. run_state (completeUploadByID paused (new_id 11)) (at_db pending_db 60) = (reply, w1) \<and>
     run_state (processNext paused a_lease) w1 = ((True, None), w2) \<and>
     published (new_id 11) (candidate_key_of (new_id 11) (Sum256 [1, 2, 3])) (w_db w2)"
proof -
  obtain reply w1 where r1: "run_state (completeUploadByID paused (new_id 11)) (at_db pending_db 60) = (reply, w1)"
    by fastforce
  obtain round w2 where r2: "run_state (processNext paused a_lease) w1 = (round, w2)" by fastforce
  have row: "u_upload_id pending_row = new_id 11" "u_state pending_row = Pending" "u_declared_size pending_row = 3"
    "u_declared_content_type pending_row = ''image/png''" "clock_at 50 < u_upload_deadline pending_row"
    by (simp_all add: rows clock_at_def)
  have "deliverable paused pending_db pending_row [1, 2, 3]"
    by (rule paused_deliverable) (simp_all add: row pending_db_def candidates_of_def)
  from completed_upload_is_published [OF paused_calm paused_unhurried _ _ row(2) _ _ _ r1 [folded row(1)] r2, of "[1, 2, 3]"]
    this reachable_pending row r1 r2
  show ?thesis by (auto simp: pending_db_def)
qed

text \<open>C14: Left in peace, the expiry sweep fails nowhere and is exhaustive: it expires a full batch of uploads, or no
  pending upload is left whose deadline had passed when it began.\<close>

theorem expiry_sweep_drains:
  assumes "calm E" and "reachable (w_db w)"
    and "run_state (sweepPendingExpiries E) w = ((count, errors), w')"
  shows "errors = 0 \<and> (count = 100 \<or>
    (\<forall>u\<in>set (uploads (w_db w')). u_state u = Pending \<longrightarrow> server_clock E (tick w) < u_upload_deadline u))"
  using yields_run [OF yields_sweepPendingExpiries [OF assms(2)] assms(1) order_refl assms(3)]
  by (simp add: expiryBatchSize_def none_due_def)

theorem expiry_sweep_drains_witness:
  "\<exists>count w'. run_state (sweepPendingExpiries scenario) (at_db pending_db 2000) = ((count, 0), w') \<and>
     (count = 100 \<or> (\<forall>u\<in>set (uploads (w_db w')). u_state u = Pending \<longrightarrow> clock_at 2000 < u_upload_deadline u))"
proof -
  obtain count errors w' where run: "run_state (sweepPendingExpiries scenario) (at_db pending_db 2000) = ((count, errors), w')"
    by (metis surj_pair)
  from expiry_sweep_drains [OF scenario_calm _ this] reachable_pending
  have "errors = 0 \<and> (count = 100 \<or> (\<forall>u\<in>set (uploads (w_db w')). u_state u = Pending \<longrightarrow> clock_at 2000 < u_upload_deadline u))"
    by (simp add: server_clock_def at_db_def world_at_def)
  with run show ?thesis by auto
qed

text \<open>C15: Left in peace, a round of the finalizer with a due upload publishes one: if the objects of the finalizing
  uploads are valid images of their declarations, with no candidate recorded yet, the round reports no error and one
  of them is ready under the digest of its bytes.\<close>

theorem due_upload_is_published:
  assumes "calm E" and "unhurried E lease" and "reachable (w_db w)"
    and "v \<in> set (uploads (w_db w))" and "finalizing_due (server_clock E (tick w)) v"
    and "\<forall>u\<in>set (uploads (w_db w)). u_state u = Finalizing \<longrightarrow> (\<exists>raw. deliverable E (w_db w) u raw)"
    and "run_state (processNext E lease) w = (round, w')"
  shows "round = (True, None) \<and>
    (\<exists>u\<in>set (uploads (w_db w)). \<exists>raw. u_state u = Finalizing \<and> deliverable E (w_db w) u raw \<and>
       published (u_upload_id u) (candidate_key_of (u_upload_id u) (Sum256 raw)) (w_db w'))"
  using yields_run [OF yields_processNext [OF assms(3-5,2)] assms(1) order_refl assms(7)] assms(6)
  unfolding done_with_def by blast

theorem due_upload_is_published_witness:
  "\<exists>w'. run_state (processNext paused a_lease) (at_db finalizing_db 60) = ((True, None), w') \<and>
     (\<exists>u\<in>set (uploads finalizing_db). \<exists>key. published (u_upload_id u) key (w_db w'))"
proof -
  obtain round w' where run: "run_state (processNext paused a_lease) (at_db finalizing_db 60) = (round, w')" by fastforce
  have row: "u_declared_size finalizing_row = 3" "u_declared_content_type finalizing_row = ''image/png''"
    "finalizing_due (clock_at 50) finalizing_row"
    by (simp_all add: rows finalizing_due_def by_now_def clock_at_def)
  have "deliverable paused finalizing_db finalizing_row [1, 2, 3]"
    by (rule paused_deliverable) (simp_all add: row finalizing_db_def candidates_of_def)
  from due_upload_is_published [OF paused_calm paused_unhurried _ _ _ _ run, of finalizing_row] this reachable_finalizing row run
  show ?thesis by (auto simp: finalizing_db_def)
qed

section \<open>Properties of the transitions\<close>

text \<open>A claim that the finalizer is given was taken on a stored upload that is being finalized: the claim
  carries that row, and the row its token and the end of the lease.\<close>

theorem claim_is_recorded:
  assumes "peers_ok E" and "reachable (w_db w)" and "\<not> tx_open w"
    and "run_state (claimNextFinalizing E lease) w = (Inr (Some claim), w')"
  shows "\<exists>u\<in>set (uploads (w_db w')). claim = claim_of_row u (fc_Token claim) (fc_ExpiresAt claim) \<and>
    u_state u = Finalizing \<and> u_claim_token u = Some (fc_Token claim) \<and>
    (\<exists>e. u_claim_expires_at u = Some e \<and> timestamptz e = timestamptz (fc_ExpiresAt claim))"
  using service_result(3) [OF service_claimNext [OF assms(1)] assms(2-4)] by (simp add: claim_taken_def)

theorem claim_is_recorded_witness:
  "\<exists>u\<in>set (uploads claimed_db). the_claim = claim_of_row u (fc_Token the_claim) (fc_ExpiresAt the_claim) \<and>
     u_state u = Finalizing \<and> u_claim_token u = Some (fc_Token the_claim)"
proof -
  obtain r w' where "run_state (claimNextFinalizing scenario a_lease) (at_db finalizing_db 30) = (r, w')"
    and "r = Inr (Some the_claim)" and d: "w_db w' = claimed_db"
    by (rule leavesE [OF run_claim])
  then have "run_state (claimNextFinalizing scenario a_lease) (at_db finalizing_db 30) = (Inr (Some the_claim), w')" by simp
  from claim_is_recorded [OF scenario_peers _ _ this] reachable_finalizing show ?thesis unfolding d at_db_simps by blast
qed

text \<open>A renewal that is told to have succeeded left the row with the claim's token and the new end of the lease,
  and changes nothing else in the claim.\<close>

theorem renewal_is_recorded:
  assumes "peers_ok E" and "reachable (w_db w)" and "\<not> tx_open w"
    and "run_state (renewFinalizeClaim E claim lease) w = ((claim', Inr True), w')"
  shows "claim' = claim\<lparr>fc_ExpiresAt := fc_ExpiresAt claim'\<rparr> \<and>
    (\<exists>u\<in>set (uploads (w_db w')). u_upload_id u = fc_UploadID claim \<and> u_state u = Finalizing \<and>
       u_claim_token u = Some (fc_Token claim) \<and>
       (\<exists>e. u_claim_expires_at u = Some e \<and> timestamptz e = timestamptz (fc_ExpiresAt claim')))"
proof -
  have r: "claim_held claim' (w_db w')" "claim' = claim\<lparr>fc_ExpiresAt := fc_ExpiresAt claim'\<rparr>"
    using service_result(3) [OF service_renew [OF assms(1)] assms(2-4)] by simp_all
  from r(2) have "fc_UploadID claim' = fc_UploadID claim" "fc_Token claim' = fc_Token claim"
    by (metis finalizeClaim.simps finalizeClaim.surjective)+
  with r show ?thesis by (simp add: claim_held_def)
qed

theorem renewal_is_recorded_witness:
  "\<exists>u\<in>set (uploads renewed_db). u_upload_id u = new_id 11 \<and> u_claim_token u = Some (new_id 30)"
proof -
  obtain r w' where "run_state (renewFinalizeClaim scenario the_claim a_lease) (at_db claimed_db 60) = (r, w')"
    and "r = (the_claim\<lparr>fc_ExpiresAt := epoch + 5054 * minute\<rparr>, Inr True)" and d: "w_db w' = renewed_db"
    by (rule leavesE [OF run_renew])
  then have "run_state (renewFinalizeClaim scenario the_claim a_lease) (at_db claimed_db 60) =
      ((the_claim\<lparr>fc_ExpiresAt := epoch + 5054 * minute\<rparr>, Inr True), w')" by simp
  from renewal_is_recorded [OF scenario_peers _ _ this] reachable_claimed show ?thesis
    unfolding d at_db_simps by (auto simp: claim_rows)
qed

text \<open>A registration that is told to have succeeded left the candidate row with exactly the validated bytes'
  key, digest, size, format and dimensions.\<close>

theorem registration_is_recorded:
  assumes "peers_ok E" and "reachable (w_db w)" and "\<not> tx_open w"
    and "run_state (registerCandidate E claim c) w = (Inr (True, False), w')"
  shows "\<exists>row\<in>set (candidates (w_db w')). c_upload_id row = fc_UploadID claim \<and> candidate_of_row row = c \<and>
    tc_ObjectKey c = candidate_key_of (fc_UploadID claim) (tc_SHA256 c)"
proof -
  note run = service_result [OF service_registerCandidate [OF assms(1)] assms(2-4)]
  from run(3) obtain row where row: "row \<in> set (candidates (w_db w'))" "c_upload_id row = fc_UploadID claim"
    "candidate_of_row row = c" by (auto simp: candidate_stored_def)
  moreover have "c_object_key row = candidate_key_of (c_upload_id row) (c_sha256 row)"
    using candidate_row_key [OF _ row(1)] reachable_db_inv [OF run(4)] by (simp add: db_inv_def)
  ultimately show ?thesis by (intro bexI [of _ row]) (auto simp: candidate_of_row_def)
qed

theorem registration_is_recorded_witness:
  "\<exists>row\<in>set (candidates recorded_db). c_upload_id row = new_id 11 \<and> candidate_of_row row = candidate_of_row the_candidate"
proof -
  obtain r w' where "run_state (registerCandidate scenario the_claim (candidate_of_row the_candidate)) (at_db claimed_db 38) = (r, w')"
    and "r = Inr (True, False)" and d: "w_db w' = recorded_db"
    by (rule leavesE [OF run_register])
  then have "run_state (registerCandidate scenario the_claim (candidate_of_row the_candidate)) (at_db claimed_db 38) =
      (Inr (True, False), w')" by simp
  from registration_is_recorded [OF scenario_peers _ _ this] reachable_claimed show ?thesis
    unfolding d at_db_simps by (auto simp: claim_rows)
qed

text \<open>C16: When the finalizer is told that an upload became ready, the stored upload is ready with the selected
  candidate's key, no cleanup duty names that key, and the staging object has its duty.\<close>

theorem ready_is_recorded:
  assumes "peers_ok E" and "reachable (w_db w)" and "\<not> tx_open w"
    and "run_state (transitionFinalizeReady E claim selected) w = (Inr True, w')"
  shows "\<exists>u\<in>set (uploads (w_db w')). u_upload_id u = fc_UploadID claim \<and> u_state u = Ready \<and>
    u_final_key u = Some (tc_ObjectKey selected) \<and>
    tc_ObjectKey selected \<notin> t_object_key ` set (tombstones (w_db w')) \<and>
    u_staging_key u \<in> t_object_key ` set (tombstones (w_db w'))"
proof -
  note run = service_result [OF service_transitionReady [OF assms(1)] assms(2-4)]
  from run(3) obtain u where u: "u \<in> set (uploads (w_db w'))" "u_upload_id u = fc_UploadID claim"
    "u_state u = Ready" "u_final_key u = Some (tc_ObjectKey selected)" by (auto simp: published_def)
  note inv = reachable_db_inv [OF run(4)]
  from u final_key_uncondemned [OF inv u(1,4)] recorded_duties(1) [OF inv u(1)] show ?thesis
    by (intro bexI [of _ u]) simp_all
qed

theorem ready_is_recorded_witness:
  "\<exists>u\<in>set (uploads ready_db). u_state u = Ready \<and> u_final_key u = Some (c_object_key the_candidate)"
proof -
  obtain r w' where "run_state (transitionFinalizeReady scenario the_claim (candidate_of_row the_candidate)) (at_db recorded_db 60) = (r, w')"
    and "r = Inr True" and d: "w_db w' = ready_db"
    by (rule leavesE [OF run_ready])
  then have "run_state (transitionFinalizeReady scenario the_claim (candidate_of_row the_candidate)) (at_db recorded_db 60) =
      (Inr True, w')" by simp
  from ready_is_recorded [OF scenario_peers _ _ this] reachable_recorded show ?thesis
    unfolding d at_db_simps by (auto simp: candidate_of_row_def)
qed

text \<open>C17: When the finalizer is told that an upload was rejected, the stored upload is rejected for that reason,
  publishes nothing, and its staging object and every one of its candidates have a cleanup duty.\<close>

theorem rejection_is_recorded:
  assumes "peers_ok E" and "reachable (w_db w)" and "\<not> tx_open w"
    and "run_state (transitionFinalizeRejected E claim failure) w = (Inr True, w')"
  shows "\<exists>u\<in>set (uploads (w_db w')). u_upload_id u = fc_UploadID claim \<and> u_state u = Rejected \<and>
    u_rejection_reason u = Some (vf_Reason failure) \<and> u_final_key u = None \<and>
    u_staging_key u \<in> t_object_key ` set (tombstones (w_db w')) \<and>
    (\<forall>c\<in>set (candidates (w_db w')). c_upload_id c = u_upload_id u \<longrightarrow>
       c_object_key c \<in> t_object_key ` set (tombstones (w_db w')))"
proof -
  note run = service_result [OF service_transitionRejected [OF assms(1)] assms(2-4)]
  from run(3) obtain u where u: "u \<in> set (uploads (w_db w'))" "u_upload_id u = fc_UploadID claim"
    "u_state u = Rejected" "u_rejection_reason u = Some (vf_Reason failure)" by (auto simp: refused_def)
  note inv = reachable_db_inv [OF run(4)]
  have "u_final_key u = None" using ready_candidate(1) [OF inv u(1)] u(3) by fastforce
  with u recorded_duties [OF inv u(1)] show ?thesis by (intro bexI [of _ u]) simp_all
qed

theorem rejection_is_recorded_witness:
  "\<exists>u\<in>set (uploads rejected_db). u_state u = Rejected \<and> u_rejection_reason u = Some ''malformed_image'' \<and>
     u_staging_key u \<in> t_object_key ` set (tombstones rejected_db)"
proof -
  obtain r w' where "run_state (transitionFinalizeRejected scenario the_claim a_failure) (at_db claimed_db 60) = (r, w')"
    and "r = Inr True" and d: "w_db w' = rejected_db"
    by (rule leavesE [OF run_rejected])
  then have "run_state (transitionFinalizeRejected scenario the_claim a_failure) (at_db claimed_db 60) = (Inr True, w')" by simp
  from rejection_is_recorded [OF scenario_peers _ _ this] reachable_claimed show ?thesis
    unfolding d at_db_simps by (auto simp: a_failure_def rejectImage_def)
qed

text \<open>C18: When the finalizer is told that an upload without a staging object expired, the stored upload expired for
  that reason, at a time past its deadline and past the write horizon that was observed, which is
  still the row's: no write capability can create the object any more.\<close>

theorem missing_is_final:
  assumes "peers_ok E" and "reachable (w_db w)" and "\<not> tx_open w"
    and "run_state (transitionFinalizeExpiredMissing E claim horizon observed) w = (Inr True, w')"
  shows "\<exists>u\<in>set (uploads (w_db w')). u_upload_id u = fc_UploadID claim \<and> u_state u = Expired \<and>
    u_expiry_reason u = Some ''staging_missing_after_write_window'' \<and>
    u_max_write_expires_at u = timestamptz horizon \<and>
    (\<exists>t. u_terminal_at u = Some t \<and> u_upload_deadline u \<le> t \<and> u_max_write_expires_at u \<le> t)"
  using service_result(3) [OF service_transitionMissing [OF assms(1)] assms(2-4)]
  by (simp add: missing_expired_def)

theorem missing_is_final_witness:
  "\<exists>u\<in>set (uploads missing_db). u_state u = Expired \<and> (\<exists>t. u_terminal_at u = Some t \<and> u_max_write_expires_at u \<le> t)"
proof -
  obtain r w' where "run_state (transitionFinalizeExpiredMissing scenario the_claim (epoch + 15 * minute) []) (at_db claimed_db 2000) = (r, w')"
    and "r = Inr True" and d: "w_db w' = missing_db"
    by (rule leavesE [OF run_missing])
  then have "run_state (transitionFinalizeExpiredMissing scenario the_claim (epoch + 15 * minute) []) (at_db claimed_db 2000) = (Inr True, w')"
    by simp
  from missing_is_final [OF scenario_peers _ _ this] reachable_claimed show ?thesis
    unfolding d at_db_simps by blast
qed



text \<open>C20: An upload that the expiry pass reports is expired because its deadline elapsed, and its staging object
  has a cleanup duty that is not due before its last write capability ends.\<close>

theorem expiry_is_recorded:
  assumes "peers_ok E" and "reachable (w_db w)" and "\<not> tx_open w"
    and "run_state (expireNextPendingUpload E) w = (Inr (Some uid), w')"
  shows "\<exists>u\<in>set (uploads (w_db w')). u_upload_id u = uid \<and> u_state u = Expired \<and>
    u_expiry_reason u = Some ''upload_deadline_elapsed'' \<and>
    (\<exists>t\<in>set (tombstones (w_db w')). t_object_key t = u_staging_key u \<and> t_upload_id t = uid \<and>
       u_max_write_expires_at u \<le> t_delete_not_before t)"
  using service_result(3) [OF service_expireNext [OF assms(1)] assms(2-4)] by (simp add: pending_expiry_def)

theorem expiry_is_recorded_witness:
  "\<exists>u\<in>set (uploads (expired_db (epoch + 1994 * minute))). u_state u = Expired \<and>
     u_expiry_reason u = Some ''upload_deadline_elapsed''"
proof -
  obtain r w' where "run_state (expireNextPendingUpload scenario) (at_db pending_db 2000) = (r, w')"
    and "r = Inr (Some (new_id 11))" and d: "w_db w' = expired_db (epoch + 1994 * minute)"
    by (rule leavesE [OF run_expire])
  then have "run_state (expireNextPendingUpload scenario) (at_db pending_db 2000) = (Inr (Some (new_id 11)), w')" by simp
  from expiry_is_recorded [OF scenario_peers _ _ this] reachable_pending show ?thesis
    unfolding d at_db_simps by blast
qed

text \<open>C21: A reservation that the cleanup worker is given is on a stored duty, whose columns it carries and whose
  object nobody publishes: the duty has its token and the end of its lease, and a whole lease before that end it
  was due, by its earliest date and by the date of its next attempt.  That moment is a reading of the server's
  clock, unless a commit was answered with an error and the reservation was read back.\<close>

theorem reservation_is_recorded:
  assumes "peers_ok E" and "reachable (w_db w)" and "\<not> tx_open w"
    and "run_state (reserveNextCleanup E) w = (Inr (Some r), w')"
  shows "(\<exists>t\<in>set (tombstones (w_db w')). r = reservation_of_row t (cl_Token r) (cl_ExpiresAt r) \<and>
      t_reservation_token t = Some (cl_Token r) \<and> t_reservation_expires_at t = Some (cl_ExpiresAt r) \<and>
      \<not> is_final_key (w_db w') t \<and> t_delete_not_before t \<le> cl_ExpiresAt r - 30 * second \<and>
      t_next_attempt_at t \<le> cl_ExpiresAt r - 30 * second) \<and>
    ((\<exists>k. cl_ExpiresAt r - 30 * second = server_clock E k) \<or> (\<exists>k. env_commit E k \<noteq> CommitOk))"
proof -
  note run = triple_run [OF triple_reserveNextCleanup [OF assms(1)] assms(2-4)]
  from run(3) have taken: "reservation_taken E r (w_db w')" by simp
  then obtain t where t: "t \<in> set (tombstones (w_db w'))" "r = reservation_of_row t (cl_Token r) (cl_ExpiresAt r)"
    "\<not> is_final_key (w_db w') t" "t_reservation_token t = Some (cl_Token r)"
    "t_reservation_expires_at t = Some (cl_ExpiresAt r)" by (auto simp: reservation_taken_def)
  have "t_delete_not_before t \<le> cl_ExpiresAt r - 30 * second" "t_next_attempt_at t \<le> cl_ExpiresAt r - 30 * second"
    using reachable_reservations_due [OF run(4)] t(1,5) by (auto simp: reservations_due_def cleanupReservationLease_def)
  moreover have "(\<exists>k. cl_ExpiresAt r - 30 * second = server_clock E k) \<or> (\<exists>k. env_commit E k \<noteq> CommitOk)"
    using taken by (auto simp: reservation_taken_def cleanupReservationLease_def)
  ultimately show ?thesis using t by blast
qed

theorem reservation_is_recorded_witness:
  "\<exists>t\<in>set (tombstones reserved_db). t_reservation_token t = Some (cl_Token the_reservation) \<and>
     t_next_attempt_at t \<le> cl_ExpiresAt the_reservation - 30 * second"
proof -
  obtain r w' where "run_state (reserveNextCleanup scenario) (at_db republished_db 6100) = (r, w')"
    and "r = Inr (Some the_reservation)" and d: "w_db w' = reserved_db"
    by (rule leavesE [OF run_reserve])
  then have "run_state (reserveNextCleanup scenario) (at_db republished_db 6100) = (Inr (Some the_reservation), w')" by simp
  from reservation_is_recorded [OF scenario_peers _ _ this] reachable_republished show ?thesis
    unfolding d at_db_simps by blast
qed

text \<open>C22: A cleanup result that the worker is told about is on the duty, whose reservation is given up: a success
  clears the failures and schedules a protective repetition a day later, a failure schedules the next
  attempt a whole backoff delay, between a minute and an hour, later.\<close>

theorem cleanup_result_is_recorded:
  assumes "peers_ok E" and "reachable (w_db w)" and "\<not> tx_open w"
    and "run_state (applyCleanupResult E r result errorClass) w = (Inr (Some upd), w')"
  shows "(\<exists>t\<in>set (tombstones (w_db w')). t_object_key t = cl_ObjectKey r \<and> t_reservation_token t = None \<and>
      t_failure_streak t = cu_FailureStreak upd \<and> t_last_attempt_at t = Some (cu_LastAttemptAt upd) \<and>
      t_last_result t = Some result \<and> t_next_attempt_at t = cu_LastAttemptAt upd + cu_Delay upd) \<and>
    (if errorClass = '''' then cu_FailureStreak upd = 0 \<and> cu_Delay upd = 24 * hour
     else cu_Delay upd = cleanupRetryDelay (cu_FailureStreak upd) errorClass \<and>
          minute \<le> cu_Delay upd \<and> cu_Delay upd \<le> hour)"
  using service_result(3) [OF service_applyCleanupResult [OF assms(1)] assms(2-4)] cleanup_backoff.delay_bounds
  by (auto simp: result_applied_def cleanup_recorded_def)

theorem cleanup_result_is_recorded_witness:
  "\<exists>t\<in>set (tombstones (cleaned_db (epoch + 6194 * minute))). t_reservation_token t = None \<and>
     t_last_result t = Some ''delete_succeeded''"
proof -
  obtain r w' where "run_state (applyCleanupResult scenario the_reservation ''delete_succeeded'' '''') (at_db reserved_db 6200) = (r, w')"
    and "r \<noteq> Inr None \<and> (\<exists>x. r = Inr x)" and d: "w_db w' = cleaned_db (epoch + 6194 * minute)"
    by (rule leavesE [OF run_apply])
  moreover from this(2) obtain upd where "r = Inr (Some upd)" by (metis not_None_eq)
  ultimately have "run_state (applyCleanupResult scenario the_reservation ''delete_succeeded'' '''') (at_db reserved_db 6200) =
      (Inr (Some upd), w')" by simp
  from cleanup_result_is_recorded [OF scenario_peers _ _ this] reachable_reserved show ?thesis
    unfolding d at_db_simps by blast
qed

text \<open>C23: The three cleanup gauges show the table.  The statement calls the clock for every row, so two of its readings
  bound it: everything that was due at the first is counted, nothing that was not due at the second, and where
  the clock stands still the count is exact; the age is that of the oldest of the counted duties, or nothing if
  there is none, and the time of the snapshot lies between the two readings.  Each gauge is set to its own column.\<close>

theorem gauges_are_exact:
  assumes "metrics_ready w" and "run_state (refreshCleanupGauges E) w = (Inr snapshot, w')"
  shows "w_db w' = env_peers E (tick w) (w_db w) \<and>
    counters w' (''cleanup_due'', '''') = Some (cs_Due snapshot) \<and>
    counters w' (''cleanup_oldest_due_age_seconds'', '''') = Some (cs_OldestDueAge snapshot) \<and>
    counters w' (''cleanup_snapshot_unix_seconds'', '''') = Some (cs_SnapshotUnixTime snapshot) \<and>
    (\<exists>a b I lo hi duties due. {a, b} \<subseteq> {tick w..<tick w'} \<and> lo = server_clock E a \<and> hi = server_clock E b \<and>
       lo \<le> hi \<and> duties = tombstones (w_db w') \<and> due = nths duties I \<and>
       (\<forall>i<length duties. (tombstone_due (w_db w') lo (duties ! i) \<longrightarrow> i \<in> I) \<and>
          (i \<in> I \<longrightarrow> tombstone_due (w_db w') hi (duties ! i))) \<and>
       cs_Due snapshot = int (length due) \<and>
       lo div second \<le> cs_SnapshotUnixTime snapshot \<and> cs_SnapshotUnixTime snapshot \<le> hi div second \<and>
       (if due = [] then cs_OldestDueAge snapshot = 0
        else \<exists>now oldest. lo \<le> now \<and> now \<le> hi \<and> oldest \<in> set due \<and>
          (\<forall>t\<in>set due. t_next_attempt_at oldest \<le> t_next_attempt_at t) \<and>
          cs_OldestDueAge snapshot = (now - t_next_attempt_at oldest) div second))"
proof -
  note run = refresh_run [OF assms]
  from snapshot_between [OF run(3)] obtain a b where ab: "a < tick w' - Suc (tick w)" "b < tick w' - Suc (tick w)"
    "server_clock E (tick w + a) \<le> server_clock E (tick w + b)"
    "snapshot_within (w_db w') (server_clock E (tick w + a)) (server_clock E (tick w + b)) snapshot" by blast
  have "{tick w + a, tick w + b} \<subseteq> {tick w..<tick w'}" using ab(1,2) by auto
  with ab(3,4) run(1,2) show ?thesis unfolding snapshot_within_def gauges_show_def by blast
qed

theorem gauges_are_exact_witness:
  "\<exists>w' :: world. counters w' (''cleanup_due'', '''') = Some 1 \<and> counters w' (''cleanup_oldest_due_age_seconds'', '''') = Some 364680 \<and>
     (\<exists>I. length (nths (tombstones republished_db) I) = 1)"
proof -
  obtain r w' where "run_state (refreshCleanupGauges scenario) (at_db republished_db 6100) = (r, w')"
    and "r = Inr \<lparr>cs_Due = 1, cs_OldestDueAge = 364680, cs_SnapshotUnixTime = 1767591240\<rparr>" and d: "w_db w' = republished_db"
    by (rule leavesE [OF run_gauges])
  then have run: "run_state (refreshCleanupGauges scenario) (at_db republished_db 6100) =
      (Inr \<lparr>cs_Due = 1, cs_OldestDueAge = 364680, cs_SnapshotUnixTime = 1767591240\<rparr>, w')" by simp
  have "metrics_ready (at_db republished_db 6100)" by (simp add: metrics_ready_def at_db_def world_at_def)
  from gauges_are_exact [OF this run] obtain I where
    "counters w' (''cleanup_due'', '''') = Some 1" "counters w' (''cleanup_oldest_due_age_seconds'', '''') = Some 364680"
    "1 = int (length (nths (tombstones republished_db) I))" unfolding d cleanupSnapshot.simps by blast
  then show ?thesis by (auto intro!: exI [of _ w'] exI [of _ I])
qed

text \<open>C24: One maintenance sweep is bounded: it expires at most a hundred uploads and stops at the first error; it
  attempts at most ten cleanup duties, with at most one error each and one for the gauges.\<close>

theorem sweeps_are_bounded:
  assumes "peers_ok E" and "\<not> tx_open w"
    and "run_state (sweepPendingExpiries E) w = ((expired, errors), w1)" and "run_state (sweepCleanup E) w1 = ((attempted, failed), w2)"
  shows "expired \<le> 100 \<and> errors \<le> 1 \<and> attempted \<le> 10 \<and> failed \<le> 11 \<and> \<not> tx_open w2"
  using service_run [OF service_sweepPendingExpiries [OF assms(1)] assms(2,3)]
    service_run [OF service_sweepCleanup [OF assms(1)] _ assms(4)]
  by (simp add: expiryBatchSize_def cleanupBatchSize_def)

theorem sweeps_are_bounded_witness:
  "\<exists>attempted failed w2. (\<exists>w1. run_state (sweepPendingExpiries scenario) (at_db pending_db 2000) = ((1, 0), w1) \<and>
     run_state (sweepCleanup scenario) w1 = ((attempted, failed), w2)) \<and> (attempted::nat) \<le> 10 \<and> (failed::nat) \<le> 11"
proof -
  obtain r w1 where "run_state (sweepPendingExpiries scenario) (at_db pending_db 2000) = (r, w1)" and "r = (1, 0)"
    by (rule leavesE [OF run_sweep])
  then have run: "run_state (sweepPendingExpiries scenario) (at_db pending_db 2000) = ((1, 0), w1)" by simp
  obtain attempted failed w2 where more: "run_state (sweepCleanup scenario) w1 = ((attempted, failed), w2)"
    by (metis surj_pair)
  from sweeps_are_bounded [OF scenario_peers _ run more] run more show ?thesis by fastforce
qed

section \<open>Transactions, storage and validation\<close>

text \<open>C25: A transaction with retries, whatever its body does, is one attempt, or two if the first ended in a
  serialization failure or a deadlock, when it began, in its body or at its commit; no other attempt is
  repeated, in particular none whose commit was answered with another error.  The caller is told exactly how the
  last attempt ended: committed if the commit was acknowledged, and then the database is the one the body built;
  of unknown outcome if the commit was answered with such an error; and the error itself.\<close>

theorem retry_outcomes:
  assumes "\<not> tx_open w" and "run_state (retryUploadTransaction E body v) w = ((v', committed, outcomeUnknown, err), w')"
  shows "\<exists>v1 e1 w1 e. run_state (attempt E body v) w = ((v1, e1), w1) \<and>
    (if rolled_back e1 then run_state (attempt E body v1) w1 = ((v', e), w') else (v', e, w') = (v1, e1, w1)) \<and>
    (committed \<longleftrightarrow> (\<exists>t. e = Committed t \<and> w_db w' = t)) \<and>
    (outcomeUnknown \<longleftrightarrow> (\<exists>cause t. e = Unconfirmed cause t \<and> \<not> retryableTransactionError cause)) \<and>
    err = attempt_error e \<and> \<not> tx_open w'"
proof -
  obtain v1 e1 w1 where first: "run_state (attempt E body v) w = ((v1, e1), w1)" by (metis surj_pair)
  obtain v2 e2 w2 where again: "run_state (attempt E body v1) w1 = ((v2, e2), w2)" by (metis surj_pair)
  note closed = attempt_closed [OF assms(1) first] attempt_closed [OF attempt_closed(1) [OF assms(1) first] again]
  show ?thesis
    using assms(2) first again closed
    by (intro exI [of _ v1] exI [of _ e1] exI [of _ w1] exI [of _ "if rolled_back e1 then e2 else e1"])
       (auto simp: retryUploadTransaction_def databaseTxAttempts_def numeral_2_eq_2 retry_attempts_Suc verdict_def
         simp del: retry_attempts.simps split: if_splits)
qed

definition unconfirmed :: environment where
  "unconfirmed = scenario\<lparr>env_commit := \<lambda>_. CommitLost (errors_New (ErrText ''connection reset''))\<rparr>"

theorem retry_outcomes_witness:
  "\<exists>w' cause. run_state (retryUploadTransaction unconfirmed (\<lambda>v t. State_Monad.return (v, Inr (True, t))) (0::nat)) (at_db pending_db 20) =
     ((0, False, True, Some cause), w') \<and> \<not> retryableTransactionError cause \<and> \<not> tx_open w'"
proof -
  let ?cause = "errors_New (ErrText ''connection reset'')"
  have "\<not> retryableTransactionError ?cause" by code_simp
  then have "fst (run_state (retryUploadTransaction unconfirmed (\<lambda>v t. State_Monad.return (v, Inr (True, t))) (0::nat)) (at_db pending_db 20)) =
      (0, False, True, Some ?cause)"
    by (simp add: retried_tx unconfirmed_def scenario_def beginUploadTransaction_def set_local_def commit_tx_def
        next_tick_def run_peers_def set_tx_open_def modify_def current_db_def)
  then obtain w' where run: "run_state (retryUploadTransaction unconfirmed (\<lambda>v t. State_Monad.return (v, Inr (True, t))) (0::nat)) (at_db pending_db 20) =
      ((0, False, True, Some ?cause), w')" by (metis prod.collapse)
  with retry_outcomes [OF _ run] show ?thesis by auto
qed

text \<open>C26: The validator accepts exactly the right objects: the length header does not contradict the body, the body
  has the declared size and at most ten mebibytes, both decoders agree on a known format that is the
  declared type, and no axis exceeds 8192 and the area not 2^23 pixels; and what it returns are those
  bytes, their SHA-256 and the decoded dimensions.\<close>

theorem validation_accepts_iff:
  "validateImageBytes E encoded contentLength declaredSize ctype = Inr (Inr v) \<longleftrightarrow>
     (contentLength < 0 \<or> contentLength = int (length encoded)) \<and>
     v = \<lparr>vi_Bytes = encoded, vi_SHA256 = Sum256 encoded, vi_SizeBytes = int (length encoded),
          vi_ContentType = ctype, vi_Format = vi_Format v, vi_Width = vi_Width v, vi_Height = vi_Height v\<rparr> \<and>
     int (length encoded) = declaredSize \<and> declaredSize \<le> 10485760 \<and>
     (vi_Format v = ''jpeg'' \<and> ctype = ''image/jpeg'' \<or> vi_Format v = ''png'' \<and> ctype = ''image/png'') \<and>
     1 \<le> vi_Width v \<and> vi_Width v \<le> 8192 \<and> 1 \<le> vi_Height v \<and> vi_Height v \<le> 8192 \<and>
     vi_Width v * vi_Height v \<le> 8388608 \<and>
     env_DecodeConfig E encoded = Inr (vi_Format v, vi_Width v, vi_Height v) \<and>
     env_Decode E encoded = Inr (vi_Format v, vi_Width v, vi_Height v)"
  by (rule validateImageBytes_iff)

text \<open>C27: Every rejection of the validator can be stored, reported and counted: its class and reason have a public
  failure code, its phase is one that the table admits, and its reason is a registered metric.\<close>

theorem rejections_are_reportable:
  assumes "validateImageBytes E encoded contentLength declaredSize ctype = Inr (Inl failure)"
  shows "publicFailureCode (vf_Class failure) (vf_Reason failure) \<noteq> '''' \<and>
    vf_Phase failure \<in> {''staging_read'', ''decode_config'', ''decode'', ''candidate_verify''} \<and>
    registered ''validation_rejects_total'' (vf_Reason failure)"
  using validateImageBytes_Inl [OF assms] by (simp add: failure_ok_def)

theorem rejections_are_reportable_witness:
  "registered ''validation_rejects_total'' ''declared_size_mismatch''"
proof -
  have "validateImageBytes scenario [1, 2, 3] 3 4 ''image/png'' = Inr (Inl (rejectImage ''invalid_input'' ''declared_size_mismatch'' ''staging_read''
      [(''expected_size'', JInt 4), (''observed_size'', JInt 3), (''observed_sha256'', JStr (hex_EncodeToString (Sum256 [1, 2, 3])))]))"
    by (simp add: validateImageBytes_def Let_def limits)
  from rejections_are_reportable [OF this] show ?thesis by (simp add: rejectImage_def)
qed

section \<open>Properties of object storage\<close>

text \<open>C28: A captured object never holds more than one byte above the limit; bytes within the limit are the whole
  body, read without an error, of the announced length if one was announced; and an object without bytes
  announced more than the limit.\<close>

theorem capture_is_bounded:
  assumes "0 \<le> maxBytes" and "run_state (captureS3Object E key maxBytes) w = (Inr snapshot, w')"
  shows "s3_events w' = s3_events w @ [S3Get key (Inr snapshot)] \<and> w_db w' = w_db w \<and>
    (case os_Bytes snapshot of
       None \<Rightarrow> maxBytes < os_ContentLength snapshot
     | Some bytes \<Rightarrow> int (length bytes) \<le> maxBytes + 1 \<and>
         (\<exists>len body readErr. env_get E (tick w) key = GetObject len body readErr None \<and>
            bytes = take (length bytes) body \<and>
            (int (length bytes) = maxBytes + 1 \<or>
             bytes = body \<and> readErr = None \<and> (\<forall>n \<in> set_option len. n = int (length body) \<or> n < 0))))"
proof -
  have snapshot: "capture_response (env_get E (tick w) key) maxBytes = Inr snapshot"
    and w': "s3_events w' = s3_events w @ [S3Get key (Inr snapshot)]" "w_db w' = w_db w"
    using assms(2) by (auto simp: captureS3Object_def next_tick_def s3_record_def modify_def Let_def)
  obtain len body readErr where get: "env_get E (tick w) key = GetObject len body readErr None"
    using capture_response_Inr [OF snapshot] by blast
  have "case os_Bytes snapshot of
       None \<Rightarrow> maxBytes < os_ContentLength snapshot
     | Some bytes \<Rightarrow> int (length bytes) \<le> maxBytes + 1 \<and> bytes = take (length bytes) body \<and>
            (int (length bytes) = maxBytes + 1 \<or>
             bytes = body \<and> readErr = None \<and> (\<forall>n \<in> set_option len. n = int (length body) \<or> n < 0))"
    using snapshot assms(1) unfolding get
    by (auto simp: capture_response_def close_body_def read_body_def Let_def min_def
        split: if_splits sum.splits option.splits)
  with w' get show ?thesis by (auto split: option.splits)
qed

theorem capture_is_bounded_witness:
  "s3_events (snd (run_state (captureS3Object scenario ''k'' 10) (at_db empty_db 0))) =
     [S3Get ''k'' (Inr \<lparr>os_Bytes = Some [1, 2, 3], os_ContentLength = 3\<rparr>)]"
proof -
  have run: "run_state (captureS3Object scenario ''k'' 10) (at_db empty_db 0) =
      (Inr \<lparr>os_Bytes = Some [1, 2, 3], os_ContentLength = 3\<rparr>, snd (run_state (captureS3Object scenario ''k'' 10) (at_db empty_db 0)))"
    by (simp add: captureS3Object_def next_tick_def s3_record_def modify_def Let_def capture_response_def
        close_body_def read_body_def at_db_def world_at_def)
  from capture_is_bounded [OF _ run] show ?thesis by auto
qed

text \<open>C29: An upload capability is accepted only for a signed \<open>PUT\<close> to an absolute URL, bound to exactly the declared
  content type and the host, without a checksum parameter, signed and valid for fifteen minutes from the
  signing time; and signing touches no stored state.\<close>

theorem upload_capability_is_bound:
  assumes "run_state (presignUploadPUT E presigner key contentType) w = (Inr request, w')"
  shows "w_db w' = w_db w \<and> rq_Method request = ''PUT'' \<and> rq_Headers request = [(''Content-Type'', contentType)] \<and>
    (\<exists>signed parsed t. env_presign_put E (tick w) key contentType = Inr (Some signed) \<and>
       rq_URL request = sg_URL signed \<and> env_url_Parse E (sg_URL signed) = Some parsed \<and>
       pu_Scheme parsed \<noteq> '''' \<and> pu_Host parsed \<noteq> '''' \<and>
       header_values (sg_SignedHeader signed) ''Content-Type'' = [contentType] \<and>
       query_values parsed ''X-Amz-Expires'' = [''900''] \<and>
       query_values parsed ''X-Amz-SignedHeaders'' = [''content-type;host''] \<and>
       list_all (\<lambda>(name, _). \<not> strings_Contains (strings_ToLower name) ''checksum'') (pu_Query parsed) \<and>
       parse_amz_date (query_values parsed ''X-Amz-Date'' ! 0) = Some t \<and>
       rq_ExpiresAt request = t + 15 * minute)"
proof -
  have db: "w_db w' = w_db w"
    by (rule put_signer.grant.granted_run(2) [where k = "(key, contentType)", unfolded prod.case, OF assms])
  obtain answer where answer: "env_presign_put E (tick w) key contentType = Inr answer"
    "accept_upload_signature (env_url_Parse E) contentType answer = Inr request"
    using assms by (auto simp: presignUploadPUT_def next_tick_def split: if_splits sum.splits)
  have one: "length xs = Suc 0 \<Longrightarrow> xs ! 0 = x \<Longrightarrow> xs = [x]" for xs :: "string list" and x
    by (cases xs) auto
  obtain signed parsed t where s: "answer = Some signed" "rq_URL request = sg_URL signed"
    "env_url_Parse E (sg_URL signed) = Some parsed"
    "parse_amz_date (query_values parsed ''X-Amz-Date'' ! 0) = Some t" "rq_ExpiresAt request = t + 15 * minute"
    using accept_upload_signature_Inr(3) [OF answer(2)] by blast
  have "pu_Scheme parsed \<noteq> ''''" "pu_Host parsed \<noteq> ''''"
    "header_values (sg_SignedHeader signed) ''Content-Type'' = [contentType]"
    "query_values parsed ''X-Amz-Expires'' = [''900'']"
    "query_values parsed ''X-Amz-SignedHeaders'' = [''content-type;host'']"
    "list_all (\<lambda>(name, _). \<not> strings_Contains (strings_ToLower name) ''checksum'') (pu_Query parsed)"
    using answer(2) s(3) unfolding s(1) accept_upload_signature_def Let_def IsAbs_def
    by (auto intro: one simp: list_all_iff list_ex_iff split: if_splits option.splits)
  with db answer(1) s accept_upload_signature_Inr(1,2) [OF answer(2)] show ?thesis by blast
qed

theorem upload_capability_is_bound_witness:
  "\<exists>parsed. scenario_url (''https://s3.example/put/'' @ ''k'') = Some parsed \<and>
     query_values parsed ''X-Amz-Expires'' = [''900''] \<and> pu_Host parsed \<noteq> ''''"
proof -
  note run = run_presign_put [of "''k''" "''image/png''" empty_db 0 False "[]" "[]" "\<lambda>_. 0"]
  from upload_capability_is_bound [OF run] show ?thesis by (auto simp: put_answer_def scenario_def)
qed

text \<open>C30: A content grant is accepted only for a signed \<open>GET\<close> to an absolute \<open>http\<close> or \<open>https\<close> URL without user or
  fragment, whose only signed header is the host, valid for five minutes from the signing time.\<close>

theorem content_grant_is_bound:
  assumes "run_state (presignContentGET E presigner key) w = (Inr (url, expiresAt), w')"
  shows "w_db w' = w_db w \<and>
    (\<exists>signed parsed t. env_presign_get E (tick w) key = Inr (Some signed) \<and> sg_Method signed = ''GET'' \<and>
       url = sg_URL signed \<and> env_url_Parse E url = Some parsed \<and>
       pu_Scheme parsed \<in> {''http'', ''https''} \<and> pu_Host parsed \<noteq> '''' \<and> \<not> pu_User parsed \<and> pu_Fragment parsed = '''' \<and>
       list_all (\<lambda>(name, values). strings_EqualFold name ''Host'' \<and> length values = 1) (sg_SignedHeader signed) \<and>
       query_values parsed ''X-Amz-Expires'' = [''300''] \<and> query_values parsed ''X-Amz-SignedHeaders'' = [''host''] \<and>
       parse_amz_date (query_values parsed ''X-Amz-Date'' ! 0) = Some t \<and> expiresAt = t + 5 * minute)"
proof -
  have db: "w_db w' = w_db w" by (rule get_signer.grant.granted_run(2) [OF assms])
  obtain answer where answer: "env_presign_get E (tick w) key = Inr answer"
    "accept_content_signature (env_url_Parse E) answer = Inr (url, expiresAt)"
    using assms by (auto simp: presignContentGET_def next_tick_def split: if_splits sum.splits)
  have one: "length xs = Suc 0 \<Longrightarrow> xs ! 0 = x \<Longrightarrow> xs = [x]" for xs :: "string list" and x
    by (cases xs) auto
  obtain signed parsed t where s: "answer = Some signed" "url = sg_URL signed" "env_url_Parse E url = Some parsed"
    "pu_Scheme parsed \<in> {''http'', ''https''}" "pu_Host parsed \<noteq> ''''"
    "parse_amz_date (query_values parsed ''X-Amz-Date'' ! 0) = Some t" "expiresAt = t + 5 * minute"
    using accept_content_signature_Inr [OF answer(2)] by blast
  have "sg_Method signed = ''GET''" "\<not> pu_User parsed" "pu_Fragment parsed = ''''"
    "list_all (\<lambda>(name, values). strings_EqualFold name ''Host'' \<and> length values = 1) (sg_SignedHeader signed)"
    "query_values parsed ''X-Amz-Expires'' = [''300'']" "query_values parsed ''X-Amz-SignedHeaders'' = [''host'']"
    using answer(2) s(3) unfolding s(1,2) accept_content_signature_def Let_def IsAbs_def
    by (auto intro: one simp: list_all_iff list_ex_iff split: if_splits option.splits)
  with db answer(1) s show ?thesis by blast
qed

theorem content_grant_is_bound_witness:
  "\<exists>parsed. scenario_url (''https://s3.example/get/'' @ ''k'') = Some parsed \<and>
     query_values parsed ''X-Amz-Expires'' = [''300''] \<and> \<not> pu_User parsed"
proof -
  note run = run_presign_get [of "''k''" empty_db 0 False "[]" "[]" "\<lambda>_. 0", unfolded get_answer_def]
  from content_grant_is_bound [OF run] show ?thesis by (auto simp: scenario_def)
qed

section \<open>Properties of identifiers, routes and bodies\<close>

text \<open>C32: An identifier made from random bytes is a lower-case version 4 UUID, so it is a valid idempotency key and
  one segment of a path: the routes of the upload it names lead back to it.\<close>

theorem generated_identifiers:
  assumes "run_state (newUploadUUID E) w = (Inr uid, w')"
  shows "idempotencyKeyPattern uid \<and> applicationRoute (''/uploads/'' @ uid) = (''/uploads/{upload_id}'', uid)"
proof -
  obtain f where "uid = uuid_text (map f [0..<16])"
    using assms by (auto simp: newUploadUUID_def next_tick_def split: sum.splits)
  then have valid: "idempotencyKeyPattern uid" by (simp only: uuid_text_valid length_map length_upt)
  show ?thesis
  proof
    show "idempotencyKeyPattern uid" by (rule valid)
    have "single_segment uid" by (rule valid_key_segment [OF valid])
    then show "applicationRoute (''/uploads/'' @ uid) = (''/uploads/{upload_id}'', uid)"
      using applicationRoute_below [of "''/uploads/{upload_id}''" "''/uploads/'' @ uid" uid] subroute_iff(1) by blast
  qed
qed

theorem generated_identifiers_witness: "idempotencyKeyPattern (new_id 7)"
proof -
  have "run_state (newUploadUUID scenario) (at_db empty_db 7) = (Inr (new_id 7), at_db empty_db 8)"
    by (simp add: run)
  from generated_identifiers [OF this] show ?thesis by (rule conjunct1)
qed

text \<open>C33: The three routes of an upload are matched by exactly one path for each identifier: a path is routed to an
  upload just when it is the route's text with one nonempty segment in the place of the identifier.\<close>

theorem routes_parse_back:
  "(applicationRoute path = (''/uploads/{upload_id}'', uid) \<longleftrightarrow>
      path = ''/uploads/'' @ uid \<and> single_segment uid) \<and>
   (applicationRoute path = (''/uploads/{upload_id}/complete'', uid) \<longleftrightarrow>
      path = ''/uploads/'' @ uid @ ''/complete'' \<and> single_segment uid) \<and>
   (applicationRoute path = (''/uploads/{upload_id}/content'', uid) \<longleftrightarrow>
      path = ''/uploads/'' @ uid @ ''/content'' \<and> single_segment uid)"
proof (intro conjI)
  show "applicationRoute path = (''/uploads/{upload_id}'', uid) \<longleftrightarrow> path = ''/uploads/'' @ uid \<and> single_segment uid"
    using applicationRoute_below [of "''/uploads/{upload_id}''" path uid] subroute_iff(1) by blast
  show "applicationRoute path = (''/uploads/{upload_id}/complete'', uid) \<longleftrightarrow>
      path = ''/uploads/'' @ uid @ ''/complete'' \<and> single_segment uid"
    using applicationRoute_below [of "''/uploads/{upload_id}/complete''" path uid] subroute_iff(2) by blast
  show "applicationRoute path = (''/uploads/{upload_id}/content'', uid) \<longleftrightarrow>
      path = ''/uploads/'' @ uid @ ''/content'' \<and> single_segment uid"
    using applicationRoute_below [of "''/uploads/{upload_id}/content''" path uid] subroute_iff(3) by blast
qed

text \<open>C34: However a client writes the creation request (the two members in either order, any white space between any
  two tokens, the names and the type as literals in which any character may be escaped, the size as a decimal
  numeral), the decoder returns the size and the type that were meant, up to the bounds of the 64-bit
  integers, and accepts nothing but white space after the object.\<close>

theorem create_body_roundtrip:
  assumes "spaced gap" and "denotes size_name ''size_bytes''" and "denotes type_name ''content_type''" and "denotes literal ctype"
    and "- (2 ^ 63) \<le> n" and "n < 2 ^ 63"
    and "{earlier, later} = {(size_name, decimal n), (type_name, quoted literal)}"
  shows "decodeCreateUploadBody (create_body gap earlier later @ trailer) =
    (if list_all json_space trailer
     then Some \<lparr>cc_IdempotencyKey = [], cc_SizeBytes = n, cc_ContentType = ctype\<rparr> else None)"
  by (rule decode_create_body [OF assms(1-6)]) (use assms(7) in \<open>auto simp: doubleton_eq_iff\<close>)

lemma denotes_append: "list_all plain_char p \<Longrightarrow> denotes l s \<Longrightarrow> denotes (p @ l) (p @ s)"
proof (induction p)
  case (Cons c p)
  then have c: "plain_char c" and IH: "denotes (p @ l) (p @ s)" by simp_all
  then have "rune_length [c] = length [c]" by (simp add: rune_length_def plain_char_def)
  from denotes.rune [OF this _ _ _ IH] c show ?case by (simp add: plain_char_def)
qed simp

text \<open>The request of \<^verbatim>\<open>upload_test.go\<close>, line 56, but with an escaped slash in the type.\<close>

theorem create_body_roundtrip_witness:
  "decodeCreateUploadBody ('' { \"content_type\" : \"image'' @ [CHR 0x5C] @ ''/png\", \"size_bytes\" : 10485760 } '') =
     Some \<lparr>cc_IdempotencyKey = [], cc_SizeBytes = 10485760, cc_ContentType = ''image/png''\<rparr>"
proof -
  let ?gap = "\<lambda>i::nat. if i \<in> {3, 9} then [] else '' ''" and ?literal = "''image'' @ CHR 0x5C # CHR ''/'' # ''png''"
  have written: "'' { \"content_type\" : \"image'' @ [CHR 0x5C] @ ''/png\", \"size_bytes\" : 10485760 } '' =
      create_body ?gap (''content_type'', quoted ?literal) (''size_bytes'', decimal 10485760) @ '' ''"
    by (simp add: create_body_def member_text_def quoted_def decimal_def decimal_nat.simps)
  have "denotes ?literal (''image'' @ CHR ''/'' # ''png'')"
    by (intro denotes_append denotes.short denotes_plain) (simp_all add: plain_char_def escape_value_def)
  moreover have "spaced ?gap" "list_all json_space '' ''" by (simp_all add: spaced_def json_space_def)
  ultimately show ?thesis
    unfolding written using create_body_roundtrip [of ?gap "''size_bytes''" "''content_type''" ?literal "''image/png''" 10485760
      "(''content_type'', quoted ?literal)" "(''size_bytes'', decimal 10485760)" "'' ''"]
    by (simp add: denotes_plain plain_char_def insert_commute)
qed

text \<open>C35: A client that reads the body of a response finds there every field of the payload, under its documented name and
  with its value, an absent field left out: an upload with its capability, its failure or its image, an error with its
  code and message, the readiness with its checks.  No body contains a character of markup.\<close>

theorem response_text:
  assumes "upload_valid upload" and "list_all utf8_valid [code, message, status, pg, s3]"
    and "payload_text (UploadPayload upload) = Some body" and "payload_text (ErrorPayload code message) = Some failure"
    and "payload_text (ReadyPayload status pg s3) = Some readiness"
  shows "(\<exists>ms. read_json body = Some (JObject ms) \<and> distinct (map fst ms) \<and>
      set (map fst ms) \<subseteq> {''upload_id'', ''state'', ''declared_size_bytes'', ''declared_content_type'', ''upload_deadline'',
        ''upload_request'', ''failure'', ''image''} \<and>
      map_of ms ''upload_id'' = Some (JString (up_UploadID upload)) \<and>
      map_of ms ''state'' = Some (JString (state_text (up_State upload))) \<and>
      map_of ms ''declared_size_bytes'' = Some (JNumber (up_DeclaredSizeBytes upload)) \<and>
      map_of ms ''declared_content_type'' = Some (JString (up_DeclaredContentType upload)) \<and>
      map_of ms ''upload_deadline'' = Some (JString (rfc3339 (up_UploadDeadline upload))) \<and>
      map_of ms ''upload_request'' = map_option (\<lambda>q. JObject
        [(''method'', JString (rq_Method q)), (''url'', JString (rq_URL q)),
         (''headers'', JObject (map (\<lambda>(name, v). (name, JString v)) (sort_key fst (rq_Headers q)))),
         (''expires_at'', JString (rfc3339 (rq_ExpiresAt q)))]) (up_UploadRequest upload) \<and>
      map_of ms ''failure'' = map_option (\<lambda>code. JObject [(''code'', JString code)]) (up_Failure upload) \<and>
      map_of ms ''image'' = map_option (\<lambda>img. JObject
        [(''size_bytes'', JNumber (im_SizeBytes img)), (''content_type'', JString (im_ContentType img)),
         (''width'', JNumber (im_Width img)), (''height'', JNumber (im_Height img))]) (up_Image upload)) \<and>
    read_json failure = Some (JObject [(''error'', JObject [(''code'', JString code), (''message'', JString message)])]) \<and>
    read_json readiness = Some (JObject [(''status'', JString status),
      (''checks'', JObject [(''postgres'', JString pg), (''s3'', JString s3)])]) \<and>
    set (body @ failure @ readiness) \<inter> {CHR ''<'', CHR ''>'', CHR ''&''} = {}"
proof (intro conjI)
  show "read_json failure = Some (JObject [(''error'', JObject [(''code'', JString code), (''message'', JString message)])])"
    "read_json readiness = Some (JObject [(''status'', JString status),
      (''checks'', JObject [(''postgres'', JString pg), (''s3'', JString s3)])])"
    using read_payload(2,3) assms(2,4,5) by simp_all
  show "set (body @ failure @ readiness) \<inter> {CHR ''<'', CHR ''>'', CHR ''&''} = {}"
    using inert_payload [OF assms(3)] inert_payload [OF assms(4)] inert_payload [OF assms(5)] by (auto simp: inert_def)
qed (intro exI [of _ "upload_json upload"] conjI,
  use read_payload(1) [OF assms(1,3)] in \<open>auto simp: upload_json_def request_json_def image_json_def split: option.splits\<close>)

definition a_representation :: uploadRepresentation where
  "a_representation =
     \<lparr>up_UploadID = ''u'', up_State = Pending, up_DeclaredSizeBytes = 3, up_DeclaredContentType = ''image/png'',
      up_UploadDeadline = 0,
      up_UploadRequest = Some \<lparr>rq_Method = ''PUT'', rq_URL = ''https://s3.example/a?b=1&c=2'',
        rq_Headers = [(''Content-Type'', ''image/png'')], rq_ExpiresAt = 0\<rparr>,
      up_Failure = None, up_Image = None\<rparr>"

theorem response_text_witness:
  "\<exists>body ms rs. payload_text (UploadPayload a_representation) = Some body \<and> CHR ''&'' \<notin> set body \<and>
     read_json body = Some (JObject ms) \<and> map_of ms ''upload_request'' = Some (JObject rs) \<and>
     map_of rs ''url'' = Some (JString ''https://s3.example/a?b=1&c=2'')"
proof -
  have "request_valid \<lparr>rq_Method = ''PUT'', rq_URL = ''https://s3.example/a?b=1&c=2'',
      rq_Headers = [(''Content-Type'', ''image/png'')], rq_ExpiresAt = 0\<rparr>"
    by code_simp
  moreover have "utf8_valid ''u''" "utf8_valid (state_text Pending)" "int64 3" "utf8_valid ''image/png''" by code_simp+
  ultimately have valid: "upload_valid a_representation" by (simp add: upload_valid_def a_representation_def)
  have texts: "list_all utf8_valid [''c'', ''m'', ''s'', ''p'', ''t'']" by code_simp
  obtain body where body: "payload_text (UploadPayload a_representation) = Some body" by simp
  from response_text [OF valid texts body payload_text.simps(1,4)] obtain ms where
    "read_json body = Some (JObject ms)" "CHR ''&'' \<notin> set body"
    "map_of ms ''upload_request'' = Some (JObject
        [(''method'', JString ''PUT''), (''url'', JString ''https://s3.example/a?b=1&c=2''),
         (''headers'', JObject [(''Content-Type'', JString ''image/png'')]), (''expires_at'', JString (rfc3339 0))])"
    by (auto simp: a_representation_def)
  with body show ?thesis by (auto intro!: exI [of _ body] exI [of _ ms])
qed

text \<open>When recording the duties of a terminal transition succeeds, every target has a duty of this upload, due no
  earlier than the target's time and under the target's digest; nothing else changed but that duties of
  this upload under the targets' keys were added.\<close>

theorem duties_are_recorded:
  assumes "run_state (ensureTombstones E uid (terminalTombstones parent cands selectedKey) t) w = (Inr t', w')"
  shows "(\<forall>tgt \<in> set (terminalTombstones parent cands selectedKey). \<exists>row\<in>set (tombstones t').
       t_object_key row = tt_ObjectKey tgt \<and> t_upload_id row = uid \<and>
       bytes_of (t_candidate_sha256 row) = bytes_of (tt_CandidateSHA256 tgt) \<and>
       tt_DeleteNotBefore tgt \<le> t_delete_not_before row) \<and>
    appended_tombstones uid
      (insert (lf_StagingKey parent) (tc_ObjectKey ` {c \<in> set cands. tc_ObjectKey c \<noteq> selectedKey})) t t' \<and>
    w_db w' = w_db w"
proof -
  note quiet = quiet_run [OF quiet_ensureTombstones assms]
  from quiet(1) have ensured: "ensured uid (terminalTombstones parent cands selectedKey) t t'" by blast
  have keys: "tt_ObjectKey ` set (terminalTombstones parent cands selectedKey) =
      insert (lf_StagingKey parent) (tc_ObjectKey ` {c \<in> set cands. tc_ObjectKey c \<noteq> selectedKey})"
    unfolding set_terminalTombstones by (auto simp: staging_target_def candidate_target_def image_iff)
  have "\<exists>row\<in>set (tombstones t'). t_object_key row = tt_ObjectKey tgt \<and> t_upload_id row = uid \<and>
       bytes_of (t_candidate_sha256 row) = bytes_of (tt_CandidateSHA256 tgt) \<and>
       tt_DeleteNotBefore tgt \<le> t_delete_not_before row"
    if "tgt \<in> set (terminalTombstones parent cands selectedKey)" for tgt
    using ensured_covers [OF ensured that] by (auto simp: tombstone_conflicts_def not_less)
  with ensured_appends [OF ensured] quiet(2) show ?thesis unfolding keys by blast
qed

theorem duties_are_recorded_witness:
  "t_object_key (staging_duty (epoch + 10 * minute)) = staging_key_of (new_id 11) \<and>
   t_upload_id (staging_duty (epoch + 10 * minute)) = new_id 11 \<and>
   epoch + 15 * minute \<le> t_delete_not_before (staging_duty (epoch + 10 * minute))"
proof -
  let ?parent = "\<lparr>lf_DatabaseNow = epoch, lf_UploadDeadline = epoch + 15 * minute, lf_MaxWriteExpiresAt = epoch + 15 * minute,
    lf_StagingKey = staging_key_of (new_id 11), lf_FailureStreak = 0\<rparr>"
  have "run_state (ensureTombstones scenario (new_id 11) (terminalTombstones ?parent [] '''') pending_db)
      (world_at pending_db 20 True [] [] (\<lambda>_. 0)) =
    (Inr (pending_db\<lparr>tombstones := [staging_duty (epoch + 10 * minute)]\<rparr>), world_at pending_db 22 True [] [] (\<lambda>_. 0))"
    by (simp add: run tombstone_rows pending_db_def rows max_int4_def)
  from conjunct1 [OF duties_are_recorded [OF this]] show ?thesis
    unfolding set_terminalTombstones by (auto simp: staging_target_def)
qed

section \<open>Properties of the configuration and the process\<close>

text \<open>C37: The service starts only with a usable configuration: a loopback address to listen on, a database, a bucket and
  a region, an endpoint that is absent or a plain loopback URL, and a claim lease that is longer than the
  longest S3 operation and fits in a duration.\<close>

theorem accepted_configuration:
  assumes "loadConfigFrom url_Parse product getenv = Inr cfg"
  shows "validLoopbackAddress (HTTPAddr cfg) \<and> DatabaseURL cfg = getenv ''DATABASE_URL'' \<and> DatabaseURL cfg \<noteq> '''' \<and>
    S3Bucket cfg \<noteq> '''' \<and> AWSRegion cfg \<noteq> '''' \<and>
    (S3Endpoint cfg = '''' \<or> validS3Endpoint url_Parse (S3Endpoint cfg)) \<and>
    s3OperationTimeout < FinalizeClaimLease cfg \<and> FinalizeClaimLease cfg < 2 ^ 63"
  using loadConfigFrom_Inr(1,2) [OF assms] unfolding config_ok_def by blast

theorem accepted_configuration_witness:
  "\<exists>cfg. loadConfigFrom (\<lambda>_. None) (\<lambda>_ _ _. 0)
       (\<lambda>name. if name = ''FINALIZE_CLAIM_LEASE'' then '' 1m5s '' else if name = ''HTTP_ADDR'' then ''[::1]:80''
          else if name = ''S3_ENDPOINT'' then '''' else ''x'') = Inr cfg \<and>
     FinalizeClaimLease cfg = 65 * second \<and> s3OperationTimeout < FinalizeClaimLease cfg \<and> validLoopbackAddress (HTTPAddr cfg)"
proof -
  have "loadConfigFrom (\<lambda>_. None) (\<lambda>_ _ _. 0)
       (\<lambda>name. if name = ''FINALIZE_CLAIM_LEASE'' then '' 1m5s '' else if name = ''HTTP_ADDR'' then ''[::1]:80''
          else if name = ''S3_ENDPOINT'' then '''' else ''x'') =
     Inr \<lparr>HTTPAddr = ''[::1]:80'', DatabaseURL = ''x'', S3Bucket = ''x'', AWSRegion = ''x'', S3Endpoint = '''',
       FinalizeClaimLease = 65 * second\<rparr>" by code_simp
  from accepted_configuration [OF this] this show ?thesis by auto
qed

text \<open>C38: An address in dotted decimal with a port is accepted exactly when its first byte is 127 and its port is between
  1 and 65535: the service cannot be configured to listen on another interface.\<close>

theorem loopback_iff:
  assumes "a \<le> 255" and "b \<le> 255" and "c \<le> 255" and "d \<le> 255"
  shows "validLoopbackAddress (dotted_quad a b c d @ CHR '':'' # decimal_nat p) \<longleftrightarrow> a = 127 \<and> 0 < p \<and> p < 65536"
  by (rule loopback_dotted [OF assms])

theorem loopback_iff_witness:
  "validLoopbackAddress (dotted_quad 127 255 0 1 @ CHR '':'' # decimal_nat 65535) \<and>
   \<not> validLoopbackAddress (dotted_quad 10 0 0 1 @ CHR '':'' # decimal_nat 8080)"
  using loopback_iff [of 127 255 0 1 65535] loopback_iff [of 10 0 0 1 8080] by simp

text \<open>C39: On every path the process releases what it acquired: a run that opened the pool ends with closing it, the
  workers run only over a database at exactly schema version 1 and with a lease longer than the longest S3
  operation, they have been stopped and waited for before the pool is closed, and the listener is on a
  loopback address.\<close>

theorem process_releases:
  assumes "Run P getenv = (t, r)"
  shows "(OpenPool url name deadline \<in> set t \<longrightarrow> last t = ClosePool) \<and>
    (StartFinalizer lease \<in> set t \<longrightarrow> ps_Ledger P = Some (1, 1) \<and> s3OperationTimeout < lease \<and>
       (\<exists>t'. t = t' @ [StopWorkers, WaitWorkers, ClosePool])) \<and>
    (Listen addr \<in> set t \<longrightarrow> validLoopbackAddress addr) \<and>
    (r = None \<longrightarrow> graceful P)"
proof (cases rule: Run_cases [of P getenv])
  case (config err)
  then show ?thesis using assms by simp
next
  case (database cfg err)
  then have "t = fst (openPostgres P (DatabaseURL cfg))" "r \<noteq> None" using assms by simp_all
  then show ?thesis using openPostgres_closes [of P "DatabaseURL cfg"] database(2) by auto
next
  case (service cfg)
  then have t: "t = OpenPool (DatabaseURL cfg) ''s3-media-upload'' databaseStartupTimeout #
      fst (run_service P cfg) @ [ClosePool]" and r: "r = snd (run_service P cfg)" using assms by simp_all
  have ok: "s3OperationTimeout < FinalizeClaimLease cfg" "validLoopbackAddress (HTTPAddr cfg)"
    using loadConfigFrom_Inr(1) [OF service(1)] by (simp_all add: config_ok_def)
  show ?thesis
  proof (intro conjI impI)
    assume "StartFinalizer lease \<in> set t"
    then have started: "StartFinalizer lease \<in> set (fst (run_service P cfg))" by (simp add: t)
    show "s3OperationTimeout < lease" using run_service_workers(1) [OF started] ok(1) by simp
    show "\<exists>t'. t = t' @ [StopWorkers, WaitWorkers, ClosePool]"
      using run_service_workers(2) [OF started] by (auto simp: t)
  next
    assume "Listen addr \<in> set t"
    then show "validLoopbackAddress addr" using run_service_listen [of addr P cfg] ok(2) by (simp add: t)
  qed (use service(2) r run_service_None in \<open>simp_all add: t\<close>)
qed

definition a_process :: process where
  "a_process =
     \<lparr>ps_ParseConfig = \<lambda>_. True, ps_NewPool = True, ps_Ping = True, ps_Ledger = Some (1, 1), ps_LoadAWS = \<lambda>_. True,
      ps_Listen = \<lambda>_. True, ps_Select = ContextDone, ps_Shutdown = True, ps_ServeEnd = ErrServerClosed,
      ps_urlParse = \<lambda>_. None, ps_product = \<lambda>_ _ _. 0\<rparr>"

definition some_variables :: "string \<Rightarrow> string" where
  "some_variables name = (if name \<in> {''DATABASE_URL'', ''S3_BUCKET'', ''AWS_REGION''} then ''x'' else '''')"

theorem process_releases_witness:
  "StartFinalizer (30 * second) \<in> set (fst (Run a_process some_variables)) \<and>
     (\<exists>t. fst (Run a_process some_variables) = t @ [StopWorkers, WaitWorkers, ClosePool])"
proof -
  have started: "StartFinalizer (30 * second) \<in> set (fst (Run a_process some_variables))" by code_simp
  from process_releases [where P = a_process and getenv = some_variables and lease = "30 * second", OF prod.collapse [symmetric]]
  show ?thesis using started by blast
qed

definition a_config :: config where
  "a_config =
     \<lparr>HTTPAddr = ''127.0.0.1:8080'', DatabaseURL = ''x'', S3Bucket = ''x'', AWSRegion = ''x'', S3Endpoint = '''',
      FinalizeClaimLease = 30 * second\<rparr>"

text \<open>C31: Whatever order the goroutines run in, when \<^verbatim>\<open>Run\<close> has returned both workers and the server goroutine have
  returned; without an error it returns only after a cancellation, with the listener closed and no request
  in flight; and what it did is what the sequential model does for some outcome of the race, the pool being
  closed last.\<close>

theorem run_joins_goroutines:
  assumes "go_steps (started cfg) g" and "gr_run g = RunReturned r"
    and "ps_LoadAWS P (AWSRegion cfg)" and "ps_Listen P (HTTPAddr cfg)"
  shows "\<not> gr_finalizer g \<and> \<not> gr_maintenance g \<and> gr_serve g = ServeReturned \<and>
    (r = None \<longrightarrow> gr_cancelled g \<and> gr_closed g \<and> gr_handlers g = 0) \<and>
    (\<exists>sel ok err t. run_service (with_race P sel ok err) cfg = (t, r) \<and> gr_actions g = t @ [ClosePool])"
proof -
  obtain t where t: "gr_actions g = gr_actions (started cfg) @ t @ [StopWorkers, WaitWorkers, ClosePool]"
    and race: "race_ended g r t" and "workers_done g"
    by (rule returned_race [OF goroutines.from_init_inv [OF assms(1)] assms(2)])
  moreover obtain sel ok err where
    "run_service (with_race P sel ok err) cfg = (gr_actions (started cfg) @ t @ [StopWorkers, WaitWorkers], r)"
    using race_sequential [OF race assms(3,4)] by blast
  then have "\<exists>sel ok err t. run_service (with_race P sel ok err) cfg = (t, r) \<and> gr_actions g = t @ [ClosePool]"
    unfolding t by (intro exI conjI) (assumption, simp)
  ultimately show ?thesis
    using race_None race_ended_returned [OF race] by (auto simp: workers_done_def)
qed

theorem run_joins_goroutines_witness:
  "\<exists>g :: goroutines. gr_run g = RunReturned None \<and> \<not> gr_finalizer g \<and> \<not> gr_maintenance g \<and> gr_handlers g = 0 \<and> last (gr_actions g) = ClosePool"
proof -
  obtain g where g: "go_steps (started a_config) g" "gr_run g = RunReturned None" using graceful_run by blast
  have "ps_LoadAWS a_process (AWSRegion a_config)" "ps_Listen a_process (HTTPAddr a_config)" by (simp_all add: a_process_def)
  from run_joins_goroutines [OF g this] g(2) show ?thesis by - (rule exI [of _ g], auto)
qed

text \<open>C36: The process ends.  From every state in which the context has been cancelled \<^verbatim>\<open>Run\<close> can return, so no order of
  steps leads to a deadlock; and once the listener is closed it does, because every run from there on is
  finite, no longer than the places of the goroutines and the requests in flight allow.\<close>

theorem cancelled_process_returns:
  assumes "go_steps (started cfg) g" and "gr_cancelled g"
  shows "(\<exists>g' r. go_steps g g' \<and> gr_run g' = RunReturned r) \<and>
    (\<forall>n g'. gr_closed g \<and> (go_step ^^ n) g g' \<longrightarrow> n \<le> gr_handlers g + 12)"
proof -
  have inv: "process_inv cfg g" by (rule goroutines.from_init_inv [OF assms(1)])
  have "n \<le> gr_handlers g + 12" if "gr_closed g" "(go_step ^^ n) g g'" for n g'
  proof -
    have "n \<le> steps_left g" using go_steps_bounded [OF that(2,1)] by simp
    moreover have "run_rank (gr_run g) \<le> 8" by (cases "gr_run g") auto
    moreover have "serve_rank (gr_serve g) \<le> 2" by (cases "gr_serve g") auto
    ultimately show ?thesis using assms(2) by (auto simp: steps_left_def of_bool_def split: if_splits)
  qed
  with run_returns [OF inv assms(2)] show ?thesis by blast
qed

theorem cancelled_process_returns_witness:
  "\<exists>g' r. go_steps (cancelled_process a_config) g' \<and> gr_run g' = RunReturned r"
  using cancelled_process_returns [OF cancelled_reached] by (simp add: cancelled_process_def)

text \<open>C40: A successful answer of the read handler shows the stored upload in the state it has at that moment, and never
  a write capability.\<close>

theorem read_answer:
  assumes "peers_ok E" and "reachable (w_db w)" and "\<not> tx_open w"
    and "run_state (serveGetUpload (wired E stopping) new_recorder request uploadID) w = ((response, uid, ''''), w')"
  shows "\<exists>upload u. rc_body response = [UploadPayload upload] \<and> up_UploadID upload = uploadID \<and>
      up_UploadRequest upload = None \<and>
      u \<in> set (uploads (w_db w')) \<and> u_upload_id u = uploadID \<and> up_State upload = u_state u"
  using service_result(3) [OF service_api.serve_get [OF assms(1) fresh_recorder(1)] assms(2-4)]
  by (fastforce simp: in_state_def)

theorem read_answer_witness:
  "\<exists>upload::uploadRepresentation. up_UploadID upload = new_id 11 \<and> up_State upload = Pending \<and> up_UploadRequest upload = None"
proof -
  obtain w uid w' where "run_state (serveGetUpload (wired scenario False) new_recorder empty_request (new_id 11))
      (at_db pending_db 20) = ((w, uid, ''''), w')" and d: "w_db w' = pending_db"
    by (rule leavesE [OF run_serve_get]) auto
  from read_answer [OF scenario_peers _ _ this(1)] reachable_pending show ?thesis
    by (auto simp: d pending_db_def pending_row_def new_upload_row_def)
qed

end
